(* ===== verification/Prelude.thy ===== *)
theory Prelude
  imports Main
begin

text \<open>
  Shared vocabulary of the development: the outcome of a Go call (a value, a returned
  \<^verbatim>\<open>error\<close>, or a run-time panic, which is not an error and is not caught by
  \<^verbatim>\<open>if err != nil\<close>), the two sequencing combinators that stand for the
  \<^verbatim>\<open>if err != nil { return nil, err }\<close> idiom, and list lemmas used by several
  components.
\<close>

text \<open>
  Two collections: what unfolds the side conditions of one transaction (sizes, addresses), and
  what evaluates the abstract ledger on a concrete transaction.
\<close>

named_theorems size_conditions
named_theorems ledger_eval

section \<open>Errors, panics and outcomes\<close>

text \<open>
  Every \<^verbatim>\<open>errors.New\<close> and \<^verbatim>\<open>fmt.Errorf\<close> of the modelled code has a
  constructor; \<open>ErrExternal\<close> is an error that comes from a library or a contract call.
\<close>

datatype error =
    ErrAccountNotFound
  | ErrTokenNotMapped
  | ErrInvalidAmount
  | ErrInsufficientBalance
  | ErrSenderNoSuchToken
  | ErrInvalidNonce (required: int) (got: int)
  | ErrCorruptDb
  | ErrKeyTooLong
  | ErrBadProofSize
  | ErrInvalidProofSize
  | ErrCommitAfterDiscard
  | ErrCommitTwice
  | ErrIteratorInvalid
  | ErrUnknownTransitionType int
  | ErrInvalidTransitionType
  | ErrInvalidToken
  | ErrNonExistentBlock
  | ErrBlockNotFound
  | ErrTxFailed string
  | ErrNotFound
  | ErrNilClient
  | ErrTxDropped
  | ErrWrap string error
  | ErrExternal string

datatype panic = IndexOutOfRange | SliceBoundsOutOfRange | MakeSliceLen | NilDereference | TypeAssertion

datatype 'a outcome = Ok (the_ok: 'a) | Err error | Panic panic

definition is_Ok :: "'a outcome \<Rightarrow> bool" where
  "is_Ok r = (case r of Ok _ \<Rightarrow> True | _ \<Rightarrow> False)"

definition is_Panic :: "'a outcome \<Rightarrow> bool" where
  "is_Panic r = (case r of Panic _ \<Rightarrow> True | _ \<Rightarrow> False)"

lemma is_Ok_simps [simp]: "is_Ok (Ok x)" "\<not> is_Ok (Err e)" "\<not> is_Ok (Panic p)"
  by (simp_all add: is_Ok_def)

lemma is_Panic_simps [simp]: "\<not> is_Panic (Ok x)" "\<not> is_Panic (Err e)" "is_Panic (Panic p)"
  by (simp_all add: is_Panic_def)

lemma is_Ok_iff: "is_Ok r \<longleftrightarrow> (\<exists>x. r = Ok x)"
  by (cases r) simp_all

section \<open>Sequencing\<close>

text \<open>
  \<open>bindO m k\<close> runs \<open>k\<close> on the value of \<open>m\<close> and passes an error or a panic through;
  \<open>bindS\<close> does the same for a call that also returns a new state. The state reached
  before the failure is kept: an early return does not undo earlier writes.
\<close>

definition bindO :: "'a outcome \<Rightarrow> ('a \<Rightarrow> 'b outcome) \<Rightarrow> 'b outcome" where
  "bindO m k = (case m of Ok x \<Rightarrow> k x | Err e \<Rightarrow> Err e | Panic p \<Rightarrow> Panic p)"

definition bindS :: "'a outcome \<times> 's \<Rightarrow> ('a \<Rightarrow> 's \<Rightarrow> 'b outcome \<times> 't) \<Rightarrow> ('s \<Rightarrow> 't) \<Rightarrow> 'b outcome \<times> 't" where
  "bindS m k c = (case m of
      (Ok x, s) \<Rightarrow> k x s
    | (Err e, s) \<Rightarrow> (Err e, c s)
    | (Panic p, s) \<Rightarrow> (Panic p, c s))"

text \<open>
  The last argument of \<open>bindS\<close> puts the state of the inner call (a database, say) back
  into the caller's state on the early-return path; \<open>thenS\<close> is the common case where the
  two states have one type.
\<close>

abbreviation thenS :: "'a outcome \<times> 's \<Rightarrow> ('a \<Rightarrow> 's \<Rightarrow> 'b outcome \<times> 's) \<Rightarrow> 'b outcome \<times> 's" where
  "thenS m k \<equiv> bindS m k (\<lambda>s. s)"

lemma bindO_simps [simp]:
  "bindO (Ok x) k = k x" "bindO (Err e) k = Err e" "bindO (Panic p) k = Panic p"
  by (simp_all add: bindO_def)

lemma bindS_simps [simp]:
  "bindS (Ok x, s) k c = k x s"
  "bindS (Err e, s) k c = (Err e, c s)"
  "bindS (Panic p, s) k c = (Panic p, c s)"
  by (simp_all add: bindS_def)

lemma bindO_cong [fundef_cong]:
  "m = m' \<Longrightarrow> (\<And>x. m' = Ok x \<Longrightarrow> k x = k' x) \<Longrightarrow> bindO m k = bindO m' k'"
  by (cases m') simp_all

lemma bindO_eq_Ok: "bindO m k = Ok y \<longleftrightarrow> (\<exists>x. m = Ok x \<and> k x = Ok y)"
  by (cases m) simp_all

lemma bindO_OkE:
  assumes "bindO m k = Ok y"
  obtains x where "m = Ok x" and "k x = Ok y"
  using assms by (auto simp: bindO_eq_Ok)

lemma bindS_eq_Ok:
  "bindS m k c = (Ok y, s') \<longleftrightarrow> (\<exists>x s. m = (Ok x, s) \<and> k x s = (Ok y, s'))"
  by (cases m; cases "fst m") auto

lemma bindS_OkE:
  assumes "bindS m k c = (Ok y, s')"
  obtains x s where "m = (Ok x, s)" and "k x s = (Ok y, s')"
  using assms by (auto simp: bindS_eq_Ok)

section \<open>Checked list access\<close>

text \<open>
  A Go index expression panics outside the slice, and so does an assignment to an element.
\<close>

definition idx :: "'a list \<Rightarrow> nat \<Rightarrow> 'a outcome" where
  "idx xs i = (if i < length xs then Ok (xs ! i) else Panic IndexOutOfRange)"

definition setIdx :: "'a list \<Rightarrow> nat \<Rightarrow> 'a \<Rightarrow> 'a list outcome" where
  "setIdx xs i v = (if i < length xs then Ok (xs[i := v]) else Panic IndexOutOfRange)"

lemma idx_Ok [simp]: "i < length xs \<Longrightarrow> idx xs i = Ok (xs ! i)"
  by (simp add: idx_def)

lemma idx_Panic [simp]: "length xs \<le> i \<Longrightarrow> idx xs i = Panic IndexOutOfRange"
  by (simp add: idx_def)

lemma setIdx_Ok [simp]: "i < length xs \<Longrightarrow> setIdx xs i v = Ok (xs[i := v])"
  by (simp add: setIdx_def)

lemma setIdx_Panic [simp]: "length xs \<le> i \<Longrightarrow> setIdx xs i v = Panic IndexOutOfRange"
  by (simp add: setIdx_def)

lemma idx_eq_Ok: "idx xs i = Ok x \<longleftrightarrow> i < length xs \<and> xs ! i = x"
  by (simp add: idx_def)

text \<open>A loop that appends \<open>f x\<close> for every element and stops at the first failure.\<close>

fun mapO :: "('a \<Rightarrow> 'b outcome) \<Rightarrow> 'a list \<Rightarrow> 'b list outcome" where
  "mapO f [] = Ok []"
| "mapO f (x # xs) = bindO (f x) (\<lambda>y. bindO (mapO f xs) (\<lambda>ys. Ok (y # ys)))"

lemma mapO_cong [fundef_cong]:
  "xs = ys \<Longrightarrow> (\<And>x. x \<in> set ys \<Longrightarrow> f x = g x) \<Longrightarrow> mapO f xs = mapO g ys"
  by (induction ys arbitrary: xs) auto

lemma mapO_all_Ok: "(\<And>x. x \<in> set xs \<Longrightarrow> f x = Ok (g x)) \<Longrightarrow> mapO f xs = Ok (map g xs)"
  by (induction xs) auto

lemma mapO_eq_Ok: "mapO f xs = Ok ys \<longleftrightarrow> list_all2 (\<lambda>x y. f x = Ok y) xs ys"
  by (induction xs arbitrary: ys) (auto simp: bindO_eq_Ok list_all2_Cons1)

lemma sum_list_update_int:
  "i < length xs \<Longrightarrow> sum_list (xs[i := v]) = sum_list xs + v - (xs ! i :: int)"
  by (induction xs arbitrary: i) (auto split: nat.splits)

end
