(* ===== verification/Go_Bytes.thy ===== *)
theory Go_Bytes
  imports Prelude "HOL-Library.Word" "HOL-Library.List_Lexorder"
begin

text \<open>
  Byte slices and the parts of Go's \<^verbatim>\<open>math/big\<close> and \<^verbatim>\<open>bytes\<close> packages
  that the code calls: big-endian conversion (\<^verbatim>\<open>SetBytes\<close>, \<^verbatim>\<open>Bytes\<close>),
  truncation to 64 bits (\<^verbatim>\<open>Uint64\<close>), \<^verbatim>\<open>copy\<close> into an array of fixed length,
  and \<^verbatim>\<open>bytes.Compare\<close>, which is the lexicographic order of \<open>List_Lexorder\<close>.
\<close>

type_synonym byte = "8 word"
type_synonym bytes = "byte list"
type_synonym u64 = "64 word"

section \<open>Big-endian integers\<close>

text \<open>\<^verbatim>\<open>new(big.Int).SetBytes(bs)\<close>.\<close>

definition setBytes :: "bytes \<Rightarrow> nat" where
  "setBytes bs = foldl (\<lambda>a b. 256 * a + unat b) 0 bs"

text \<open>\<^verbatim>\<open>x.Bytes()\<close>: the absolute value, without leading zero bytes.\<close>

fun natBytes :: "nat \<Rightarrow> bytes" where
  "natBytes n = (if n = 0 then [] else natBytes (n div 256) @ [word_of_nat (n mod 256)])"

declare natBytes.simps [simp del]

definition bigBytes :: "int \<Rightarrow> bytes" where
  "bigBytes x = natBytes (nat \<bar>x\<bar>)"

text \<open>
  \<^verbatim>\<open>x.Uint64()\<close> is the low 64 bits, and \<^verbatim>\<open>int(u)\<close> reads a
  \<^verbatim>\<open>uint64\<close> as two's complement.
\<close>

definition bigUint64 :: "int \<Rightarrow> u64" where
  "bigUint64 x = word_of_int \<bar>x\<bar>"

definition goInt :: "u64 \<Rightarrow> int" where
  "goInt u = sint u"

lemma goInt_small:
  assumes "unat u < 2 ^ 63"
  shows "goInt u = int (unat u)"
proof -
  have "uint u < 2 ^ 63" using assms by (metis of_nat_less_iff of_nat_numeral of_nat_power of_nat_unat)
  then have "signed_take_bit 63 (uint u) = uint u"
    using order_trans [OF _ uint_ge_0 [of u], of "- (2 ^ 63)"] by (intro signed_take_bit_int_eq_self) simp_all
  then show ?thesis by (simp add: goInt_def sint_uint)
qed

lemma setBytes_Nil [simp]: "setBytes [] = 0"
  by (simp add: setBytes_def)

lemma setBytes_snoc [simp]: "setBytes (bs @ [b]) = 256 * setBytes bs + unat b"
  by (simp add: setBytes_def)

lemma setBytes_replicate0 [simp]: "setBytes (replicate n 0 @ bs) = setBytes bs"
proof (induction bs rule: rev_induct)
  case Nil
  have "setBytes (replicate n 0) = 0"
    by (induction n) (simp_all add: setBytes_def flip: replicate_append_same)
  then show ?case by simp
next
  case (snoc b bs)
  then show ?case by (simp flip: append_assoc)
qed

lemma setBytes_bound: "setBytes bs < 256 ^ length bs"
proof (induction bs rule: rev_induct)
  case Nil
  then show ?case by simp
next
  case (snoc b bs)
  have "unat b < 2 ^ 8" by (rule order_less_le_trans [OF unsigned_less]) simp
  then have "unat b < 256" by simp
  with snoc have "256 * setBytes bs + unat b < 256 * 256 ^ length bs" by linarith
  then show ?case by simp
qed

lemma setBytes_natBytes [simp]: "setBytes (natBytes n) = n"
proof (induction n rule: natBytes.induct)
  case (1 n)
  show ?case
  proof (cases "n = 0")
    case True
    then show ?thesis by (simp add: natBytes.simps)
  next
    case False
    have "unat (word_of_nat (n mod 256) :: byte) = n mod 256"
      by (simp add: unat_of_nat)
    with 1 False show ?thesis by (simp add: natBytes.simps [of n])
  qed
qed

lemma natBytes_inject [simp]: "natBytes m = natBytes n \<longleftrightarrow> m = n"
  by (metis setBytes_natBytes)

lemma setBytes_bigBytes [simp]: "setBytes (bigBytes x) = nat \<bar>x\<bar>"
  by (simp add: bigBytes_def)

lemma bigBytes_inject: "0 \<le> x \<Longrightarrow> 0 \<le> y \<Longrightarrow> bigBytes x = bigBytes y \<longleftrightarrow> x = y"
  by (auto simp: bigBytes_def)

lemma bigBytes_int [simp]: "bigBytes (int n) = natBytes n"
  by (simp add: bigBytes_def)

lemma length_natBytes: "n < 256 ^ k \<Longrightarrow> length (natBytes n) \<le> k"
proof (induction k arbitrary: n)
  case 0
  then show ?case by (simp add: natBytes.simps)
next
  case (Suc k)
  show ?case
  proof (cases "n = 0")
    case True
    then show ?thesis by (simp add: natBytes.simps)
  next
    case False
    have "n div 256 < 256 ^ k"
      using Suc.prems by (simp add: less_mult_imp_div_less mult.commute)
    from Suc.IH [OF this] False show ?thesis by (simp add: natBytes.simps [of n])
  qed
qed

lemma natBytes_0 [simp]: "natBytes 0 = []"
  by (simp add: natBytes.simps)

section \<open>Copying into arrays of fixed length\<close>

text \<open>
  \<^verbatim>\<open>a := make([]byte, n); copy(a, src)\<close>: as many bytes as fit, the rest zero.
\<close>

definition copyN :: "nat \<Rightarrow> bytes \<Rightarrow> bytes" where
  "copyN n src = take n src @ replicate (n - length src) 0"

lemma length_copyN [simp]: "length (copyN n src) = n"
  by (simp add: copyN_def)

lemma copyN_same [simp]: "length src = n \<Longrightarrow> copyN n src = src"
  by (simp add: copyN_def)

end
