(* ===== verification/DB_Interface.thy ===== *)
theory DB_Interface
  imports Go_Bytes
begin

text \<open>
  The storage interface of \<^verbatim>\<open>db/types.go\<close> and the key helpers of
  \<^verbatim>\<open>db/utils.go\<close>. A Go interface value is a table of methods, so \<open>DB\<close> is a
  record of functions over the type of the database's state; every component above takes
  such a table. The locale \<open>kv_db\<close> states what a provider promises, in terms of
  the finite map the database stands for.
\<close>

section \<open>Namespaces and keys\<close>

definition NamespaceStateTrie :: bytes where "NamespaceStateTrie = [115, 116]"
definition NamespaceRollupBlockTrie :: bytes where "NamespaceRollupBlockTrie = [114, 98, 116]"
definition NamespaceTokenAddressToTokenIndex :: bytes where
  "NamespaceTokenAddressToTokenIndex = [116, 97, 116, 116, 105]"
definition NamespaceTokenIndexToTokenAddress :: bytes where
  "NamespaceTokenIndexToTokenAddress = [116, 105, 116, 116, 97]"
definition NamespaceMainchainTokenAddressToSidechainTokenAddress :: bytes where
  "NamespaceMainchainTokenAddressToSidechainTokenAddress = [109, 116, 97, 116, 115, 116]"
definition NamespaceAccountAddressToKey :: bytes where
  "NamespaceAccountAddressToKey = [97, 97, 116, 107]"
definition NamespaceLastKey :: bytes where "NamespaceLastKey = [108, 107]"
definition NamespaceKeyToAccountInfo :: bytes where
  "NamespaceKeyToAccountInfo = [107, 116, 97, 105]"
definition NamespaceRollupBlockNumber :: bytes where "NamespaceRollupBlockNumber = [114, 98, 110]"
definition EmptyKey :: bytes where "EmptyKey = []"
definition Separator :: bytes where "Separator = [124]"

lemmas namespace_defs =
  NamespaceStateTrie_def NamespaceRollupBlockTrie_def NamespaceTokenAddressToTokenIndex_def
  NamespaceTokenIndexToTokenAddress_def NamespaceMainchainTokenAddressToSidechainTokenAddress_def
  NamespaceAccountAddressToKey_def NamespaceLastKey_def NamespaceKeyToAccountInfo_def
  NamespaceRollupBlockNumber_def

definition namespaces :: "bytes list" where
  "namespaces = [NamespaceStateTrie, NamespaceRollupBlockTrie, NamespaceTokenAddressToTokenIndex,
     NamespaceTokenIndexToTokenAddress, NamespaceMainchainTokenAddressToSidechainTokenAddress,
     NamespaceAccountAddressToKey, NamespaceLastKey, NamespaceKeyToAccountInfo,
     NamespaceRollupBlockNumber]"

text \<open>A slice that may be \<^verbatim>\<open>nil\<close> is an option; the contents of \<^verbatim>\<open>nil\<close> are empty.\<close>

definition contents :: "bytes option \<Rightarrow> bytes" where
  "contents s = (case s of None \<Rightarrow> [] | Some bs \<Rightarrow> bs)"

definition PrependNamespace :: "bytes option \<Rightarrow> bytes option \<Rightarrow> bytes option" where
  "PrependNamespace namespace key =
     (case namespace of
        Some ns \<Rightarrow> Some ((ns @ Separator) @ contents key)
      | None \<Rightarrow> key)"

definition ConvNilToBytes :: "bytes option \<Rightarrow> bytes" where
  "ConvNilToBytes byteArray = (case byteArray of None \<Rightarrow> [] | Some bs \<Rightarrow> bs)"

text \<open>The key under which every database operation stores: both helpers in sequence.\<close>

definition dbKey :: "bytes option \<Rightarrow> bytes \<Rightarrow> bytes" where
  "dbKey namespace key = ConvNilToBytes (PrependNamespace namespace (Some key))"

lemma dbKey_None [simp]: "dbKey None k = k"
  by (simp add: dbKey_def PrependNamespace_def ConvNilToBytes_def)

lemma dbKey_Some: "dbKey (Some ns) k = ns @ 124 # k"
  by (simp add: dbKey_def PrependNamespace_def ConvNilToBytes_def contents_def Separator_def)

lemma append_sep_inject:
  "x \<notin> set as \<Longrightarrow> x \<notin> set bs \<Longrightarrow> as @ x # cs = bs @ x # ds \<longleftrightarrow> as = bs \<and> cs = ds"
proof (induction as arbitrary: bs)
  case Nil
  then show ?case by (cases bs) auto
next
  case (Cons a as)
  then show ?case by (cases bs) auto
qed

lemma dbKey_inject:
  assumes "124 \<notin> set ns" and "124 \<notin> set ns'"
  shows "dbKey (Some ns) k = dbKey (Some ns') k' \<longleftrightarrow> ns = ns' \<and> k = k'"
  using assms by (simp add: dbKey_Some append_sep_inject)

lemma namespaces_no_separator [simp]: "ns \<in> set namespaces \<Longrightarrow> 124 \<notin> set ns"
  by (auto simp: namespaces_def namespace_defs)

lemma namespaces_distinct: "distinct namespaces"
  by (simp add: namespaces_def namespace_defs)

text \<open>The keys of any two namespaces of the code are different; the simplifier decides this.\<close>

lemma dbKey_namespace_inject:
  "ns \<in> set namespaces \<Longrightarrow> ns' \<in> set namespaces \<Longrightarrow>
    dbKey (Some ns) k = dbKey (Some ns') k' \<longleftrightarrow> ns = ns' \<and> k = k'"
  by (simp add: dbKey_inject)

lemma namespaces_mem [simp]:
  "NamespaceStateTrie \<in> set namespaces" "NamespaceRollupBlockTrie \<in> set namespaces"
  "NamespaceTokenAddressToTokenIndex \<in> set namespaces"
  "NamespaceTokenIndexToTokenAddress \<in> set namespaces"
  "NamespaceMainchainTokenAddressToSidechainTokenAddress \<in> set namespaces"
  "NamespaceAccountAddressToKey \<in> set namespaces" "NamespaceLastKey \<in> set namespaces"
  "NamespaceKeyToAccountInfo \<in> set namespaces" "NamespaceRollupBlockNumber \<in> set namespaces"
  by (simp_all add: namespaces_def)

lemma namespace_neqs:
  "NamespaceStateTrie \<noteq> NamespaceAccountAddressToKey"
  "NamespaceStateTrie \<noteq> NamespaceLastKey"
  "NamespaceStateTrie \<noteq> NamespaceKeyToAccountInfo"
  "NamespaceStateTrie \<noteq> NamespaceTokenAddressToTokenIndex"
  "NamespaceStateTrie \<noteq> NamespaceTokenIndexToTokenAddress"
  "NamespaceStateTrie \<noteq> NamespaceRollupBlockNumber"
  "NamespaceAccountAddressToKey \<noteq> NamespaceLastKey"
  "NamespaceAccountAddressToKey \<noteq> NamespaceKeyToAccountInfo"
  "NamespaceAccountAddressToKey \<noteq> NamespaceTokenAddressToTokenIndex"
  "NamespaceAccountAddressToKey \<noteq> NamespaceTokenIndexToTokenAddress"
  "NamespaceAccountAddressToKey \<noteq> NamespaceRollupBlockNumber"
  "NamespaceLastKey \<noteq> NamespaceKeyToAccountInfo"
  "NamespaceLastKey \<noteq> NamespaceTokenAddressToTokenIndex"
  "NamespaceLastKey \<noteq> NamespaceTokenIndexToTokenAddress"
  "NamespaceLastKey \<noteq> NamespaceRollupBlockNumber"
  "NamespaceKeyToAccountInfo \<noteq> NamespaceTokenAddressToTokenIndex"
  "NamespaceKeyToAccountInfo \<noteq> NamespaceTokenIndexToTokenAddress"
  "NamespaceKeyToAccountInfo \<noteq> NamespaceRollupBlockNumber"
  "NamespaceTokenAddressToTokenIndex \<noteq> NamespaceTokenIndexToTokenAddress"
  "NamespaceTokenAddressToTokenIndex \<noteq> NamespaceRollupBlockNumber"
  "NamespaceTokenIndexToTokenAddress \<noteq> NamespaceRollupBlockNumber"
  by (simp_all add: namespace_defs)

lemmas key_neqs [simp] = dbKey_namespace_inject namespace_neqs namespace_neqs [symmetric]

section \<open>The interface\<close>

text \<open>One queued operation of a transaction or a bulk (\<^verbatim>\<open>txOp\<close> of memorydb).\<close>

record txOp =
  isSet :: bool
  op_key :: bytes
  op_value :: bytes

text \<open>
  The methods of \<^verbatim>\<open>DB\<close>, \<^verbatim>\<open>Transaction\<close> and \<^verbatim>\<open>Bulk\<close>. \<open>'d\<close> is the state
  of the database, \<open>'t\<close> and \<open>'b\<close> the states of a transaction and a bulk. \<^verbatim>\<open>Get\<close>
  returns \<open>Some\<close> the value, or \<open>None\<close> when its second result is false.
\<close>

record ('d, 't, 'b) DB =
  db_Type :: string
  db_Set :: "'d \<Rightarrow> bytes option \<Rightarrow> bytes \<Rightarrow> bytes \<Rightarrow> unit outcome \<times> 'd"
  db_Delete :: "'d \<Rightarrow> bytes option \<Rightarrow> bytes \<Rightarrow> unit outcome \<times> 'd"
  db_Get :: "'d \<Rightarrow> bytes option \<Rightarrow> bytes \<Rightarrow> bytes option outcome"
  db_Exist :: "'d \<Rightarrow> bytes option \<Rightarrow> bytes \<Rightarrow> bool outcome"
  db_NewTx :: "'d \<Rightarrow> 't"
  db_NewBulk :: "'d \<Rightarrow> 'b"
  tx_Set :: "'t \<Rightarrow> bytes option \<Rightarrow> bytes \<Rightarrow> bytes \<Rightarrow> unit outcome \<times> 't"
  tx_Delete :: "'t \<Rightarrow> bytes option \<Rightarrow> bytes \<Rightarrow> unit outcome \<times> 't"
  tx_Commit :: "'t \<Rightarrow> 'd \<Rightarrow> unit outcome \<times> 't \<times> 'd"
  tx_Discard :: "'t \<Rightarrow> 't"
  bulk_Set :: "'b \<Rightarrow> bytes option \<Rightarrow> bytes \<Rightarrow> bytes \<Rightarrow> unit outcome \<times> 'b"
  bulk_Delete :: "'b \<Rightarrow> bytes option \<Rightarrow> bytes \<Rightarrow> unit outcome \<times> 'b"
  bulk_Flush :: "'b \<Rightarrow> 'd \<Rightarrow> unit outcome \<times> 'b \<times> 'd"
  bulk_DiscardLast :: "'b \<Rightarrow> 'b"

section \<open>The contract of a provider\<close>

text \<open>The meaning of a queue of operations on the map the database stands for.\<close>

definition applyOp :: "txOp \<Rightarrow> (bytes \<rightharpoonup> bytes) \<Rightarrow> (bytes \<rightharpoonup> bytes)" where
  "applyOp op m = (if isSet op then m(op_key op \<mapsto> op_value op) else m(op_key op := None))"

definition applyOps :: "txOp list \<Rightarrow> (bytes \<rightharpoonup> bytes) \<Rightarrow> (bytes \<rightharpoonup> bytes)" where
  "applyOps ops m = fold applyOp ops m"

abbreviation setOp :: "bytes option \<Rightarrow> bytes \<Rightarrow> bytes \<Rightarrow> txOp" where
  "setOp ns k v \<equiv> \<lparr>isSet = True, op_key = dbKey ns k, op_value = v\<rparr>"

abbreviation delOp :: "bytes option \<Rightarrow> bytes \<Rightarrow> txOp" where
  "delOp ns k \<equiv> \<lparr>isSet = False, op_key = dbKey ns k, op_value = []\<rparr>"

lemma applyOp_set [simp]: "applyOp \<lparr>isSet = True, op_key = k, op_value = v\<rparr> m = m(k \<mapsto> v)"
  by (simp add: applyOp_def)

lemma applyOp_del [simp]: "applyOp \<lparr>isSet = False, op_key = k, op_value = v\<rparr> m = m(k := None)"
  by (simp add: applyOp_def)

lemma applyOps_simps [simp]:
  "applyOps [] m = m" "applyOps (op # ops) m = applyOps ops (applyOp op m)"
  "applyOps (ops @ ops') m = applyOps ops' (applyOps ops m)"
  by (simp_all add: applyOps_def)

locale kv_db =
  fixes I :: "('d, 't, 'b) DB"
    and view :: "'d \<Rightarrow> bytes \<rightharpoonup> bytes"
    and txOps :: "'t \<Rightarrow> txOp list"
    and txOpen :: "'t \<Rightarrow> bool"
    and bulkOps :: "'b \<Rightarrow> txOp list"
    and bulkOpen :: "'b \<Rightarrow> bool"
  assumes Get: "db_Get I d ns k = Ok (view d (dbKey ns k))"
    and Exist: "db_Exist I d ns k = Ok (view d (dbKey ns k) \<noteq> None)"
    and Set: "\<exists>d'. db_Set I d ns k v = (Ok (), d') \<and> view d' = (view d)(dbKey ns k \<mapsto> v)"
    and Delete: "\<exists>d'. db_Delete I d ns k = (Ok (), d') \<and> view d' = (view d)(dbKey ns k := None)"
    and NewTx: "txOps (db_NewTx I d) = [] \<and> txOpen (db_NewTx I d)"
    and TxSet: "\<exists>t'. tx_Set I t ns k v = (Ok (), t') \<and> txOps t' = txOps t @ [setOp ns k v] \<and> txOpen t' = txOpen t"
    and TxDelete: "\<exists>t'. tx_Delete I t ns k = (Ok (), t') \<and> txOps t' = txOps t @ [delOp ns k] \<and> txOpen t' = txOpen t"
    and Commit: "txOpen t \<Longrightarrow>
      \<exists>t' d'. tx_Commit I t d = (Ok (), t', d') \<and> view d' = applyOps (txOps t) (view d) \<and> \<not> txOpen t'"
    and CommitClosed: "\<not> txOpen t \<Longrightarrow> \<exists>e. tx_Commit I t d = (Err e, t, d)"
    and NewBulk: "bulkOps (db_NewBulk I d) = [] \<and> bulkOpen (db_NewBulk I d)"
    and BulkSet: "\<exists>b'. bulk_Set I b ns k v = (Ok (), b') \<and> bulkOps b' = bulkOps b @ [setOp ns k v] \<and> bulkOpen b' = bulkOpen b"
    and BulkDelete: "\<exists>b'. bulk_Delete I b ns k = (Ok (), b') \<and> bulkOps b' = bulkOps b @ [delOp ns k] \<and> bulkOpen b' = bulkOpen b"
    and Flush: "bulkOpen b \<Longrightarrow>
      \<exists>b' d'. bulk_Flush I b d = (Ok (), b', d') \<and> view d' = applyOps (bulkOps b) (view d)"
begin

lemma SetE:
  obtains d' where "db_Set I d ns k v = (Ok (), d')" and "view d' = (view d)(dbKey ns k \<mapsto> v)"
  using Set by blast

lemma get_after_set:
  assumes "db_Set I d ns k v = (Ok (), d')"
  shows "db_Get I d' ns' k' = (if dbKey ns' k' = dbKey ns k then Ok (Some v) else db_Get I d ns' k')"
proof -
  have "view d' = (view d)(dbKey ns k \<mapsto> v)" using Set [of d ns k v] assms by auto
  then show ?thesis by (simp add: Get)
qed

text \<open>A write in one namespace is invisible in every other namespace of the code.\<close>

lemma get_other_namespace:
  assumes "db_Set I d (Some ns) k v = (Ok (), d')"
    and "ns \<in> set namespaces" and "ns' \<in> set namespaces" and "ns \<noteq> ns'"
  shows "db_Get I d' (Some ns') k' = db_Get I d (Some ns') k'"
  using assms by (simp add: get_after_set)

end

end
