(* ===== verification/Merkle_Spec.thy ===== *)
theory Merkle_Spec
  imports Go_Bytes
begin

text \<open>
  What a sparse Merkle tree promises, apart from how it is stored: a perfect binary tree
  with byte strings at its leaves, addressed by a list of directions (\<open>True\<close> is left),
  its hash, and the list of sibling hashes along a path. \<open>stored\<close> says that a
  node store holds every node of a tree under its hash. The detailed model refines these
  functions.
\<close>

section \<open>Hashers\<close>

text \<open>
  \<^verbatim>\<open>hash.Hash\<close> is third-party code: its \<^verbatim>\<open>Size()\<close> and the result of
  \<^verbatim>\<open>Write(x); Sum(nil); Reset()\<close>, the only way the code uses it. \<open>hasher_ok\<close> is
  the documented fact that \<^verbatim>\<open>Sum\<close> appends \<^verbatim>\<open>Size()\<close> bytes.
\<close>

record hasher =
  Size :: nat
  Digest :: "bytes \<Rightarrow> bytes"

definition hasher_ok :: "hasher \<Rightarrow> bool" where
  "hasher_ok H \<longleftrightarrow> 0 < Size H \<and> (\<forall>x. length (Digest H x) = Size H)"

lemma hasher_okD [simp]: "hasher_ok H \<Longrightarrow> length (Digest H x) = Size H"
  by (simp add: hasher_ok_def)

section \<open>Trees\<close>

datatype mtree = MLeaf bytes | MNode mtree mtree

fun perfect :: "nat \<Rightarrow> mtree \<Rightarrow> bool" where
  "perfect 0 (MLeaf v) = True"
| "perfect (Suc n) (MNode l r) = (perfect n l \<and> perfect n r)"
| "perfect _ _ = False"

fun mfull :: "nat \<Rightarrow> bytes \<Rightarrow> mtree" where
  "mfull 0 v = MLeaf v"
| "mfull (Suc n) v = MNode (mfull n v) (mfull n v)"

fun mhash :: "hasher \<Rightarrow> mtree \<Rightarrow> bytes" where
  "mhash H (MLeaf v) = Digest H v"
| "mhash H (MNode l r) = Digest H (mhash H l @ mhash H r)"

fun mlookup :: "mtree \<Rightarrow> bool list \<Rightarrow> bytes" where
  "mlookup (MLeaf v) bs = v"
| "mlookup (MNode l r) (b # bs) = (if b then mlookup l bs else mlookup r bs)"
| "mlookup (MNode l r) [] = []"

fun mupdate :: "mtree \<Rightarrow> bool list \<Rightarrow> bytes \<Rightarrow> mtree" where
  "mupdate (MLeaf u) bs v = MLeaf v"
| "mupdate (MNode l r) (b # bs) v =
     (if b then MNode (mupdate l bs v) r else MNode l (mupdate r bs v))"
| "mupdate (MNode l r) [] v = MNode l r"

text \<open>The hashes of the siblings along a path, from the root down.\<close>

fun msides :: "hasher \<Rightarrow> mtree \<Rightarrow> bool list \<Rightarrow> bytes list" where
  "msides H (MNode l r) (b # bs) =
     (if b then mhash H r # msides H l bs else mhash H l # msides H r bs)"
| "msides H _ _ = []"

text \<open>The root hash a leaf value and its sibling hashes determine.\<close>

definition joinHash :: "bool \<Rightarrow> bytes \<Rightarrow> bytes \<Rightarrow> bytes" where
  "joinHash b cur side = (if b then cur @ side else side @ cur)"

fun foldPath :: "hasher \<Rightarrow> bool list \<Rightarrow> bytes list \<Rightarrow> bytes \<Rightarrow> bytes" where
  "foldPath H (b # bs) (s # ss) v = Digest H (joinHash b (foldPath H bs ss v) s)"
| "foldPath H _ _ v = Digest H v"

text \<open>The nodes an update writes, leaf first, each under its hash.\<close>

fun pathWrites :: "hasher \<Rightarrow> bool list \<Rightarrow> bytes list \<Rightarrow> bytes \<Rightarrow> (bytes \<times> bytes) list" where
  "pathWrites H (b # bs) (s # ss) v =
     (let x = joinHash b (foldPath H bs ss v) s in pathWrites H bs ss v @ [(Digest H x, x)])"
| "pathWrites H _ _ v = [(Digest H v, v)]"

lemma perfect_mfull [simp]: "perfect n (mfull n v)"
  by (induction n) simp_all

lemma perfect_mupdate: "perfect n t \<Longrightarrow> perfect n (mupdate t bs v)"
  by (induction n t arbitrary: bs rule: perfect.induct) (case_tac bs; simp)+

lemma perfect_SucE:
  assumes "perfect (Suc n) t"
  obtains l r where "t = MNode l r" "perfect n l" "perfect n r"
  using assms by (cases t) auto

lemma perfect_0E:
  assumes "perfect 0 t"
  obtains v where "t = MLeaf v"
  using assms by (cases t) auto

lemma length_msides: "perfect n t \<Longrightarrow> length bs = n \<Longrightarrow> length (msides H t bs) = n"
  by (induction bs arbitrary: n t) (auto elim!: perfect_0E perfect_SucE)

lemma length_mhash [simp]: "hasher_ok H \<Longrightarrow> length (mhash H t) = Size H"
  by (cases t) simp_all

lemma length_foldPath [simp]: "hasher_ok H \<Longrightarrow> length (foldPath H bs ss v) = Size H"
  by (induction H bs ss v rule: foldPath.induct) simp_all

lemma msides_length_Size: "hasher_ok H \<Longrightarrow> s \<in> set (msides H t bs) \<Longrightarrow> length s = Size H"
  by (induction H t bs rule: msides.induct) (auto split: if_splits)

lemma foldPath_msides:
  "perfect n t \<Longrightarrow> length bs = n \<Longrightarrow> foldPath H bs (msides H t bs) v = mhash H (mupdate t bs v)"
  by (induction bs arbitrary: n t) (auto elim!: perfect_0E perfect_SucE simp: joinHash_def)

lemma mupdate_mlookup: "perfect n t \<Longrightarrow> length bs = n \<Longrightarrow> mupdate t bs (mlookup t bs) = t"
  by (induction bs arbitrary: n t) (auto elim!: perfect_0E perfect_SucE)

lemma foldPath_mlookup:
  "perfect n t \<Longrightarrow> length bs = n \<Longrightarrow> foldPath H bs (msides H t bs) (mlookup t bs) = mhash H t"
  by (simp add: foldPath_msides mupdate_mlookup)

lemma mlookup_mupdate:
  "perfect n t \<Longrightarrow> length bs = n \<Longrightarrow> length cs = n \<Longrightarrow>
    mlookup (mupdate t bs v) cs = (if cs = bs then v else mlookup t cs)"
proof (induction bs arbitrary: n t cs)
  case Nil
  then show ?case by (auto elim!: perfect_0E)
next
  case (Cons b bs)
  then obtain l r m c cs' where "n = Suc m" "t = MNode l r" "perfect m l" "perfect m r"
    "cs = c # cs'" "length cs' = m"
    by (cases cs) (auto elim!: perfect_SucE)
  with Cons show ?case by auto
qed

lemma mlookup_mfull: "length bs = n \<Longrightarrow> mlookup (mfull n v) bs = v"
  by (induction bs arbitrary: n) auto

section \<open>Trees in a node store\<close>

fun stored :: "(bytes \<rightharpoonup> bytes) \<Rightarrow> hasher \<Rightarrow> mtree \<Rightarrow> bool" where
  "stored N H (MLeaf v) = (N (Digest H v) = Some v)"
| "stored N H (MNode l r) =
     (N (mhash H (MNode l r)) = Some (mhash H l @ mhash H r) \<and> stored N H l \<and> stored N H r)"

text \<open>
  The store after a list of writes, and the condition that the writes collide neither with
  a different node already stored nor with each other. It is the only assumption on the
  hash function beyond the length of its output, and it concerns the finitely many
  strings of one update.
\<close>

definition storeAll :: "(bytes \<times> bytes) list \<Rightarrow> (bytes \<rightharpoonup> bytes) \<Rightarrow> (bytes \<rightharpoonup> bytes)" where
  "storeAll W N = fold (\<lambda>(h, v) m. m(h \<mapsto> v)) W N"

definition noCollision :: "(bytes \<rightharpoonup> bytes) \<Rightarrow> (bytes \<times> bytes) list \<Rightarrow> bool" where
  "noCollision N W \<longleftrightarrow>
     list_all (\<lambda>(h, v). (case N h of None \<Rightarrow> True | Some u \<Rightarrow> u = v) \<and>
                 list_all (\<lambda>(h', v'). h = h' \<longrightarrow> v = v') W) W"

lemma storeAll_simps [simp]:
  "storeAll [] N = N" "storeAll ((h, v) # W) N = storeAll W (N(h \<mapsto> v))"
  "storeAll (W @ W') N = storeAll W' (storeAll W N)"
  by (simp_all add: storeAll_def)

lemma noCollisionD:
  assumes "noCollision N W" and "(h, v) \<in> set W"
  shows "N h = None \<or> N h = Some v" and "(h, v') \<in> set W \<Longrightarrow> v' = v"
proof -
  have *: "(case N h of None \<Rightarrow> True | Some u \<Rightarrow> u = v) \<and> (\<forall>(h', v')\<in>set W. h = h' \<longrightarrow> v = v')"
    using bspec [OF assms(1) [unfolded noCollision_def list_all_iff] assms(2)] by simp
  from * show "N h = None \<or> N h = Some v" by (cases "N h") simp_all
  from * show "v' = v" if "(h, v') \<in> set W" using that by blast
qed

lemma storeAll_notin: "h \<notin> fst ` set W \<Longrightarrow> storeAll W N h = N h"
  by (induction W arbitrary: N) auto

lemma storeAll_in:
  "(h, v) \<in> set W \<Longrightarrow> (\<And>v'. (h, v') \<in> set W \<Longrightarrow> v' = v) \<Longrightarrow> storeAll W N h = Some v"
proof (induction W arbitrary: N rule: rev_induct)
  case Nil
  then show ?case by simp
next
  case (snoc w W)
  obtain h' v' where w: "w = (h', v')" by force
  show ?case
  proof (cases "h' = h")
    case True
    with snoc.prems(2) [of v'] w show ?thesis by simp
  next
    case False
    have mem: "(h, v) \<in> set W" using snoc.prems(1) w False by simp
    have "storeAll W N h = Some v"
      by (rule snoc.IH [OF mem]) (rule snoc.prems(2), simp)
    with False w show ?thesis by simp
  qed
qed

lemma storeAll_written:
  "noCollision N W \<Longrightarrow> (h, v) \<in> set W \<Longrightarrow> storeAll W N h = Some v"
  by (rule storeAll_in) (auto dest: noCollisionD)

text \<open>Without collisions a store only grows, so every tree it holds stays.\<close>

lemma storeAll_mono:
  assumes "noCollision N W" and "N h = Some v"
  shows "storeAll W N h = Some v"
proof (cases "h \<in> fst ` set W")
  case True
  then obtain u where "(h, u) \<in> set W" by force
  with assms show ?thesis using noCollisionD(1) [of N W h u] storeAll_written by auto
next
  case False
  with assms show ?thesis by (simp add: storeAll_notin)
qed

lemma stored_mono:
  "stored N H t \<Longrightarrow> (\<And>h v. N h = Some v \<Longrightarrow> N' h = Some v) \<Longrightarrow> stored N' H t"
  by (induction t) auto

lemma stored_storeAll: "noCollision N W \<Longrightarrow> stored N H t \<Longrightarrow> stored (storeAll W N) H t"
  by (erule stored_mono) (rule storeAll_mono)

lemma stored_mupdate_aux:
  assumes "perfect n t" and "length bs = n" and "stored N' H t"
    and "\<And>h x. (h, x) \<in> set (pathWrites H bs (msides H t bs) v) \<Longrightarrow> N' h = Some x"
  shows "stored N' H (mupdate t bs v)"
  using assms
proof (induction bs arbitrary: n t)
  case Nil
  then show ?case by (auto elim!: perfect_0E)
next
  case (Cons b bs)
  then obtain l r m where t: "n = Suc m" "t = MNode l r" "perfect m l" "perfect m r" "length bs = m"
    by (auto elim!: perfect_SucE)
  have "(h, x) \<in> set (pathWrites H (b # bs) (msides H t (b # bs)) v)"
    if "(h, x) \<in> set (pathWrites H bs (msides H (if b then l else r) bs) v)" for h x
    using that t by (auto simp: Let_def)
  then have sub: "stored N' H (mupdate (if b then l else r) bs v)"
    using Cons.prems t by (intro Cons.IH [of m]) auto
  have "foldPath H bs (msides H (if b then l else r) bs) v = mhash H (mupdate (if b then l else r) bs v)"
    using t by (intro foldPath_msides) auto
  with Cons.prems(4) [of "mhash H (mupdate t (b # bs) v)"] Cons.prems(3) t sub show ?case
    by (auto simp: Let_def joinHash_def split: if_splits)
qed

text \<open>An update of a stored tree, seen as writes to the store, stores the updated tree.\<close>

lemma stored_mupdate:
  assumes "perfect n t" and "length bs = n" and "stored N H t"
    and "noCollision N (pathWrites H bs (msides H t bs) v)"
  shows "stored (storeAll (pathWrites H bs (msides H t bs) v) N) H (mupdate t bs v)"
  using assms by (intro stored_mupdate_aux [of n]) (auto intro: stored_storeAll storeAll_written)

section \<open>Binding\<close>

text \<open>
  Two leaf values with the same root along the same path: either they are equal, or two
  of the strings hashed on the way are different and have one hash. The strings are
  listed, so the collision is an explicit one.
\<close>

definition pathStrings :: "hasher \<Rightarrow> bool list \<Rightarrow> bytes list \<Rightarrow> bytes \<Rightarrow> bytes list" where
  "pathStrings H bs ss v = map snd (pathWrites H bs ss v)"

definition collisionAmong :: "hasher \<Rightarrow> bytes list \<Rightarrow> bytes list \<Rightarrow> bool" where
  "collisionAmong H xs ys = list_ex (\<lambda>x. list_ex (\<lambda>y. x \<noteq> y \<and> Digest H x = Digest H y) ys) xs"

lemma collisionAmongI:
  "x \<in> set xs \<Longrightarrow> y \<in> set ys \<Longrightarrow> x \<noteq> y \<Longrightarrow> Digest H x = Digest H y \<Longrightarrow> collisionAmong H xs ys"
  by (auto simp: collisionAmong_def list_ex_iff)

lemma collisionAmong_mono:
  "collisionAmong H xs ys \<Longrightarrow> set xs \<subseteq> set xs' \<Longrightarrow> set ys \<subseteq> set ys' \<Longrightarrow> collisionAmong H xs' ys'"
  by (auto simp: collisionAmong_def list_ex_iff)

lemma pathStrings_Cons:
  "pathStrings H (b # bs) (s # ss) v =
    pathStrings H bs ss v @ [joinHash b (foldPath H bs ss v) s]"
  by (simp add: pathStrings_def Let_def)

lemma pathStrings_Nil [simp]: "pathStrings H [] ss v = [v]" "pathStrings H bs [] v = [v]"
  by (simp_all add: pathStrings_def)

lemma joinHash_inject:
  assumes "length c = length c'" "length s = length s'" "joinHash b c s = joinHash b c' s'"
  shows "c = c' \<and> s = s'"
  using assms by (auto simp: joinHash_def split: if_splits)

lemma foldPath_binding:
  assumes "hasher_ok H" and "length ss = length bs" and "length ss' = length bs"
    and "\<forall>s\<in>set ss. length s = Size H" and "\<forall>s\<in>set ss'. length s = Size H"
    and "foldPath H bs ss v = foldPath H bs ss' v'"
  shows "v = v' \<and> ss = ss' \<or> collisionAmong H (pathStrings H bs ss v) (pathStrings H bs ss' v')"
  using assms(2-)
proof (induction bs arbitrary: ss ss')
  case Nil
  then show ?case by (auto intro: collisionAmongI [of v _ v'])
next
  case (Cons b bs)
  then obtain s us s' us' where ss: "ss = s # us" "ss' = s' # us'"
    by (cases ss; cases ss') auto
  let ?x = "joinHash b (foldPath H bs us v) s" and ?y = "joinHash b (foldPath H bs us' v') s'"
  show ?case
  proof (cases "?x = ?y")
    case True
    then have eq: "foldPath H bs us v = foldPath H bs us' v' \<and> s = s'"
      using joinHash_inject [OF _ _ True] Cons.prems ss \<open>hasher_ok H\<close> by simp
    have "v = v' \<and> us = us' \<or> collisionAmong H (pathStrings H bs us v) (pathStrings H bs us' v')"
      using Cons.prems ss eq by (intro Cons.IH) auto
    then show ?thesis
    proof
      assume "collisionAmong H (pathStrings H bs us v) (pathStrings H bs us' v')"
      then have "collisionAmong H (pathStrings H (b # bs) ss v) (pathStrings H (b # bs) ss' v')"
        by (rule collisionAmong_mono) (auto simp: ss pathStrings_Cons)
      then show ?thesis ..
    qed (use eq ss in simp)
  next
    case False
    moreover have "Digest H ?x = Digest H ?y" using Cons.prems ss by simp
    ultimately show ?thesis
      using ss by (auto simp: pathStrings_Cons intro: collisionAmongI [of ?x _ ?y])
  qed
qed

end
