(* ===== verification/Sparse_Merkle.thy ===== *)
theory Sparse_Merkle
  imports DB_Interface Merkle_Spec
begin

text \<open>
  \<^verbatim>\<open>smt/smt.go\<close>, \<^verbatim>\<open>smt/defaultnodes.go\<close> and the \<^verbatim>\<open>isLeft\<close> of
  \<^verbatim>\<open>smt/utils.go\<close>: the sparse Merkle tree whose nodes live in a database under
  their hashes. The struct's \<^verbatim>\<open>db\<close> and \<^verbatim>\<open>hasher\<close> pointers are the arguments \<open>I\<close>
  (the methods), \<open>d\<close> (the state) and \<open>H\<close>; the other fields are the record \<open>smt\<close>.
  In \<open>kv_db\<close> the operations are shown to refine the abstract trees of Merkle_Spec.
\<close>

section \<open>Helpers of the Go code\<close>

definition DefaultValue :: bytes where "DefaultValue = replicate 32 0"
definition initMarker :: bytes where "initMarker = [105, 110, 105, 116]"

record smt =
  dbNamespace :: "bytes option"
  root :: bytes
  height :: int
  hashKey :: bool

text \<open>\<^verbatim>\<open>defaultNodes\<close>: filled from the last entry up, each from the one below.\<close>

fun defaultLoop :: "hasher \<Rightarrow> nat \<Rightarrow> bytes list \<Rightarrow> bytes list" where
  "defaultLoop H 0 nodes = nodes"
| "defaultLoop H (Suc i) nodes = defaultLoop H i (Digest H (hd nodes @ hd nodes) # nodes)"

definition defaultNodes :: "hasher \<Rightarrow> bytes list" where
  "defaultNodes H =
     (let depth = Size H * 8
      in if depth = 0 then [] else defaultLoop H (depth - 1) [Digest H DefaultValue])"

definition defaultNode :: "hasher \<Rightarrow> int \<Rightarrow> bytes outcome" where
  "defaultNode H i = (if i < 0 then Panic IndexOutOfRange else idx (defaultNodes H) (nat i))"

text \<open>
  \<^verbatim>\<open>isLeft\<close>: the shift count \<^verbatim>\<open>uint(height)-2\<close> is unsigned and wraps; \<^verbatim>\<open>Lsh\<close> and
  \<^verbatim>\<open>Rsh\<close> are on unbounded integers.
\<close>

definition isLeft :: "bytes \<Rightarrow> nat \<Rightarrow> int \<Rightarrow> bool" where
  "isLeft key depth h =
     (drop_bit (nat ((h - 2) mod 2 ^ 64)) (push_bit depth (setBytes key)) mod 2 = 0)"

definition sliceFrom :: "bytes \<Rightarrow> nat \<Rightarrow> bytes outcome" where
  "sliceFrom v k = (if k \<le> length v then Ok (drop k v) else Panic SliceBoundsOutOfRange)"

definition sliceTo :: "bytes \<Rightarrow> nat \<Rightarrow> bytes outcome" where
  "sliceTo v k = (if k \<le> length v then Ok (take k v) else Panic SliceBoundsOutOfRange)"

definition padKey :: "hasher \<Rightarrow> bytes \<Rightarrow> bytes outcome" where
  "padKey H key =
     (if length key > Size H then Err ErrKeyTooLong
      else Ok (replicate (Size H - length key) 0 @ key))"

definition getPath :: "hasher \<Rightarrow> smt \<Rightarrow> bytes \<Rightarrow> bytes outcome" where
  "getPath H s key = (if hashKey s then Ok (Digest H key) else padKey H key)"

text \<open>\<^verbatim>\<open>reverseProof\<close> swaps in place; the loop index runs down from the middle.\<close>

fun reverseLoop :: "nat \<Rightarrow> 'a list \<Rightarrow> 'a list" where
  "reverseLoop 0 pf = pf"
| "reverseLoop (Suc i) pf =
     (let opp = length pf - 1 - i
      in reverseLoop i (pf[i := pf ! opp, opp := pf ! i]))"

definition reverseProof :: "'a list \<Rightarrow> 'a list" where
  "reverseProof pf = reverseLoop (length pf div 2) pf"

section \<open>Creating a tree\<close>

fun initLoop :: "('d, 't, 'b) DB \<Rightarrow> hasher \<Rightarrow> bytes option \<Rightarrow> int list \<Rightarrow> 'b \<Rightarrow> unit outcome \<times> 'b" where
  "initLoop I H ns [] b = (Ok (), b)"
| "initLoop I H ns (i # is) b =
     thenS (defaultNode H i, b) (\<lambda>node b.
     thenS (defaultNode H (i + 1), b) (\<lambda>child b.
     thenS (bulk_Set I b ns node (child @ child)) (\<lambda>_ b.
     initLoop I H ns is b)))"

definition initTree :: "('d, 't, 'b) DB \<Rightarrow> hasher \<Rightarrow> 'd \<Rightarrow> bytes option \<Rightarrow> int \<Rightarrow> unit outcome \<times> 'd" where
  "initTree I H d ns h =
     (let hasherSizeBits = int (Size H * 8); b = db_NewBulk I d
      in bindS (initLoop I H ns [hasherSizeBits - h .. hasherSizeBits - 2] b) (\<lambda>_ b.
         bindS (defaultNode H (hasherSizeBits - 1), b) (\<lambda>node b.
         bindS (bulk_Set I b ns node DefaultValue) (\<lambda>_ b.
         let b = snd (bulk_Set I b ns initMarker []);
             (r, _, d') = bulk_Flush I b d
         in (r, d')) (\<lambda>_. d)) (\<lambda>_. d)) (\<lambda>_. d))"

definition SetRoot :: "smt \<Rightarrow> bytes \<Rightarrow> smt" where
  "SetRoot s r = s\<lparr>root := r\<rparr>"

definition NewSparseMerkleTree ::
  "('d, 't, 'b) DB \<Rightarrow> hasher \<Rightarrow> 'd \<Rightarrow> bytes option \<Rightarrow> bytes option \<Rightarrow> int \<Rightarrow> bool \<Rightarrow> smt outcome \<times> 'd" where
  "NewSparseMerkleTree I H d ns rt h hk =
     (let s = \<lparr>dbNamespace = ns, root = [], height = h, hashKey = hk\<rparr>;
          hasherSizeBits = int (Size H * 8)
      in thenS (db_Get I d ns initMarker, d) (\<lambda>marker d.
         thenS (if marker = None then initTree I H d ns h else (Ok (), d)) (\<lambda>_ d.
         case rt of
           Some r \<Rightarrow> (Ok (SetRoot s r), d)
         | None \<Rightarrow> thenS (defaultNode H (hasherSizeBits - h), d) (\<lambda>rootHash d. (Ok (SetRoot s rootHash), d)))))"

section \<open>Reading\<close>

text \<open>
  The descent loop: \<open>n\<close> levels remain, \<open>i\<close> is the loop variable. A node that is shorter than
  a digest panics here, as slicing beyond the length does; Go would still slice up to the
  capacity, of which a slice here has none beyond its length. Nodes on an inner level are two
  digests long.
\<close>

fun getLoop :: "('d, 't, 'b) DB \<Rightarrow> hasher \<Rightarrow> 'd \<Rightarrow> bytes option \<Rightarrow> bytes \<Rightarrow> int \<Rightarrow> nat \<Rightarrow> nat \<Rightarrow> bytes \<Rightarrow> bytes outcome" where
  "getLoop I H d ns path h i 0 currentHash = Ok currentHash"
| "getLoop I H d ns path h i (Suc n) currentHash =
     bindO (db_Get I d ns currentHash) (\<lambda>r. case r of
       None \<Rightarrow> Err ErrCorruptDb
     | Some currentValue \<Rightarrow>
         bindO (if \<not> isLeft path i h then sliceFrom currentValue (Size H)
                else sliceTo currentValue (Size H)) (\<lambda>next.
         getLoop I H d ns path h (Suc i) n next))"

definition GetForRoot :: "('d, 't, 'b) DB \<Rightarrow> hasher \<Rightarrow> smt \<Rightarrow> 'd \<Rightarrow> bytes \<Rightarrow> bytes \<Rightarrow> bytes outcome" where
  "GetForRoot I H s d key rt =
     bindO (getPath H s key) (\<lambda>path.
     bindO (getLoop I H d (dbNamespace s) path (height s) 0 (nat (height s - 1)) rt) (\<lambda>currentHash.
     bindO (db_Get I d (dbNamespace s) currentHash) (\<lambda>r. case r of
       None \<Rightarrow> Err ErrCorruptDb
     | Some value \<Rightarrow> Ok value)))"

definition Get :: "('d, 't, 'b) DB \<Rightarrow> hasher \<Rightarrow> smt \<Rightarrow> 'd \<Rightarrow> bytes \<Rightarrow> bytes outcome" where
  "Get I H s d key = GetForRoot I H s d key (root s)"

fun sideLoop :: "('d, 't, 'b) DB \<Rightarrow> hasher \<Rightarrow> 'd \<Rightarrow> bytes option \<Rightarrow> bytes \<Rightarrow> int \<Rightarrow> nat \<Rightarrow> nat \<Rightarrow> bytes \<Rightarrow> bytes list outcome" where
  "sideLoop I H d ns path h i 0 currentValue = Ok []"
| "sideLoop I H d ns path h i (Suc n) currentValue =
     bindO (if \<not> isLeft path i h then sliceTo currentValue (Size H)
            else sliceFrom currentValue (Size H)) (\<lambda>sideNode.
     bindO (if \<not> isLeft path i h then sliceFrom currentValue (Size H)
            else sliceTo currentValue (Size H)) (\<lambda>next.
     bindO (db_Get I d ns next) (\<lambda>r. case r of
       None \<Rightarrow> Err ErrCorruptDb
     | Some nextValue \<Rightarrow>
         bindO (sideLoop I H d ns path h (Suc i) n nextValue) (\<lambda>rest. Ok (sideNode # rest)))))"

definition sideNodesForRoot :: "('d, 't, 'b) DB \<Rightarrow> hasher \<Rightarrow> smt \<Rightarrow> 'd \<Rightarrow> bytes \<Rightarrow> bytes \<Rightarrow> bytes list outcome" where
  "sideNodesForRoot I H s d path rt =
     bindO (db_Get I d (dbNamespace s) rt) (\<lambda>r. case r of
       None \<Rightarrow> Err ErrCorruptDb
     | Some currentValue \<Rightarrow>
         if height s < 1 then Panic MakeSliceLen
         else sideLoop I H d (dbNamespace s) path (height s) 0 (nat (height s - 1)) currentValue)"

definition ProveForRoot :: "('d, 't, 'b) DB \<Rightarrow> hasher \<Rightarrow> smt \<Rightarrow> 'd \<Rightarrow> bytes \<Rightarrow> bytes \<Rightarrow> bytes list outcome" where
  "ProveForRoot I H s d key rt =
     bindO (getPath H s key) (\<lambda>path.
     bindO (sideNodesForRoot I H s d path rt) (\<lambda>sideNodes. Ok (reverseProof sideNodes)))"

definition Prove :: "('d, 't, 'b) DB \<Rightarrow> hasher \<Rightarrow> smt \<Rightarrow> 'd \<Rightarrow> bytes \<Rightarrow> bytes list outcome" where
  "Prove I H s d key = ProveForRoot I H s d key (root s)"

section \<open>Writing\<close>

text \<open>
  \<^verbatim>\<open>updateWithSideNodes\<close> climbs from \<^verbatim>\<open>i = height-2\<close> to 0; the second argument of the
  loop is \<open>i + 1\<close>.
\<close>

fun updateLoop :: "('d, 't, 'b) DB \<Rightarrow> hasher \<Rightarrow> bytes option \<Rightarrow> bytes \<Rightarrow> int \<Rightarrow> bytes list \<Rightarrow> nat \<Rightarrow> bytes \<Rightarrow> 'b \<Rightarrow> bytes outcome \<times> 'b" where
  "updateLoop I H ns path h sideNodes 0 currentValue b = (Ok currentValue, b)"
| "updateLoop I H ns path h sideNodes (Suc i) currentValue b =
     thenS (idx sideNodes i, b) (\<lambda>side b.
     let sideNode = copyN (Size H) side;
         newValue = (if \<not> isLeft path i h then sideNode @ currentValue else currentValue @ sideNode);
         currentHash = Digest H newValue
     in thenS (bulk_Set I b ns currentHash newValue) (\<lambda>_ b.
        updateLoop I H ns path h sideNodes i currentHash b))"

definition updateWithSideNodes ::
  "('d, 't, 'b) DB \<Rightarrow> hasher \<Rightarrow> smt \<Rightarrow> 'd \<Rightarrow> bytes \<Rightarrow> bytes \<Rightarrow> bytes list \<Rightarrow> bytes outcome \<times> 'd" where
  "updateWithSideNodes I H s d path value sideNodes =
     (let b = db_NewBulk I d; currentHash = Digest H value
      in bindS (bulk_Set I b (dbNamespace s) currentHash value) (\<lambda>_ b.
         bindS (updateLoop I H (dbNamespace s) path (height s) sideNodes
                  (nat (height s - 1)) currentHash b) (\<lambda>newRoot b.
         bindS (bulk_Flush I b d) (\<lambda>_ bd. (Ok newRoot, snd bd)) snd) (\<lambda>_. d)) (\<lambda>_. d))"

definition UpdateForRoot ::
  "('d, 't, 'b) DB \<Rightarrow> hasher \<Rightarrow> smt \<Rightarrow> 'd \<Rightarrow> bytes \<Rightarrow> bytes \<Rightarrow> bytes \<Rightarrow> bytes outcome \<times> 'd" where
  "UpdateForRoot I H s d key value rt =
     thenS (getPath H s key, d) (\<lambda>path d.
     thenS (sideNodesForRoot I H s d path rt, d) (\<lambda>sideNodes d.
     updateWithSideNodes I H s d path value sideNodes))"

definition Update ::
  "('d, 't, 'b) DB \<Rightarrow> hasher \<Rightarrow> smt \<Rightarrow> 'd \<Rightarrow> bytes \<Rightarrow> bytes \<Rightarrow> bytes outcome \<times> smt \<times> 'd" where
  "Update I H s d key value =
     (case UpdateForRoot I H s d key value (root s) of
        (Ok newRoot, d') \<Rightarrow> (Ok newRoot, SetRoot s newRoot, d')
      | (r, d') \<Rightarrow> (r, s, d'))"

section \<open>Facts about the helpers\<close>

lemma isLeft_bit:
  assumes "Suc (Suc depth) \<le> nat h" and "h < 2 ^ 64"
  shows "isLeft key depth h \<longleftrightarrow> \<not> bit (setBytes key) (nat h - 2 - depth)"
proof -
  have "(h - 2) mod 2 ^ 64 = h - 2" using assms by (intro mod_pos_pos_trivial) auto
  then have s: "nat ((h - 2) mod 2 ^ 64) = nat h - 2" using assms by (simp only:)
  have "isLeft key depth h \<longleftrightarrow> \<not> bit (drop_bit (nat h - 2) (push_bit depth (setBytes key))) 0"
    unfolding isLeft_def s by (simp add: bit_0 even_iff_mod_2_eq_zero)
  also have "\<dots> \<longleftrightarrow> \<not> bit (setBytes key) (nat h - 2 - depth)"
    using assms by (auto simp: bit_drop_bit_eq bit_push_bit_iff)
  finally show ?thesis .
qed

text \<open>The directions the loops take, from the root to the leaf.\<close>

definition pathBits :: "bytes \<Rightarrow> int \<Rightarrow> bool list" where
  "pathBits path h = map (\<lambda>i. isLeft path i h) [0..<nat (h - 1)]"

lemma length_pathBits [simp]: "length (pathBits path h) = nat (h - 1)"
  by (simp add: pathBits_def)

lemma pathBits_inject:
  assumes "setBytes p < 2 ^ nat (h - 1)" and "setBytes q < 2 ^ nat (h - 1)" and "h < 2 ^ 64"
    and "pathBits p h = pathBits q h"
  shows "setBytes p = setBytes q"
proof (rule bit_eqI)
  fix n
  show "bit (setBytes p) n = bit (setBytes q) n"
  proof (cases "n < nat (h - 1)")
    case True
    let ?i = "nat h - 2 - n"
    have i: "?i < nat (h - 1)" "nat h - 2 - ?i = n" "Suc (Suc ?i) \<le> nat h" using True by auto
    from assms(4) i(1) have "isLeft p ?i h = isLeft q ?i h"
      by (simp add: pathBits_def)
    with isLeft_bit [OF i(3) assms(3)] i(2) show ?thesis by simp
  next
    case False
    then have "2 ^ nat (h - 1) \<le> (2::nat) ^ n" by (intro power_increasing) auto
    with assms have "setBytes p < 2 ^ n" "setBytes q < 2 ^ n" by linarith+
    then show ?thesis by (simp add: bit_iff_odd)
  qed
qed

lemma setBytes_padKey: "padKey H key = Ok path \<Longrightarrow> setBytes path = setBytes key"
  by (auto simp: padKey_def split: if_splits)

lemma length_defaultLoop: "length (defaultLoop H n nodes) = n + length nodes"
  by (induction H n nodes rule: defaultLoop.induct) simp_all

lemma length_defaultNodes: "length (defaultNodes H) = Size H * 8"
  by (simp add: defaultNodes_def length_defaultLoop Let_def)

lemma defaultLoop_mfull:
  "nodes \<noteq> [] \<Longrightarrow> (\<And>j. j < length nodes \<Longrightarrow> nodes ! j = mhash H (mfull (length nodes - 1 - j) DefaultValue)) \<Longrightarrow>
    k < n + length nodes \<Longrightarrow>
    defaultLoop H n nodes ! k = mhash H (mfull (n + length nodes - 1 - k) DefaultValue)"
proof (induction H n nodes rule: defaultLoop.induct)
  case (2 H i nodes)
  let ?nodes = "Digest H (hd nodes @ hd nodes) # nodes"
  have hd: "hd nodes = mhash H (mfull (length nodes - 1) DefaultValue)"
    using 2 by (simp add: hd_conv_nth)
  obtain m where m: "length nodes = Suc m" using 2 by (cases nodes) auto
  have "?nodes ! j = mhash H (mfull (length ?nodes - 1 - j) DefaultValue)" if "j < length ?nodes" for j
    using that hd 2(3) [of "j - 1"] m by (cases j) auto
  with 2 show ?case by simp
qed simp

text \<open>Entry \<open>i\<close> of \<open>defaultNodes\<close> is the root of the all-default tree of that depth.\<close>

lemma defaultNode_mfull:
  assumes "0 \<le> i" and "i < int (Size H * 8)"
  shows "defaultNode H i = Ok (mhash H (mfull (Size H * 8 - 1 - nat i) DefaultValue))"
proof -
  have "nat i < Size H * 8" using assms by linarith
  then show ?thesis
    using assms defaultLoop_mfull [of "[Digest H DefaultValue]" H "nat i" "Size H * 8 - 1"]
    by (simp add: defaultNode_def length_defaultNodes) (simp add: defaultNodes_def Let_def)
qed

lemma defaultNode_out_of_range:
  "i < 0 \<or> int (Size H * 8) \<le> i \<Longrightarrow> defaultNode H i = Panic IndexOutOfRange"
  by (auto simp: defaultNode_def length_defaultNodes)

lemma reverseLoop_nth:
  "i \<le> length p div 2 \<Longrightarrow> length (reverseLoop i p) = length p \<and>
    (\<forall>k<length p. reverseLoop i p ! k =
       (if k < i \<or> length p - 1 - k < i then p ! (length p - 1 - k) else p ! k))"
proof (induction i p rule: reverseLoop.induct)
  case (2 i p)
  define opp where "opp = length p - 1 - i"
  let ?q = "p[i := p ! opp, opp := p ! i]"
  have i: "i < opp" "opp < length p" using 2(2) by (auto simp: opp_def)
  have IH: "\<forall>k<length p. reverseLoop i ?q ! k =
       (if k < i \<or> length p - 1 - k < i then ?q ! (length p - 1 - k) else ?q ! k)"
    and len: "length (reverseLoop i ?q) = length p"
    using 2(1) [OF opp_def] 2(2) by auto
  have "reverseLoop i ?q ! k =
       (if k < Suc i \<or> length p - 1 - k < Suc i then p ! (length p - 1 - k) else p ! k)"
    if k: "k < length p" for k
  proof -
    consider "k < i" | "length p - 1 - k < i" | "k = i" | "k = opp" | "i < k" "k < opp"
      using i k by (auto simp: opp_def) linarith
    then show ?thesis
      using IH [rule_format, OF k] i k by cases (auto simp: nth_list_update opp_def)
  qed
  with len show ?case by (simp add: opp_def Let_def)
qed simp

lemma reverseProof_rev: "reverseProof p = rev p"
proof (rule nth_equalityI)
  show "length (reverseProof p) = length (rev p)"
    using reverseLoop_nth [of "length p div 2" p] by (simp add: reverseProof_def)
next
  fix k
  assume "k < length (reverseProof p)"
  then have k: "k < length p" using reverseLoop_nth [of "length p div 2" p] by (simp add: reverseProof_def)
  then have *: "reverseProof p ! k =
      (if k < length p div 2 \<or> length p - 1 - k < length p div 2 then p ! (length p - 1 - k) else p ! k)"
    using reverseLoop_nth [of "length p div 2" p] by (simp add: reverseProof_def)
  have "length p - 1 - k = k" if "\<not> (k < length p div 2 \<or> length p - 1 - k < length p div 2)"
    using that k by linarith
  with * k show "reverseProof p ! k = rev p ! k" by (auto simp: rev_nth)
qed

end
