(* ===== verification/Store_Contract.thy ===== *)
theory Store_Contract
  imports DB_Interface
begin

text \<open>
  The contract of a provider with limits: badger refuses empty keys and transactions beyond
  its size, so its laws hold for the acceptable queues of operations only. A provider of
  \<open>kv_db\<close> accepts every queue. On top of it, client programs over the methods of
  \<^verbatim>\<open>db/types.go\<close>, and what they do to the map a database stands for.
\<close>

section \<open>Client programs\<close>

datatype dbWrite = WriteSet "bytes option" bytes bytes | WriteDelete "bytes option" bytes

fun writeOp :: "dbWrite \<Rightarrow> txOp" where
  "writeOp (WriteSet ns k v) = setOp ns k v"
| "writeOp (WriteDelete ns k) = delOp ns k"

text \<open>A write of its own, a transaction that is committed, a bulk that is flushed.\<close>

datatype dbCall = CallWrite dbWrite | CallTx "dbWrite list" | CallBulk "dbWrite list"

fun txWrite :: "('d, 't, 'b) DB \<Rightarrow> dbWrite \<Rightarrow> 't \<Rightarrow> unit outcome \<times> 't" where
  "txWrite I (WriteSet ns k v) t = tx_Set I t ns k v"
| "txWrite I (WriteDelete ns k) t = tx_Delete I t ns k"

fun queueTx :: "('d, 't, 'b) DB \<Rightarrow> dbWrite list \<Rightarrow> 't \<Rightarrow> unit outcome \<times> 't" where
  "queueTx I [] t = (Ok (), t)"
| "queueTx I (w # ws) t = thenS (txWrite I w t) (\<lambda>_ t. queueTx I ws t)"

fun bulkWrite :: "('d, 't, 'b) DB \<Rightarrow> dbWrite \<Rightarrow> 'b \<Rightarrow> unit outcome \<times> 'b" where
  "bulkWrite I (WriteSet ns k v) b = bulk_Set I b ns k v"
| "bulkWrite I (WriteDelete ns k) b = bulk_Delete I b ns k"

fun queueBulk :: "('d, 't, 'b) DB \<Rightarrow> dbWrite list \<Rightarrow> 'b \<Rightarrow> unit outcome \<times> 'b" where
  "queueBulk I [] b = (Ok (), b)"
| "queueBulk I (w # ws) b = thenS (bulkWrite I w b) (\<lambda>_ b. queueBulk I ws b)"

fun runCall :: "('d, 't, 'b) DB \<Rightarrow> dbCall \<Rightarrow> 'd \<Rightarrow> unit outcome \<times> 'd" where
  "runCall I (CallWrite (WriteSet ns k v)) d = db_Set I d ns k v"
| "runCall I (CallWrite (WriteDelete ns k)) d = db_Delete I d ns k"
| "runCall I (CallTx ws) d = bindS (queueTx I ws (db_NewTx I d)) (\<lambda>_ t.
     case tx_Commit I t d of (r, _, d') \<Rightarrow> (r, d')) (\<lambda>_. d)"
| "runCall I (CallBulk ws) d = bindS (queueBulk I ws (db_NewBulk I d)) (\<lambda>_ b.
     case bulk_Flush I b d of (r, _, d') \<Rightarrow> (r, d')) (\<lambda>_. d)"

fun runCalls :: "('d, 't, 'b) DB \<Rightarrow> dbCall list \<Rightarrow> 'd \<Rightarrow> unit outcome \<times> 'd" where
  "runCalls I [] d = (Ok (), d)"
| "runCalls I (c # cs) d = thenS (runCall I c d) (\<lambda>_ d. runCalls I cs d)"

fun callOps :: "dbCall \<Rightarrow> txOp list" where
  "callOps (CallWrite w) = [writeOp w]"
| "callOps (CallTx ws) = map writeOp ws"
| "callOps (CallBulk ws) = map writeOp ws"

section \<open>The contract\<close>

text \<open>\<open>okOps\<close> are the queues a provider accepts; with a queue it accepts its beginnings.\<close>

locale kv_store =
  fixes I :: "('d, 't, 'b) DB"
    and view :: "'d \<Rightarrow> bytes \<rightharpoonup> bytes"
    and txOps :: "'t \<Rightarrow> txOp list"
    and txOpen :: "'t \<Rightarrow> bool"
    and bulkOps :: "'b \<Rightarrow> txOp list"
    and bulkOpen :: "'b \<Rightarrow> bool"
    and okOps :: "txOp list \<Rightarrow> bool"
  assumes Prefix: "okOps (ops @ ops') \<Longrightarrow> okOps ops"
    and Get: "dbKey ns k \<noteq> [] \<Longrightarrow> db_Get I d ns k = Ok (view d (dbKey ns k))"
    and Exist: "dbKey ns k \<noteq> [] \<Longrightarrow> db_Exist I d ns k = Ok (view d (dbKey ns k) \<noteq> None)"
    and Set: "okOps [setOp ns k v] \<Longrightarrow>
      \<exists>d'. db_Set I d ns k v = (Ok (), d') \<and> view d' = (view d)(dbKey ns k \<mapsto> v)"
    and Delete: "okOps [delOp ns k] \<Longrightarrow>
      \<exists>d'. db_Delete I d ns k = (Ok (), d') \<and> view d' = (view d)(dbKey ns k := None)"
    and NewTx: "txOps (db_NewTx I d) = [] \<and> txOpen (db_NewTx I d)"
    and TxSet: "txOpen t \<Longrightarrow> okOps (txOps t @ [setOp ns k v]) \<Longrightarrow>
      \<exists>t'. tx_Set I t ns k v = (Ok (), t') \<and> txOps t' = txOps t @ [setOp ns k v] \<and> txOpen t'"
    and TxDelete: "txOpen t \<Longrightarrow> okOps (txOps t @ [delOp ns k]) \<Longrightarrow>
      \<exists>t'. tx_Delete I t ns k = (Ok (), t') \<and> txOps t' = txOps t @ [delOp ns k] \<and> txOpen t'"
    and Commit: "txOpen t \<Longrightarrow>
      \<exists>t' d'. tx_Commit I t d = (Ok (), t', d') \<and> view d' = applyOps (txOps t) (view d)"
    and NewBulk: "bulkOps (db_NewBulk I d) = [] \<and> bulkOpen (db_NewBulk I d)"
    and BulkSet: "bulkOpen b \<Longrightarrow> okOps (bulkOps b @ [setOp ns k v]) \<Longrightarrow>
      \<exists>b'. bulk_Set I b ns k v = (Ok (), b') \<and> bulkOps b' = bulkOps b @ [setOp ns k v] \<and> bulkOpen b'"
    and BulkDelete: "bulkOpen b \<Longrightarrow> okOps (bulkOps b @ [delOp ns k]) \<Longrightarrow>
      \<exists>b'. bulk_Delete I b ns k = (Ok (), b') \<and> bulkOps b' = bulkOps b @ [delOp ns k] \<and> bulkOpen b'"
    and Flush: "bulkOpen b \<Longrightarrow>
      \<exists>b' d'. bulk_Flush I b d = (Ok (), b', d') \<and> view d' = applyOps (bulkOps b) (view d)"
begin

lemma okOps_step: "okOps (ops @ op # ops') \<Longrightarrow> okOps (ops @ [op])"
  by (rule Prefix [of "ops @ [op]" ops']) simp

lemma txWrite_ops:
  "txOpen t \<Longrightarrow> okOps (txOps t @ [writeOp w]) \<Longrightarrow>
    \<exists>t'. txWrite I w t = (Ok (), t') \<and> txOps t' = txOps t @ [writeOp w] \<and> txOpen t'"
  by (cases w) (simp_all add: TxSet TxDelete)

lemma queueTx_ops:
  "txOpen t \<Longrightarrow> okOps (txOps t @ map writeOp ws) \<Longrightarrow>
    \<exists>t'. queueTx I ws t = (Ok (), t') \<and> txOps t' = txOps t @ map writeOp ws \<and> txOpen t'"
proof (induction ws arbitrary: t)
  case (Cons w ws)
  obtain t' where t': "txWrite I w t = (Ok (), t')" "txOps t' = txOps t @ [writeOp w]" "txOpen t'"
    using txWrite_ops [of t w] Cons.prems okOps_step [of "txOps t" "writeOp w"] by auto
  then show ?case using Cons.IH [of t'] Cons.prems by simp
qed simp

lemma bulkWrite_ops:
  "bulkOpen b \<Longrightarrow> okOps (bulkOps b @ [writeOp w]) \<Longrightarrow>
    \<exists>b'. bulkWrite I w b = (Ok (), b') \<and> bulkOps b' = bulkOps b @ [writeOp w] \<and> bulkOpen b'"
  by (cases w) (simp_all add: BulkSet BulkDelete)

lemma queueBulk_ops:
  "bulkOpen b \<Longrightarrow> okOps (bulkOps b @ map writeOp ws) \<Longrightarrow>
    \<exists>b'. queueBulk I ws b = (Ok (), b') \<and> bulkOps b' = bulkOps b @ map writeOp ws \<and> bulkOpen b'"
proof (induction ws arbitrary: b)
  case (Cons w ws)
  obtain b' where b': "bulkWrite I w b = (Ok (), b')" "bulkOps b' = bulkOps b @ [writeOp w]" "bulkOpen b'"
    using bulkWrite_ops [of b w] Cons.prems okOps_step [of "bulkOps b" "writeOp w"] by auto
  then show ?case using Cons.IH [of b'] Cons.prems by simp
qed simp

lemma runCall_ops:
  assumes "okOps (callOps c)"
  shows "\<exists>d'. runCall I c d = (Ok (), d') \<and> view d' = applyOps (callOps c) (view d)"
proof (cases c)
  case (CallWrite w)
  with assms Set Delete show ?thesis by (cases w) simp_all
next
  case (CallTx ws)
  with assms obtain t where "queueTx I ws (db_NewTx I d) = (Ok (), t)" "txOps t = map writeOp ws" "txOpen t"
    using queueTx_ops [of "db_NewTx I d" ws] NewTx [of d] by auto
  with CallTx Commit [of t d] show ?thesis by auto
next
  case (CallBulk ws)
  with assms obtain b where "queueBulk I ws (db_NewBulk I d) = (Ok (), b)" "bulkOps b = map writeOp ws" "bulkOpen b"
    using queueBulk_ops [of "db_NewBulk I d" ws] NewBulk [of d] by auto
  with CallBulk Flush [of b d] show ?thesis by auto
qed

text \<open>A client program succeeds and does to the map what its queues say.\<close>

lemma runCalls_ops:
  "list_all (\<lambda>c. okOps (callOps c)) cs \<Longrightarrow>
    \<exists>d'. runCalls I cs d = (Ok (), d') \<and> view d' = applyOps (concat (map callOps cs)) (view d)"
proof (induction cs arbitrary: d)
  case (Cons c cs)
  obtain d' where "runCall I c d = (Ok (), d')" "view d' = applyOps (callOps c) (view d)"
    using runCall_ops [of c d] Cons.prems by auto
  with Cons.IH [of d'] Cons.prems show ?case by auto
qed simp

end

sublocale kv_db \<subseteq> store: kv_store I view txOps txOpen bulkOps bulkOpen "\<lambda>_. True"
proof (unfold_locales, goal_cases)
  case (7 t ns k v)
  with TxSet [of t ns k v] show ?case by auto
next
  case (8 t ns k)
  with TxDelete [of t ns k] show ?case by auto
next
  case (9 t d)
  with Commit [of t d] show ?case by blast
next
  case (11 b ns k v)
  with BulkSet [of b ns k v] show ?case by auto
next
  case (12 b ns k)
  with BulkDelete [of b ns k] show ?case by auto
qed (simp_all add: Get Exist Set Delete NewTx NewBulk Flush)

end
