(* ===== verification/Memory_DB.thy ===== *)
theory Memory_DB
  imports Store_Contract "HOL-Library.AList"
begin

text \<open>
  The in-memory provider of \<^verbatim>\<open>db/memorydb\<close>. The Go map is an association list that
  is updated in place (\<open>AList.update\<close>), so the model stays executable; the iteration order
  of a Go map is unspecified, and the iterator sorts what it collects. Each method holds
  the mutex for its whole body, so it is one atomic step here.
\<close>

record memdb =
  db :: "(bytes \<times> bytes) list"

definition NewDB :: memdb where
  "NewDB = \<lparr>db = []\<rparr>"

definition mem_Type :: string where
  "mem_Type = ''memorydb''"

definition mem_Set :: "memdb \<Rightarrow> bytes option \<Rightarrow> bytes \<Rightarrow> bytes \<Rightarrow> unit outcome \<times> memdb" where
  "mem_Set d namespace key value = (Ok (), d\<lparr>db := AList.update (dbKey namespace key) value (db d)\<rparr>)"

definition mem_Delete :: "memdb \<Rightarrow> bytes option \<Rightarrow> bytes \<Rightarrow> unit outcome \<times> memdb" where
  "mem_Delete d namespace key = (Ok (), d\<lparr>db := AList.delete (dbKey namespace key) (db d)\<rparr>)"

definition mem_Get :: "memdb \<Rightarrow> bytes option \<Rightarrow> bytes \<Rightarrow> bytes option outcome" where
  "mem_Get d namespace key = Ok (map_of (db d) (dbKey namespace key))"

definition mem_Exist :: "memdb \<Rightarrow> bytes option \<Rightarrow> bytes \<Rightarrow> bool outcome" where
  "mem_Exist d namespace key =
     Ok (case map_of (db d) (dbKey namespace key) of None \<Rightarrow> False | Some _ \<Rightarrow> True)"

section \<open>Transactions\<close>

record memtx =
  opList :: "txOp list"
  isDiscard :: bool
  isCommit :: bool

definition mem_NewTx :: "memdb \<Rightarrow> memtx" where
  "mem_NewTx d = \<lparr>opList = [], isDiscard = False, isCommit = False\<rparr>"

definition memtx_Set :: "memtx \<Rightarrow> bytes option \<Rightarrow> bytes \<Rightarrow> bytes \<Rightarrow> unit outcome \<times> memtx" where
  "memtx_Set t namespace key value =
     (Ok (), t\<lparr>opList := opList t @ [\<lparr>isSet = True, op_key = dbKey namespace key, op_value = value\<rparr>]\<rparr>)"

definition memtx_Delete :: "memtx \<Rightarrow> bytes option \<Rightarrow> bytes \<Rightarrow> unit outcome \<times> memtx" where
  "memtx_Delete t namespace key =
     (Ok (), t\<lparr>opList := opList t @ [\<lparr>isSet = False, op_key = dbKey namespace key, op_value = []\<rparr>]\<rparr>)"

text \<open>The loop over \<^verbatim>\<open>opList\<close> in \<^verbatim>\<open>Commit\<close> and \<^verbatim>\<open>Flush\<close>.\<close>

fun runOps :: "txOp list \<Rightarrow> (bytes \<times> bytes) list \<Rightarrow> (bytes \<times> bytes) list" where
  "runOps [] m = m"
| "runOps (op # ops) m =
     (if isSet op then runOps ops (AList.update (op_key op) (op_value op) m)
      else runOps ops (AList.delete (op_key op) m))"

definition memtx_Commit :: "memtx \<Rightarrow> memdb \<Rightarrow> unit outcome \<times> memtx \<times> memdb" where
  "memtx_Commit t d =
     (if isDiscard t then (Err ErrCommitAfterDiscard, t, d)
      else if isCommit t then (Err ErrCommitTwice, t, d)
      else (Ok (), t\<lparr>isCommit := True\<rparr>, d\<lparr>db := runOps (opList t) (db d)\<rparr>))"

definition memtx_Discard :: "memtx \<Rightarrow> memtx" where
  "memtx_Discard t = t\<lparr>isDiscard := True\<rparr>"

section \<open>Bulks\<close>

text \<open>A bulk has the fields and the methods of a transaction, in a type of its own.\<close>

record membulk =
  bulk_opList :: "txOp list"
  bulk_isDiscard :: bool
  bulk_isCommit :: bool

definition mem_NewBulk :: "memdb \<Rightarrow> membulk" where
  "mem_NewBulk d = \<lparr>bulk_opList = [], bulk_isDiscard = False, bulk_isCommit = False\<rparr>"

definition membulk_Set :: "membulk \<Rightarrow> bytes option \<Rightarrow> bytes \<Rightarrow> bytes \<Rightarrow> unit outcome \<times> membulk" where
  "membulk_Set b namespace key value =
     (Ok (), b\<lparr>bulk_opList := bulk_opList b @ [\<lparr>isSet = True, op_key = dbKey namespace key, op_value = value\<rparr>]\<rparr>)"

definition membulk_Delete :: "membulk \<Rightarrow> bytes option \<Rightarrow> bytes \<Rightarrow> unit outcome \<times> membulk" where
  "membulk_Delete b namespace key =
     (Ok (), b\<lparr>bulk_opList := bulk_opList b @ [\<lparr>isSet = False, op_key = dbKey namespace key, op_value = []\<rparr>]\<rparr>)"

definition membulk_Flush :: "membulk \<Rightarrow> memdb \<Rightarrow> unit outcome \<times> membulk \<times> memdb" where
  "membulk_Flush b d =
     (if bulk_isDiscard b then (Err ErrCommitAfterDiscard, b, d)
      else if bulk_isCommit b then (Err ErrCommitTwice, b, d)
      else (Ok (), b\<lparr>bulk_isCommit := True\<rparr>, d\<lparr>db := runOps (bulk_opList b) (db d)\<rparr>))"

definition membulk_DiscardLast :: "membulk \<Rightarrow> membulk" where
  "membulk_DiscardLast b = b\<lparr>bulk_isDiscard := True\<rparr>"

section \<open>Memory databases provide the interface\<close>

definition mem_iface :: "(memdb, memtx, membulk) DB" where
  "mem_iface = \<lparr>db_Type = mem_Type, db_Set = mem_Set, db_Delete = mem_Delete,
     db_Get = mem_Get, db_Exist = mem_Exist, db_NewTx = mem_NewTx, db_NewBulk = mem_NewBulk,
     tx_Set = memtx_Set, tx_Delete = memtx_Delete, tx_Commit = memtx_Commit,
     tx_Discard = memtx_Discard, bulk_Set = membulk_Set, bulk_Delete = membulk_Delete,
     bulk_Flush = membulk_Flush, bulk_DiscardLast = membulk_DiscardLast\<rparr>"

definition mem_view :: "memdb \<Rightarrow> bytes \<rightharpoonup> bytes" where
  "mem_view d = map_of (db d)"

lemma map_of_runOps: "map_of (runOps ops m) = applyOps ops (map_of m)"
  by (induction ops arbitrary: m) (simp_all add: applyOp_def update_conv' delete_conv')

lemmas mem_iface_defs = mem_iface_def mem_Set_def mem_Delete_def mem_Get_def mem_Exist_def
  mem_NewTx_def mem_NewBulk_def memtx_Set_def memtx_Delete_def memtx_Commit_def memtx_Discard_def
  membulk_Set_def membulk_Delete_def membulk_Flush_def membulk_DiscardLast_def

interpretation mem: kv_db mem_iface mem_view opList "\<lambda>t. \<not> isDiscard t \<and> \<not> isCommit t"
  bulk_opList "\<lambda>b. \<not> bulk_isDiscard b \<and> \<not> bulk_isCommit b"
  by unfold_locales
    (auto simp: mem_iface_defs mem_view_def map_of_runOps update_conv' delete_conv' split: option.splits)

lemma runOps_distinct: "distinct (map fst m) \<Longrightarrow> distinct (map fst (runOps ops m))"
  by (induction ops arbitrary: m) (simp_all add: distinct_update distinct_delete)

section \<open>Iterators\<close>

record iterator =
  iter_start :: "bytes option"
  iter_end :: "bytes option"
  iter_reverse :: bool
  iter_keys :: "bytes list"
  iter_isInvalid :: bool
  iter_cursor :: nat

definition isKeyInRange :: "bytes \<Rightarrow> bytes option \<Rightarrow> bytes option \<Rightarrow> bool \<Rightarrow> bool" where
  "isKeyInRange key start stop reverse =
     (if reverse then
        (if start \<noteq> None \<and> contents start < key then False
         else if stop \<noteq> None \<and> key \<le> contents stop then False
         else True)
      else if key < contents start then False
      else if stop \<noteq> None \<and> contents stop \<le> key then False
      else True)"

definition mem_Iterator :: "memdb \<Rightarrow> bytes option \<Rightarrow> bytes option \<Rightarrow> iterator" where
  "mem_Iterator d start stop =
     (let reverse = (contents stop < contents start);
          keys = filter (\<lambda>key. isKeyInRange key start stop reverse) (map fst (db d))
      in \<lparr>iter_start = start, iter_end = stop, iter_reverse = reverse,
          iter_keys = (if reverse then rev (sort keys) else sort keys),
          iter_isInvalid = False, iter_cursor = 0\<rparr>)"

definition iter_Valid :: "iterator \<Rightarrow> bool" where
  "iter_Valid it = (if iter_isInvalid it then False else iter_cursor it < length (iter_keys it))"

definition iter_Next :: "iterator \<Rightarrow> unit outcome \<times> iterator" where
  "iter_Next it =
     (if \<not> iter_Valid it then (Err ErrIteratorInvalid, it)
      else (Ok (), it\<lparr>iter_cursor := Suc (iter_cursor it)\<rparr>))"

definition iter_Key :: "iterator \<Rightarrow> bytes outcome" where
  "iter_Key it =
     (if \<not> iter_Valid it then Err ErrIteratorInvalid else Ok (iter_keys it ! iter_cursor it))"

definition iter_Value :: "memdb \<Rightarrow> iterator \<Rightarrow> bytes option outcome" where
  "iter_Value d it =
     (if \<not> iter_Valid it then Err ErrIteratorInvalid
      else bindO (mem_Get d None (iter_keys it ! iter_cursor it))
        (\<lambda>r. case r of None \<Rightarrow> Ok None | Some value \<Rightarrow> Ok (Some value)))"

text \<open>
  A scan drives an iterator the way a caller does, \<^verbatim>\<open>for it.Valid() { it.Key();
  it.Value(); it.Next() }\<close>, and collects what it sees.
\<close>

function scan :: "memdb \<Rightarrow> iterator \<Rightarrow> (bytes \<times> bytes option) list" where
  "scan d it =
     (if iter_Valid it
      then (the_ok (iter_Key it), the_ok (iter_Value d it)) # scan d (snd (iter_Next it))
      else [])"
  by pat_completeness auto
termination
  by (relation "measure (\<lambda>(d, it). length (iter_keys it) - iter_cursor it)")
    (auto simp: iter_Next_def iter_Valid_def split: if_splits)

declare scan.simps [simp del]

lemma scan_drop:
  "\<not> iter_isInvalid it \<Longrightarrow>
    scan d it = map (\<lambda>k. (k, map_of (db d) k)) (drop (iter_cursor it) (iter_keys it))"
proof (induction d it rule: scan.induct)
  case (1 d it)
  show ?case
  proof (cases "iter_cursor it < length (iter_keys it)")
    case True
    with 1 have valid: "iter_Valid it" by (simp add: iter_Valid_def)
    from valid 1 have "scan d (snd (iter_Next it)) =
        map (\<lambda>k. (k, map_of (db d) k)) (drop (Suc (iter_cursor it)) (iter_keys it))"
      by (simp add: iter_Next_def)
    with True valid show ?thesis
      by (auto simp: scan.simps [of d it] iter_Key_def iter_Value_def mem_Get_def
          Cons_nth_drop_Suc [symmetric] split: option.splits)
  next
    case False
    with 1 show ?thesis by (simp add: scan.simps [of d it] iter_Valid_def)
  qed
qed

lemma scan_Iterator:
  "scan d (mem_Iterator d start stop) =
     map (\<lambda>k. (k, map_of (db d) k)) (iter_keys (mem_Iterator d start stop))"
  by (subst scan_drop) (simp_all add: mem_Iterator_def Let_def)

text \<open>The keys an iterator between two bounds visits, forwards and backwards.\<close>

definition inRange :: "bytes option \<Rightarrow> bytes option \<Rightarrow> bytes \<Rightarrow> bool" where
  "inRange start stop key =
     (if contents stop < contents start then key \<le> contents start \<and> (\<forall>e. stop = Some e \<longrightarrow> e < key)
      else contents start \<le> key \<and> (\<forall>e. stop = Some e \<longrightarrow> key < e))"

lemma isKeyInRange_inRange:
  "isKeyInRange key start stop (contents stop < contents start) = inRange start stop key"
  by (cases start; cases stop) (auto simp: isKeyInRange_def inRange_def contents_def not_le)

lemma iter_keys_inRange:
  "iter_keys (mem_Iterator d start stop) =
     (let ks = filter (inRange start stop) (map fst (db d))
      in if contents stop < contents start then rev (sort ks) else sort ks)"
  unfolding mem_Iterator_def Let_def isKeyInRange_inRange by simp

end
