(* ===== verification/Merkle_Refinement.thy ===== *)
theory Merkle_Refinement
  imports Sparse_Merkle Memory_DB
begin

text \<open>
  The database-backed tree refines the abstract one. \<open>represents\<close> is the relation between
  a tree record in a database state and an abstract tree; reading, proving and updating
  are the abstract lookup, sibling list and update.
\<close>

section \<open>The node store of a tree inside a database\<close>

definition nodes :: "(bytes \<rightharpoonup> bytes) \<Rightarrow> bytes option \<Rightarrow> (bytes \<rightharpoonup> bytes)" where
  "nodes m ns h = m (dbKey ns h)"

lemma dbKey_same_ns [simp]: "dbKey ns k = dbKey ns k' \<longleftrightarrow> k = k'"
  by (cases ns) (simp_all add: dbKey_Some)

definition writeOps :: "bytes option \<Rightarrow> (bytes \<times> bytes) list \<Rightarrow> txOp list" where
  "writeOps ns W = map (\<lambda>(h, v). setOp ns h v) W"

lemma writeOps_simps [simp]:
  "writeOps ns [] = []" "writeOps ns (W @ W') = writeOps ns W @ writeOps ns W'"
  "writeOps ns ((h, v) # W) = setOp ns h v # writeOps ns W"
  by (simp_all add: writeOps_def)

lemma nodes_update [simp]: "nodes (m(dbKey ns h \<mapsto> v)) ns = (nodes m ns)(h \<mapsto> v)"
  by (auto simp: nodes_def)

lemma nodes_writeOps: "nodes (applyOps (writeOps ns W) m) ns = storeAll W (nodes m ns)"
proof (induction W arbitrary: m)
  case (Cons w W)
  then show ?case
    by (cases w) (simp only: writeOps_simps applyOps_simps applyOp_set Cons.IH nodes_update storeAll_simps)
qed simp

lemma applyOps_writeOps_other:
  "(\<And>h. k \<noteq> dbKey ns h) \<Longrightarrow> applyOps (writeOps ns W) m k = m k"
proof (induction W arbitrary: m)
  case (Cons w W)
  then show ?case by (cases w) simp
qed simp

definition represents :: "(bytes \<rightharpoonup> bytes) \<Rightarrow> hasher \<Rightarrow> smt \<Rightarrow> mtree \<Rightarrow> bytes \<Rightarrow> bool" where
  "represents m H s t rt \<longleftrightarrow>
     1 \<le> height s \<and> height s < 2 ^ 64 \<and> perfect (nat (height s - 1)) t \<and>
     stored (nodes m (dbNamespace s)) H t \<and> rt = mhash H t"

lemma represents_root [simp]: "represents m H (s\<lparr>root := r\<rparr>) t rt = represents m H s t rt"
  by (simp add: represents_def)

lemma represents_perfect: "represents m H s t rt \<Longrightarrow> perfect (nat (height s - 1)) t"
  by (simp add: represents_def)

lemma slices [simp]:
  "length a = k \<Longrightarrow> sliceTo (a @ b) k = Ok a" "length a = k \<Longrightarrow> sliceFrom (a @ b) k = Ok b"
  by (simp_all add: sliceTo_def sliceFrom_def)

text \<open>The hash of a node is the key of its value, which is the next step of the loops.\<close>

fun nodeValue :: "hasher \<Rightarrow> mtree \<Rightarrow> bytes" where
  "nodeValue H (MLeaf v) = v"
| "nodeValue H (MNode l r) = mhash H l @ mhash H r"

lemma stored_nodeValue: "stored N H t \<Longrightarrow> N (mhash H t) = Some (nodeValue H t)"
  by (cases t) simp_all

text \<open>The nodes an update writes, and those of a new tree, in the order of the bulk.\<close>

definition updateWrites :: "hasher \<Rightarrow> smt \<Rightarrow> mtree \<Rightarrow> bytes \<Rightarrow> bytes \<Rightarrow> (bytes \<times> bytes) list" where
  "updateWrites H s t path v =
     pathWrites H (pathBits path (height s)) (msides H t (pathBits path (height s))) v"

definition initWrites :: "hasher \<Rightarrow> int \<Rightarrow> (bytes \<times> bytes) list" where
  "initWrites H h =
     map (\<lambda>i. (the_ok (defaultNode H i), the_ok (defaultNode H (i + 1)) @ the_ok (defaultNode H (i + 1))))
       [int (Size H * 8) - h .. int (Size H * 8) - 2]
     @ [(the_ok (defaultNode H (int (Size H * 8) - 1)), DefaultValue), (initMarker, [])]"

context kv_db
begin

lemma Get_nodes: "db_Get I d ns h = Ok (nodes (view d) ns h)"
  by (simp add: Get nodes_def)

lemma getLoop_mlookup:
  assumes "hasher_ok H"
  shows "perfect n t \<Longrightarrow> stored (nodes (view d) ns) H t \<Longrightarrow>
    \<exists>u. getLoop I H d ns path h i n (mhash H t) = Ok (Digest H u) \<and>
        u = mlookup t (map (\<lambda>j. isLeft path j h) [i..<i + n]) \<and>
        nodes (view d) ns (Digest H u) = Some u"
proof (induction n arbitrary: i t)
  case 0
  then show ?case by (auto elim!: perfect_0E)
next
  case (Suc n)
  then obtain l r where t: "t = MNode l r" "perfect n l" "perfect n r" by (auto elim!: perfect_SucE)
  let ?c = "if isLeft path i h then l else r"
  have c: "perfect n ?c" "stored (nodes (view d) ns) H ?c" using t Suc.prems by auto
  have bits: "map (\<lambda>j. isLeft path j h) [i..<Suc (i + n)] =
      isLeft path i h # map (\<lambda>j. isLeft path j h) [Suc i..<Suc (i + n)]"
    by (simp add: upt_conv_Cons del: upt_Suc)
  have "getLoop I H d ns path h i (Suc n) (mhash H t) = getLoop I H d ns path h (Suc i) n (mhash H ?c)"
    using Suc.prems t assms by (simp add: Get_nodes)
  with Suc.IH [OF c, of "Suc i"] t show ?case by (auto simp: bits simp del: upt_Suc)
qed

lemma sideLoop_msides:
  assumes "hasher_ok H"
  shows "perfect n t \<Longrightarrow> stored (nodes (view d) ns) H t \<Longrightarrow>
    sideLoop I H d ns path h i n (nodeValue H t) =
      Ok (msides H t (map (\<lambda>j. isLeft path j h) [i..<i + n]))"
proof (induction n arbitrary: i t)
  case 0
  then show ?case by (auto elim!: perfect_0E)
next
  case (Suc n)
  then obtain l r where t: "t = MNode l r" "perfect n l" "perfect n r" by (auto elim!: perfect_SucE)
  let ?c = "if isLeft path i h then l else r"
  have c: "perfect n ?c" "stored (nodes (view d) ns) H ?c" using t Suc.prems by auto
  have bits: "map (\<lambda>j. isLeft path j h) [i..<Suc (i + n)] =
      isLeft path i h # map (\<lambda>j. isLeft path j h) [Suc i..<Suc (i + n)]"
    by (simp add: upt_conv_Cons del: upt_Suc)
  have "nodes (view d) ns (mhash H ?c) = Some (nodeValue H ?c)"
    using c(2) by (rule stored_nodeValue)
  then show ?case
    using Suc.IH [OF c, of "Suc i"] t assms
    by (cases "isLeft path i h") (simp_all add: bits Get_nodes del: upt_Suc)
qed

lemma GetForRoot_mlookup:
  assumes "hasher_ok H" and "represents (view d) H s t rt" and "getPath H s key = Ok path"
  shows "GetForRoot I H s d key rt = Ok (mlookup t (pathBits path (height s)))"
  using assms getLoop_mlookup [OF assms(1), of "nat (height s - 1)" t d "dbNamespace s" path "height s" 0]
  by (auto simp: GetForRoot_def represents_def pathBits_def Get_nodes)

lemma sideNodesForRoot_msides:
  assumes "hasher_ok H" and "represents (view d) H s t rt"
  shows "sideNodesForRoot I H s d path rt = Ok (msides H t (pathBits path (height s)))"
  using assms sideLoop_msides [OF assms(1), of "nat (height s - 1)" t d "dbNamespace s" path "height s" 0]
    stored_nodeValue [of "nodes (view d) (dbNamespace s)" H t]
  by (simp add: sideNodesForRoot_def represents_def pathBits_def Get_nodes)

lemma ProveForRoot_msides:
  assumes "hasher_ok H" and "represents (view d) H s t rt" and "getPath H s key = Ok path"
  shows "ProveForRoot I H s d key rt = Ok (rev (msides H t (pathBits path (height s))))"
  by (simp add: ProveForRoot_def assms sideNodesForRoot_msides [OF assms(1,2)] reverseProof_rev)

text \<open>The climb adds exactly the abstract writes to the bulk and ends in the abstract root.\<close>

lemma updateLoop_foldPath:
  assumes "hasher_ok H" and "length ss = length bs" and "\<forall>s\<in>set ss. length s = Size H"
    and "bs = map (\<lambda>j. isLeft path j h) [0..<length bs]"
  shows "n \<le> length bs \<Longrightarrow> bulkOps b = base @ writeOps ns (pathWrites H (drop n bs) (drop n ss) v) \<Longrightarrow>
    \<exists>b'. updateLoop I H ns path h ss n (foldPath H (drop n bs) (drop n ss) v) b =
            (Ok (foldPath H bs ss v), b') \<and>
         bulkOps b' = base @ writeOps ns (pathWrites H bs ss v) \<and> bulkOpen b' = bulkOpen b"
proof (induction n arbitrary: b)
  case 0
  then show ?case by simp
next
  case (Suc n)
  have n: "n < length bs" "n < length ss" using Suc.prems assms by auto
  have bs_n: "bs ! n = isLeft path n h"
    using n(1) arg_cong [OF assms(4), of "\<lambda>xs. xs ! n"] by simp
  have drops: "drop n bs = isLeft path n h # drop (Suc n) bs" "drop n ss = ss ! n # drop (Suc n) ss"
    using n bs_n Cons_nth_drop_Suc [of n bs] Cons_nth_drop_Suc [of n ss] by simp_all
  let ?x = "joinHash (isLeft path n h) (foldPath H (drop (Suc n) bs) (drop (Suc n) ss) v) (ss ! n)"
  have side: "copyN (Size H) (ss ! n) = ss ! n" using assms(3) n by simp
  obtain b1 where b1: "bulk_Set I b ns (Digest H ?x) ?x = (Ok (), b1)"
    "bulkOps b1 = bulkOps b @ [setOp ns (Digest H ?x) ?x]" "bulkOpen b1 = bulkOpen b"
    using BulkSet [of b ns "Digest H ?x" ?x] by auto
  have "bulkOps b1 = base @ writeOps ns (pathWrites H (drop n bs) (drop n ss) v)"
    using b1(2) Suc.prems(2) drops by (simp add: Let_def)
  with Suc.IH [of b1] Suc.prems(1) obtain b' where b':
    "updateLoop I H ns path h ss n (foldPath H (drop n bs) (drop n ss) v) b1 = (Ok (foldPath H bs ss v), b')"
    "bulkOps b' = base @ writeOps ns (pathWrites H bs ss v)" "bulkOpen b' = bulkOpen b1"
    by auto
  have "updateLoop I H ns path h ss (Suc n) (foldPath H (drop (Suc n) bs) (drop (Suc n) ss) v) b =
      updateLoop I H ns path h ss n (Digest H ?x) b1"
    using n b1(1) by (cases "isLeft path n h") (simp_all add: side Let_def joinHash_def)
  moreover have "Digest H ?x = foldPath H (drop n bs) (drop n ss) v" by (simp add: drops)
  ultimately show ?case using b' b1(3) by auto
qed

lemma updateWithSideNodes_foldPath:
  assumes "hasher_ok H" and "length ss = nat (height s - 1)" and "\<forall>s\<in>set ss. length s = Size H"
  shows "\<exists>d'. updateWithSideNodes I H s d path v ss =
            (Ok (foldPath H (pathBits path (height s)) ss v), d') \<and>
     view d' = applyOps (writeOps (dbNamespace s) (pathWrites H (pathBits path (height s)) ss v)) (view d)"
proof -
  let ?bs = "pathBits path (height s)" and ?ns = "dbNamespace s"
  let ?b0 = "db_NewBulk I d"
  obtain b1 where b1: "bulk_Set I ?b0 ?ns (Digest H v) v = (Ok (), b1)"
    "bulkOps b1 = [setOp ?ns (Digest H v) v]" "bulkOpen b1"
    using BulkSet [of ?b0 ?ns "Digest H v" v] NewBulk [of d] by auto
  have "\<exists>b'. updateLoop I H ?ns path (height s) ss (length ?bs)
        (foldPath H (drop (length ?bs) ?bs) (drop (length ?bs) ss) v) b1 = (Ok (foldPath H ?bs ss v), b') \<and>
      bulkOps b' = [] @ writeOps ?ns (pathWrites H ?bs ss v) \<and> bulkOpen b' = bulkOpen b1"
    by (rule updateLoop_foldPath [OF assms(1)]) (use assms b1 in \<open>auto simp: pathBits_def\<close>)
  then obtain b2 where b2: "updateLoop I H ?ns path (height s) ss (nat (height s - 1)) (Digest H v) b1 =
      (Ok (foldPath H ?bs ss v), b2)" "bulkOps b2 = writeOps ?ns (pathWrites H ?bs ss v)" "bulkOpen b2"
    using b1(3) by auto
  obtain b3 d' where "bulk_Flush I b2 d = (Ok (), b3, d')" "view d' = applyOps (bulkOps b2) (view d)"
    using Flush [OF b2(3), of d] by auto
  with b1(1) b2 show ?thesis by (auto simp: updateWithSideNodes_def Let_def)
qed

lemma UpdateForRoot_writes:
  assumes "hasher_ok H" and "represents (view d) H s t rt" and "getPath H s key = Ok path"
  shows "\<exists>d'. UpdateForRoot I H s d key v rt =
            (Ok (mhash H (mupdate t (pathBits path (height s)) v)), d') \<and>
     view d' = applyOps (writeOps (dbNamespace s) (updateWrites H s t path v)) (view d)"
proof -
  let ?bs = "pathBits path (height s)" and ?ss = "msides H t (pathBits path (height s))"
  have len: "length ?ss = nat (height s - 1)" "\<forall>s\<in>set ?ss. length s = Size H"
    using length_msides [OF represents_perfect [OF assms(2)]] msides_length_Size [OF assms(1)] by auto
  have "foldPath H ?bs ?ss v = mhash H (mupdate t ?bs v)"
    using represents_perfect [OF assms(2)] by (intro foldPath_msides) auto
  with updateWithSideNodes_foldPath [OF assms(1) len, of d path v] show ?thesis
    by (simp add: UpdateForRoot_def assms(3) sideNodesForRoot_msides [OF assms(1,2)] updateWrites_def)
qed

lemma represents_mupdate:
  assumes "represents m H s t rt"
    and "noCollision (nodes m (dbNamespace s)) (updateWrites H s t path v)"
    and "nodes m' (dbNamespace s) = storeAll (updateWrites H s t path v) (nodes m (dbNamespace s))"
  shows "represents m' H s (mupdate t (pathBits path (height s)) v)
           (mhash H (mupdate t (pathBits path (height s)) v))"
  using assms stored_mupdate [of "nat (height s - 1)" t "pathBits path (height s)"]
  by (auto simp: represents_def updateWrites_def intro: perfect_mupdate)

lemma represents_old_root:
  assumes "represents m H s t' rt'" and "noCollision (nodes m (dbNamespace s)) W"
    and "nodes m' (dbNamespace s) = storeAll W (nodes m (dbNamespace s))"
  shows "represents m' H s t' rt'"
  using assms by (auto simp: represents_def intro: stored_storeAll)

lemma Update_mupdate:
  assumes "hasher_ok H" and "represents (view d) H s t (root s)" and "getPath H s key = Ok path"
    and "noCollision (nodes (view d) (dbNamespace s)) (updateWrites H s t path v)"
  shows "\<exists>d'. Update I H s d key v =
       (Ok (mhash H (mupdate t (pathBits path (height s)) v)),
        s\<lparr>root := mhash H (mupdate t (pathBits path (height s)) v)\<rparr>, d') \<and>
     view d' = applyOps (writeOps (dbNamespace s) (updateWrites H s t path v)) (view d) \<and>
     represents (view d') H s (mupdate t (pathBits path (height s)) v)
       (mhash H (mupdate t (pathBits path (height s)) v))"
proof -
  obtain d' where d': "UpdateForRoot I H s d key v (root s) =
      (Ok (mhash H (mupdate t (pathBits path (height s)) v)), d')"
    "view d' = applyOps (writeOps (dbNamespace s) (updateWrites H s t path v)) (view d)"
    using UpdateForRoot_writes [OF assms(1-3)] by blast
  have "represents (view d') H s (mupdate t (pathBits path (height s)) v)
       (mhash H (mupdate t (pathBits path (height s)) v))"
    using assms(4) by (intro represents_mupdate [OF assms(2)]) (simp_all add: d'(2) nodes_writeOps)
  with d' show ?thesis by (simp add: Update_def SetRoot_def)
qed

text \<open>An update fails before it writes anything, so a failed update changes nothing.\<close>

lemma Update_KeyTooLong:
  "\<not> hashKey s \<Longrightarrow> Size H < length key \<Longrightarrow> Update I H s d key v = (Err ErrKeyTooLong, s, d)"
  by (simp add: Update_def UpdateForRoot_def getPath_def padKey_def)

section \<open>A new tree\<close>

lemma initLoop_Ok:
  assumes "\<forall>i\<in>set is. 0 \<le> i \<and> i + 1 < int (Size H * 8)"
  shows "\<exists>b'. initLoop I H ns is b = (Ok (), b') \<and> bulkOpen b' = bulkOpen b \<and>
     bulkOps b' = bulkOps b @ writeOps ns (map (\<lambda>i. (the_ok (defaultNode H i),
       the_ok (defaultNode H (i + 1)) @ the_ok (defaultNode H (i + 1)))) is)"
  using assms
proof (induction "is" arbitrary: b)
  case (Cons i "is")
  then obtain x y where xy: "defaultNode H i = Ok x" "defaultNode H (i + 1) = Ok y"
    by (simp add: defaultNode_mfull)
  obtain b1 where b1: "bulk_Set I b ns x (y @ y) = (Ok (), b1)" "bulkOpen b1 = bulkOpen b"
    "bulkOps b1 = bulkOps b @ [setOp ns x (y @ y)]"
    using BulkSet [of b ns x "y @ y"] by auto
  from Cons.IH [of b1] Cons.prems b1 xy show ?case by auto
qed simp

lemma initTree_Ok:
  assumes "0 < Size H" and "h \<le> int (Size H * 8)"
  shows "\<exists>d'. initTree I H d ns h = (Ok (), d') \<and> view d' = applyOps (writeOps ns (initWrites H h)) (view d)"
proof -
  let ?bits = "int (Size H * 8)"
  let ?is = "[?bits - h .. ?bits - 2]"
  obtain b1 where b1: "initLoop I H ns ?is (db_NewBulk I d) = (Ok (), b1)" "bulkOpen b1"
    "bulkOps b1 = writeOps ns (map (\<lambda>i. (the_ok (defaultNode H i),
       the_ok (defaultNode H (i + 1)) @ the_ok (defaultNode H (i + 1)))) ?is)"
    using initLoop_Ok [of ?is H ns "db_NewBulk I d"] NewBulk [of d] assms by auto
  obtain x where x: "defaultNode H (?bits - 1) = Ok x" using assms by (simp add: defaultNode_mfull)
  obtain b2 where b2: "bulk_Set I b1 ns x DefaultValue = (Ok (), b2)" "bulkOpen b2"
    "bulkOps b2 = bulkOps b1 @ [setOp ns x DefaultValue]"
    using BulkSet [of b1 ns x DefaultValue] b1(2) by auto
  obtain b3 where b3: "bulk_Set I b2 ns initMarker [] = (Ok (), b3)" "bulkOpen b3"
    "bulkOps b3 = bulkOps b2 @ [setOp ns initMarker []]"
    using BulkSet [of b2 ns initMarker "[]"] b2(2) by auto
  obtain b4 d' where "bulk_Flush I b3 d = (Ok (), b4, d')" "view d' = applyOps (bulkOps b3) (view d)"
    using Flush [OF b3(2), of d] by auto
  with b1 b2 b3 x show ?thesis by (simp add: initTree_def Let_def initWrites_def)
qed

text \<open>The trees of all depths up to the height are in the store after initialisation.\<close>

lemma stored_mfull_init:
  assumes "noCollision N (initWrites H h)" and "h \<le> int (Size H * 8)" and "0 < Size H"
  shows "int k < h \<or> k = 0 \<Longrightarrow> stored (storeAll (initWrites H h) N) H (mfull k DefaultValue)"
proof (induction k)
  case 0
  have "(mhash H (mfull 0 DefaultValue), DefaultValue) \<in> set (initWrites H h)"
    using assms(3) by (simp add: initWrites_def defaultNode_mfull nat_diff_distrib')
  from storeAll_written [OF assms(1) this] show ?case by simp
next
  case (Suc k)
  let ?i = "int (Size H * 8) - 2 - int k"
  have i: "0 \<le> ?i" "?i \<in> set [int (Size H * 8) - h .. int (Size H * 8) - 2]" using Suc.prems assms by auto
  have "nat ?i = Size H * 8 - 2 - k" "nat (?i + 1) = Size H * 8 - 1 - k" using i(1) by linarith+
  then have "the_ok (defaultNode H ?i) = mhash H (mfull (Suc k) DefaultValue)"
    "the_ok (defaultNode H (?i + 1)) = mhash H (mfull k DefaultValue)"
    using i(1) Suc.prems assms by (auto simp: defaultNode_mfull Suc_diff_le intro!: arg_cong [where f = "\<lambda>n. mhash H (mfull n _)"])
  with i(2) have "(mhash H (mfull (Suc k) DefaultValue), mhash H (mfull k DefaultValue) @ mhash H (mfull k DefaultValue))
      \<in> set (initWrites H h)"
    unfolding initWrites_def by (auto simp del: mhash.simps mfull.simps simp: image_iff intro!: bexI [of _ ?i])
  from storeAll_written [OF assms(1) this] Suc show ?case by auto
qed

lemma NewSparseMerkleTree_fresh:
  assumes "hasher_ok H" and "1 \<le> h" and "h \<le> int (Size H * 8)" and "h < 2 ^ 64"
    and "nodes (view d) ns initMarker = None" and "noCollision (nodes (view d) ns) (initWrites H h)"
  shows "\<exists>s d'. NewSparseMerkleTree I H d ns None h hk = (Ok s, d') \<and>
     s = \<lparr>dbNamespace = ns, root = mhash H (mfull (nat (h - 1)) DefaultValue), height = h, hashKey = hk\<rparr> \<and>
     view d' = applyOps (writeOps ns (initWrites H h)) (view d) \<and>
     represents (view d') H s (mfull (nat (h - 1)) DefaultValue) (root s)"
proof -
  have pos: "0 < Size H" using assms(1) by (simp add: hasher_ok_def)
  obtain d' where d': "initTree I H d ns h = (Ok (), d')"
    "view d' = applyOps (writeOps ns (initWrites H h)) (view d)"
    using initTree_Ok [OF pos assms(3)] by blast
  have "Size H * 8 - 1 - nat (int (Size H * 8) - h) = nat (h - 1)" using assms by linarith
  then have rt: "defaultNode H (int (Size H * 8) - h) = Ok (mhash H (mfull (nat (h - 1)) DefaultValue))"
    using assms by (simp add: defaultNode_mfull)
  have "stored (nodes (view d') ns) H (mfull (nat (h - 1)) DefaultValue)"
    using stored_mfull_init [OF assms(6,3) pos, of "nat (h - 1)"] assms(2) by (simp add: d' nodes_writeOps)
  with assms d' rt show ?thesis
    by (simp add: NewSparseMerkleTree_def Let_def Get_nodes SetRoot_def represents_def)
qed

text \<open>A height outside \<open>1..8*Size\<close> indexes \<^verbatim>\<open>defaultNodes\<close> out of range.\<close>

lemma initTree_negative_index:
  assumes "int (Size H * 8) < h" and "2 \<le> h"
  shows "fst (initTree I H d ns h) = Panic IndexOutOfRange"
proof -
  have "[int (Size H * 8) - h .. int (Size H * 8) - 2] =
      (int (Size H * 8) - h) # [int (Size H * 8) - h + 1 .. int (Size H * 8) - 2]"
    using assms(2) by (subst upto_rec1) auto
  then have "initLoop I H ns [int (Size H * 8) - h .. int (Size H * 8) - 2] (db_NewBulk I d) =
      (Panic IndexOutOfRange, db_NewBulk I d)"
    using assms by (simp add: defaultNode_out_of_range)
  then show ?thesis by (simp add: initTree_def Let_def)
qed

lemma NewSparseMerkleTree_bad_height:
  assumes "0 < Size H" and "h < 1 \<or> int (Size H * 8) < h" and "nodes (view d) ns initMarker = None"
  shows "fst (NewSparseMerkleTree I H d ns None h hk) = Panic IndexOutOfRange"
proof (cases "h < 1")
  case True
  with assms(1) obtain d' where "initTree I H d ns h = (Ok (), d')"
    using initTree_Ok [of H h d ns] by auto
  with True assms show ?thesis
    by (simp add: NewSparseMerkleTree_def Let_def Get_nodes defaultNode_out_of_range)
next
  case False
  with assms have h: "int (Size H * 8) < h" "2 \<le> h" by auto
  obtain d' where "initTree I H d ns h = (Panic IndexOutOfRange, d')"
    using initTree_negative_index [OF h, of d ns] by (cases "initTree I H d ns h") auto
  with assms show ?thesis by (simp add: NewSparseMerkleTree_def Let_def Get_nodes)
qed

end

end
