(* ===== verification/Rollup_Types.thy ===== *)
theory Rollup_Types
  imports Go_Bytes
begin

text \<open>
  The data of \<^verbatim>\<open>types/\<close>: accounts, transactions, transitions, blocks, and their ABI
  serialisation. The ABI codec is go-ethereum's, so it is the parameter \<open>abi\<close>: type
  constructors, \<^verbatim>\<open>Pack\<close>, the decoded values of \<^verbatim>\<open>Unpack\<close> in the order of the arguments, and
  the name of the struct field an argument goes into.
\<close>

section \<open>The ABI library\<close>

datatype marshaling = Marshaling (m_Name: string) (m_Type: string) (m_Components: "marshaling list")

datatype abi_type =
    AddressTy | BytesTy | BytesSliceTy | Bytes32Ty | Bytes32SliceTy | Uint256Ty | Uint256SliceTy
  | TupleTy "marshaling list"

datatype abi_val =
    VAddress bytes | VBytes bytes | VBytesSlice "bytes list" | VBytes32 bytes
  | VBytes32Slice "bytes list" | VUint int | VUintSlice "int list" | VTuple "abi_val list"

type_synonym arguments = "(string \<times> abi_type) list"

record abi =
  NewType :: "string \<Rightarrow> marshaling list \<Rightarrow> abi_type outcome"
  Pack :: "arguments \<Rightarrow> abi_val list \<Rightarrow> bytes outcome"
  Unpack :: "arguments \<Rightarrow> bytes \<Rightarrow> abi_val list outcome"
  ToCamelCase :: "string \<Rightarrow> string"

abbreviation unmarshalErr :: "'a outcome" where
  "unmarshalErr \<equiv> Err (ErrExternal ''abi: cannot unmarshal'')"

text \<open>
  \<^verbatim>\<open>Unpack(&v, data)\<close> into a struct: every field takes the value of the argument of its name;
  the values are returned in the order of the fields.
\<close>

definition unpackStruct :: "abi \<Rightarrow> arguments \<Rightarrow> string list \<Rightarrow> bytes \<Rightarrow> abi_val list outcome" where
  "unpackStruct A args fs data =
     bindO (Unpack A args data) (\<lambda>vs.
       let named = zip (map (\<lambda>a. ToCamelCase A (fst a)) args) vs
       in mapO (\<lambda>f. case map_of named f of None \<Rightarrow> unmarshalErr | Some v \<Rightarrow> Ok v) fs)"

text \<open>The values of a type that its ABI encoding represents exactly.\<close>

fun abi_fits :: "abi_type \<Rightarrow> abi_val \<Rightarrow> bool" where
  "abi_fits AddressTy (VAddress a) = (length a = 20)"
| "abi_fits BytesTy (VBytes b) = True"
| "abi_fits BytesSliceTy (VBytesSlice bs) = True"
| "abi_fits Bytes32Ty (VBytes32 b) = (length b = 32)"
| "abi_fits Bytes32SliceTy (VBytes32Slice bs) = (\<forall>b\<in>set bs. length b = 32)"
| "abi_fits Uint256Ty (VUint n) = (0 \<le> n \<and> n < 2 ^ 256)"
| "abi_fits Uint256SliceTy (VUintSlice ns) = (\<forall>n\<in>set ns. 0 \<le> n \<and> n < 2 ^ 256)"
| "abi_fits _ _ = False"

text \<open>The Go field of each argument name the code uses.\<close>

definition goNames :: "(string \<times> string) list" where
  "goNames =
     [(''account'', ''Account''), (''balances'', ''Balances''), (''transferNonces'', ''TransferNonces''),
      (''withdrawNonces'', ''WithdrawNonces''), (''transitionType'', ''TransitionType''),
      (''stateRoot'', ''StateRoot''), (''accountSlotIndex'', ''AccountSlotIndex''),
      (''senderSlotIndex'', ''SenderSlotIndex''), (''recipientSlotIndex'', ''RecipientSlotIndex''),
      (''recipient'', ''Recipient''), (''tokenIndex'', ''TokenIndex''), (''amount'', ''Amount''),
      (''nonce'', ''Nonce''), (''signature'', ''Signature''), (''blockNumber'', ''BlockNumber''),
      (''transitions'', ''Transitions'')]"

text \<open>
  The documented behaviour the code relies on: the names of the elementary types, that
  packing fitting values succeeds and unpacking decodes them again in the order of the
  arguments, that a leading \<^verbatim>\<open>uint256\<close> occupies the first 32 bytes, big-endian, and that the
  field of an argument is its name with a capital.
\<close>

definition abi_ok :: "abi \<Rightarrow> bool" where
  "abi_ok A \<longleftrightarrow>
     NewType A ''address'' [] = Ok AddressTy \<and> NewType A ''bytes'' [] = Ok BytesTy \<and>
     NewType A ''bytes[]'' [] = Ok BytesSliceTy \<and> NewType A ''bytes32'' [] = Ok Bytes32Ty \<and>
     NewType A ''bytes32[]'' [] = Ok Bytes32SliceTy \<and> NewType A ''uint256'' [] = Ok Uint256Ty \<and>
     NewType A ''uint256[]'' [] = Ok Uint256SliceTy \<and>
     (\<forall>ms. NewType A ''tuple'' ms = Ok (TupleTy ms)) \<and>
     list_all (\<lambda>(name, field). ToCamelCase A name = field) goNames \<and>
     (\<forall>args vs. list_all2 (\<lambda>a v. abi_fits (snd a) v) args vs \<longrightarrow>
        (\<exists>data. Pack A args vs = Ok data \<and> Unpack A args data = Ok vs \<and>
           (\<forall>n. args \<noteq> [] \<and> vs \<noteq> [] \<and> hd vs = VUint n \<longrightarrow>
              32 \<le> length data \<and> setBytes (take 32 data) = nat n)))"

lemma abi_ok_Pack:
  assumes "abi_ok A" and "list_all2 (\<lambda>a v. abi_fits (snd a) v) args vs"
  obtains data where "Pack A args vs = Ok data" "Unpack A args data = Ok vs"
    "\<And>n. vs \<noteq> [] \<Longrightarrow> hd vs = VUint n \<Longrightarrow> 32 \<le> length data \<and> setBytes (take 32 data) = nat n"
  using assms unfolding abi_ok_def by (metis list_all2_Nil)

section \<open>The type registry and the serializer\<close>

record typeRegistry =
  addressTy :: abi_type
  bytesTy :: abi_type
  bytesSliceTy :: abi_type
  bytes32Ty :: abi_type
  bytes32SliceTy :: abi_type
  uint256Ty :: abi_type
  uint256SliceTy :: abi_type

definition newTypeRegistry :: "abi \<Rightarrow> typeRegistry outcome" where
  "newTypeRegistry A =
     bindO (NewType A ''address'' []) (\<lambda>addressTy.
     bindO (NewType A ''bytes'' []) (\<lambda>bytesTy.
     bindO (NewType A ''bytes[]'' []) (\<lambda>bytesSliceTy.
     bindO (NewType A ''bytes32'' []) (\<lambda>bytes32Ty.
     bindO (NewType A ''bytes32[]'' []) (\<lambda>bytes32SliceTy.
     bindO (NewType A ''uint256'' []) (\<lambda>uint256Ty.
     bindO (NewType A ''uint256[]'' []) (\<lambda>uint256SliceTy.
     Ok \<lparr>addressTy = addressTy, bytesTy = bytesTy, bytesSliceTy = bytesSliceTy,
         bytes32Ty = bytes32Ty, bytes32SliceTy = bytes32SliceTy, uint256Ty = uint256Ty,
         uint256SliceTy = uint256SliceTy\<rparr>)))))))"

definition createAccountInfoArguments :: "typeRegistry \<Rightarrow> arguments" where
  "createAccountInfoArguments r =
     [(''account'', addressTy r), (''balances'', uint256SliceTy r),
      (''transferNonces'', uint256SliceTy r), (''withdrawNonces'', uint256SliceTy r)]"

definition createAccountInfoArgumentMarshaling :: "marshaling list" where
  "createAccountInfoArgumentMarshaling =
     [Marshaling ''account'' ''address'' [], Marshaling ''balances'' ''uint256[]'' [],
      Marshaling ''transferNonces'' ''uint256[]'' [], Marshaling ''withdrawNonces'' ''uint256[]'' []]"

definition createAccountInfoType :: "abi \<Rightarrow> typeRegistry \<Rightarrow> abi_type outcome" where
  "createAccountInfoType A r = NewType A ''tuple'' createAccountInfoArgumentMarshaling"

definition createStorageSlotArguments :: "abi \<Rightarrow> typeRegistry \<Rightarrow> arguments outcome" where
  "createStorageSlotArguments A r =
     bindO (createAccountInfoType A r) (\<lambda>accountInfoType.
     Ok [(''slotIndex'', uint256Ty r), (''accountInfo'', accountInfoType)])"

definition createCreateAndDepositTransitionArguments :: "typeRegistry \<Rightarrow> arguments" where
  "createCreateAndDepositTransitionArguments r =
     [(''transitionType'', uint256Ty r), (''stateRoot'', bytes32Ty r),
      (''accountSlotIndex'', uint256Ty r), (''account'', addressTy r),
      (''tokenIndex'', uint256Ty r), (''amount'', uint256Ty r), (''signature'', bytesTy r)]"

definition createDepositTransitionArguments :: "typeRegistry \<Rightarrow> arguments" where
  "createDepositTransitionArguments r =
     [(''transitionType'', uint256Ty r), (''stateRoot'', bytes32Ty r),
      (''accountSlotIndex'', uint256Ty r), (''tokenIndex'', uint256Ty r),
      (''amount'', uint256Ty r), (''signature'', bytesTy r)]"

definition createWithdrawTransitionArguments :: "typeRegistry \<Rightarrow> arguments" where
  "createWithdrawTransitionArguments r =
     [(''transitionType'', uint256Ty r), (''stateRoot'', bytes32Ty r),
      (''accountSlotIndex'', uint256Ty r), (''tokenIndex'', uint256Ty r),
      (''amount'', uint256Ty r), (''nonce'', uint256Ty r), (''signature'', bytesTy r)]"

definition createCreateAndTransferTransitionArguments :: "typeRegistry \<Rightarrow> arguments" where
  "createCreateAndTransferTransitionArguments r =
     [(''transitionType'', uint256Ty r), (''stateRoot'', bytes32Ty r),
      (''senderSlotIndex'', uint256Ty r), (''recipientSlotIndex'', uint256Ty r),
      (''recipient'', addressTy r), (''tokenIndex'', uint256Ty r), (''amount'', uint256Ty r),
      (''nonce'', uint256Ty r), (''signature'', bytesTy r)]"

definition createTransferTransitionArguments :: "typeRegistry \<Rightarrow> arguments" where
  "createTransferTransitionArguments r =
     [(''transitionType'', uint256Ty r), (''stateRoot'', bytes32Ty r),
      (''senderSlotIndex'', uint256Ty r), (''recipientSlotIndex'', uint256Ty r),
      (''tokenIndex'', uint256Ty r), (''amount'', uint256Ty r), (''nonce'', uint256Ty r),
      (''signature'', bytesTy r)]"

record serializer =
  codec :: abi
  registry :: typeRegistry
  accountInfoArguments :: arguments
  storageSlotArguments :: arguments
  createAndDepositTransitionArguments :: arguments
  depositTransitionArguments :: arguments
  withdrawTransitionArguments :: arguments
  createAndTransferTransitionArguments :: arguments
  transferTransitionArguments :: arguments

definition NewSerializer :: "abi \<Rightarrow> serializer outcome" where
  "NewSerializer A =
     bindO (newTypeRegistry A) (\<lambda>r.
     bindO (createStorageSlotArguments A r) (\<lambda>storageSlotArgs.
     Ok \<lparr>codec = A, registry = r,
         accountInfoArguments = createAccountInfoArguments r,
         storageSlotArguments = storageSlotArgs,
         createAndDepositTransitionArguments = createCreateAndDepositTransitionArguments r,
         depositTransitionArguments = createDepositTransitionArguments r,
         withdrawTransitionArguments = createWithdrawTransitionArguments r,
         createAndTransferTransitionArguments = createCreateAndTransferTransitionArguments r,
         transferTransitionArguments = createTransferTransitionArguments r\<rparr>))"

section \<open>Accounts\<close>

record AccountInfo =
  Account :: bytes
  Balances :: "int list"
  TransferNonces :: "int list"
  WithdrawNonces :: "int list"

definition wrapErr :: "string \<Rightarrow> 'a outcome \<Rightarrow> 'a outcome" where
  "wrapErr msg r = (case r of Err e \<Rightarrow> Err (ErrWrap msg e) | _ \<Rightarrow> r)"

definition SerializeAccountInfo :: "serializer \<Rightarrow> AccountInfo \<Rightarrow> bytes outcome" where
  "SerializeAccountInfo s info =
     wrapErr ''Serialize AccountInfo''
       (Pack (codec s) (accountInfoArguments s)
          [VAddress (Account info), VUintSlice (Balances info),
           VUintSlice (TransferNonces info), VUintSlice (WithdrawNonces info)])"

definition DeserializeAccountInfo :: "serializer \<Rightarrow> bytes \<Rightarrow> AccountInfo outcome" where
  "DeserializeAccountInfo s data =
     wrapErr ''Deserialize AccountInfo''
       (bindO (unpackStruct (codec s) (accountInfoArguments s)
           [''Account'', ''Balances'', ''TransferNonces'', ''WithdrawNonces''] data) (\<lambda>vs. case vs of
          [VAddress a, VUintSlice b, VUintSlice t, VUintSlice w] \<Rightarrow>
            Ok \<lparr>Account = a, Balances = b, TransferNonces = t, WithdrawNonces = w\<rparr>
        | _ \<Rightarrow> unmarshalErr))"

section \<open>Transactions\<close>

datatype TransactionType = TransactionTypeDeposit | TransactionTypeWithdraw | TransactionTypeTransfer

datatype Transaction =
    DepositTransaction (tx_Account: bytes) (tx_Token: bytes) (tx_Amount: int) (tx_Signature: bytes)
  | WithdrawTransaction (tx_Account: bytes) (tx_Token: bytes) (tx_Amount: int) (tx_Nonce: int)
      (tx_Signature: bytes)
  | TransferTransaction (tx_Sender: bytes) (tx_Recipient: bytes) (tx_Token: bytes) (tx_Amount: int)
      (tx_Nonce: int) (tx_Signature: bytes)

fun GetTransactionType :: "Transaction \<Rightarrow> TransactionType" where
  "GetTransactionType (DepositTransaction _ _ _ _) = TransactionTypeDeposit"
| "GetTransactionType (WithdrawTransaction _ _ _ _ _) = TransactionTypeWithdraw"
| "GetTransactionType (TransferTransaction _ _ _ _ _ _) = TransactionTypeTransfer"

section \<open>Transitions\<close>

datatype TransitionType =
    TransitionTypeCreateAndDeposit | TransitionTypeDeposit | TransitionTypeWithdraw
  | TransitionTypeCreateAndTransfer | TransitionTypeTransfer

text \<open>The \<^verbatim>\<open>iota\<close> values.\<close>

fun transitionCode :: "TransitionType \<Rightarrow> int" where
  "transitionCode TransitionTypeCreateAndDeposit = 0"
| "transitionCode TransitionTypeDeposit = 1"
| "transitionCode TransitionTypeWithdraw = 2"
| "transitionCode TransitionTypeCreateAndTransfer = 3"
| "transitionCode TransitionTypeTransfer = 4"

datatype Transition =
    CreateAndDepositTransition (tr_TransitionType: int) (tr_StateRoot: bytes)
      (tr_AccountSlotIndex: int) (tr_Account: bytes) (tr_TokenIndex: int) (tr_Amount: int)
      (tr_Signature: bytes)
  | DepositTransition (tr_TransitionType: int) (tr_StateRoot: bytes) (tr_AccountSlotIndex: int)
      (tr_TokenIndex: int) (tr_Amount: int) (tr_Signature: bytes)
  | WithdrawTransition (tr_TransitionType: int) (tr_StateRoot: bytes) (tr_AccountSlotIndex: int)
      (tr_TokenIndex: int) (tr_Amount: int) (tr_Nonce: int) (tr_Signature: bytes)
  | CreateAndTransferTransition (tr_TransitionType: int) (tr_StateRoot: bytes)
      (tr_SenderSlotIndex: int) (tr_RecipientSlotIndex: int) (tr_Recipient: bytes)
      (tr_TokenIndex: int) (tr_Amount: int) (tr_Nonce: int) (tr_Signature: bytes)
  | TransferTransition (tr_TransitionType: int) (tr_StateRoot: bytes) (tr_SenderSlotIndex: int)
      (tr_RecipientSlotIndex: int) (tr_TokenIndex: int) (tr_Amount: int) (tr_Nonce: int)
      (tr_Signature: bytes)

fun GetTransitionType :: "Transition \<Rightarrow> TransitionType" where
  "GetTransitionType (CreateAndDepositTransition _ _ _ _ _ _ _) = TransitionTypeCreateAndDeposit"
| "GetTransitionType (DepositTransition _ _ _ _ _ _) = TransitionTypeDeposit"
| "GetTransitionType (WithdrawTransition _ _ _ _ _ _ _) = TransitionTypeWithdraw"
| "GetTransitionType (CreateAndTransferTransition _ _ _ _ _ _ _ _ _) = TransitionTypeCreateAndTransfer"
| "GetTransitionType (TransferTransition _ _ _ _ _ _ _ _) = TransitionTypeTransfer"

text \<open>Each transition type has its own \<^verbatim>\<open>Serialize\<close>; a call dispatches on the dynamic type.\<close>

definition SerializeCreateAndDepositTransition ::
  "serializer \<Rightarrow> int \<Rightarrow> bytes \<Rightarrow> int \<Rightarrow> bytes \<Rightarrow> int \<Rightarrow> int \<Rightarrow> bytes \<Rightarrow> bytes outcome" where
  [simp]: "SerializeCreateAndDepositTransition s ty sr slot acct tok amt sig =
     (let stateRoot = copyN 32 sr
      in Pack (codec s) (createAndDepositTransitionArguments s)
           [VUint ty, VBytes32 stateRoot, VUint slot, VAddress acct, VUint tok, VUint amt, VBytes sig])"

definition SerializeDepositTransition ::
  "serializer \<Rightarrow> int \<Rightarrow> bytes \<Rightarrow> int \<Rightarrow> int \<Rightarrow> int \<Rightarrow> bytes \<Rightarrow> bytes outcome" where
  [simp]: "SerializeDepositTransition s ty sr slot tok amt sig =
     (let stateRoot = copyN 32 sr
      in Pack (codec s) (depositTransitionArguments s)
           [VUint ty, VBytes32 stateRoot, VUint slot, VUint tok, VUint amt, VBytes sig])"

definition SerializeWithdrawTransition ::
  "serializer \<Rightarrow> int \<Rightarrow> bytes \<Rightarrow> int \<Rightarrow> int \<Rightarrow> int \<Rightarrow> int \<Rightarrow> bytes \<Rightarrow> bytes outcome" where
  [simp]: "SerializeWithdrawTransition s ty sr slot tok amt nonce sig =
     (let stateRoot = copyN 32 sr
      in Pack (codec s) (withdrawTransitionArguments s)
           [VUint ty, VBytes32 stateRoot, VUint slot, VUint tok, VUint amt, VUint nonce, VBytes sig])"

definition SerializeCreateAndTransferTransition ::
  "serializer \<Rightarrow> int \<Rightarrow> bytes \<Rightarrow> int \<Rightarrow> int \<Rightarrow> bytes \<Rightarrow> int \<Rightarrow> int \<Rightarrow> int \<Rightarrow> bytes \<Rightarrow> bytes outcome" where
  [simp]: "SerializeCreateAndTransferTransition s ty sr sndr rcpt addr tok amt nonce sig =
     (let stateRoot = copyN 32 sr
      in Pack (codec s) (createAndTransferTransitionArguments s)
           [VUint ty, VBytes32 stateRoot, VUint sndr, VUint rcpt, VAddress addr, VUint tok, VUint amt,
            VUint nonce, VBytes sig])"

definition SerializeTransferTransition ::
  "serializer \<Rightarrow> int \<Rightarrow> bytes \<Rightarrow> int \<Rightarrow> int \<Rightarrow> int \<Rightarrow> int \<Rightarrow> int \<Rightarrow> bytes \<Rightarrow> bytes outcome" where
  [simp]: "SerializeTransferTransition s ty sr sndr rcpt tok amt nonce sig =
     (let stateRoot = copyN 32 sr
      in Pack (codec s) (transferTransitionArguments s)
           [VUint ty, VBytes32 stateRoot, VUint sndr, VUint rcpt, VUint tok, VUint amt, VUint nonce,
            VBytes sig])"

fun SerializeTransition :: "serializer \<Rightarrow> Transition \<Rightarrow> bytes outcome" where
  "SerializeTransition s (CreateAndDepositTransition ty sr slot acct tok amt sig) =
     SerializeCreateAndDepositTransition s ty sr slot acct tok amt sig"
| "SerializeTransition s (DepositTransition ty sr slot tok amt sig) =
     SerializeDepositTransition s ty sr slot tok amt sig"
| "SerializeTransition s (WithdrawTransition ty sr slot tok amt nonce sig) =
     SerializeWithdrawTransition s ty sr slot tok amt nonce sig"
| "SerializeTransition s (CreateAndTransferTransition ty sr sndr rcpt addr tok amt nonce sig) =
     SerializeCreateAndTransferTransition s ty sr sndr rcpt addr tok amt nonce sig"
| "SerializeTransition s (TransferTransition ty sr sndr rcpt tok amt nonce sig) =
     SerializeTransferTransition s ty sr sndr rcpt tok amt nonce sig"

definition DeserializeCreateAndDepositTransition :: "serializer \<Rightarrow> bytes \<Rightarrow> Transition outcome" where
  "DeserializeCreateAndDepositTransition s data =
     wrapErr ''Deserialize CreateAndDepositTransition''
       (bindO (unpackStruct (codec s) (createAndDepositTransitionArguments s)
           [''TransitionType'', ''StateRoot'', ''AccountSlotIndex'', ''Account'', ''TokenIndex'', ''Amount'', ''Signature''] data) (\<lambda>vs. case vs of
          [VUint ty, VBytes32 sr, VUint slot, VAddress acct, VUint tok, VUint amt, VBytes sig] \<Rightarrow>
            Ok (CreateAndDepositTransition ty sr slot acct tok amt sig)
        | _ \<Rightarrow> unmarshalErr))"

definition DeserializeDepositTransition :: "serializer \<Rightarrow> bytes \<Rightarrow> Transition outcome" where
  "DeserializeDepositTransition s data =
     wrapErr ''Deserialize DepositTransition''
       (bindO (unpackStruct (codec s) (depositTransitionArguments s)
           [''TransitionType'', ''StateRoot'', ''AccountSlotIndex'', ''TokenIndex'', ''Amount'', ''Signature''] data) (\<lambda>vs. case vs of
          [VUint ty, VBytes32 sr, VUint slot, VUint tok, VUint amt, VBytes sig] \<Rightarrow>
            Ok (DepositTransition ty sr slot tok amt sig)
        | _ \<Rightarrow> unmarshalErr))"

definition DeserializeWithdrawTransition :: "serializer \<Rightarrow> bytes \<Rightarrow> Transition outcome" where
  "DeserializeWithdrawTransition s data =
     wrapErr ''Deserialize WithdrawTransition''
       (bindO (unpackStruct (codec s) (withdrawTransitionArguments s)
           [''TransitionType'', ''StateRoot'', ''AccountSlotIndex'', ''TokenIndex'', ''Amount'', ''Nonce'', ''Signature''] data) (\<lambda>vs. case vs of
          [VUint ty, VBytes32 sr, VUint slot, VUint tok, VUint amt, VUint nonce, VBytes sig] \<Rightarrow>
            Ok (WithdrawTransition ty sr slot tok amt nonce sig)
        | _ \<Rightarrow> unmarshalErr))"

definition DeserializeCreateAndTransferTransition :: "serializer \<Rightarrow> bytes \<Rightarrow> Transition outcome" where
  "DeserializeCreateAndTransferTransition s data =
     wrapErr ''Deserialize CreateAndTransferTransition''
       (bindO (unpackStruct (codec s) (createAndTransferTransitionArguments s)
           [''TransitionType'', ''StateRoot'', ''SenderSlotIndex'', ''RecipientSlotIndex'', ''Recipient'', ''TokenIndex'', ''Amount'', ''Nonce'', ''Signature''] data) (\<lambda>vs. case vs of
          [VUint ty, VBytes32 sr, VUint sndr, VUint rcpt, VAddress addr, VUint tok, VUint amt, VUint nonce,
           VBytes sig] \<Rightarrow>
            Ok (CreateAndTransferTransition ty sr sndr rcpt addr tok amt nonce sig)
        | _ \<Rightarrow> unmarshalErr))"

definition DeserializeTransferTransition :: "serializer \<Rightarrow> bytes \<Rightarrow> Transition outcome" where
  "DeserializeTransferTransition s data =
     wrapErr ''Deserialize TransferTransition''
       (bindO (unpackStruct (codec s) (transferTransitionArguments s)
           [''TransitionType'', ''StateRoot'', ''SenderSlotIndex'', ''RecipientSlotIndex'', ''TokenIndex'', ''Amount'', ''Nonce'', ''Signature''] data) (\<lambda>vs. case vs of
          [VUint ty, VBytes32 sr, VUint sndr, VUint rcpt, VUint tok, VUint amt, VUint nonce, VBytes sig] \<Rightarrow>
            Ok (TransferTransition ty sr sndr rcpt tok amt nonce sig)
        | _ \<Rightarrow> unmarshalErr))"

text \<open>The type is read from the low 64 bits of the first word; a short input panics.\<close>

definition DeserializeTransition :: "serializer \<Rightarrow> bytes \<Rightarrow> Transition outcome" where
  "DeserializeTransition s data =
     (if length data < 32 then Panic SliceBoundsOutOfRange
      else let transitionType = goInt (bigUint64 (int (setBytes (take 32 data))))
        in if transitionType = transitionCode TransitionTypeCreateAndDeposit
           then DeserializeCreateAndDepositTransition s data
           else if transitionType = transitionCode TransitionTypeDeposit
           then DeserializeDepositTransition s data
           else if transitionType = transitionCode TransitionTypeWithdraw
           then DeserializeWithdrawTransition s data
           else if transitionType = transitionCode TransitionTypeCreateAndTransfer
           then DeserializeCreateAndTransferTransition s data
           else if transitionType = transitionCode TransitionTypeTransfer
           then DeserializeTransferTransition s data
           else Err (ErrUnknownTransitionType transitionType))"

section \<open>Blocks\<close>

record RollupBlock =
  BlockNumber :: u64
  Transitions :: "Transition list"

definition NewRollupBlock :: "u64 \<Rightarrow> RollupBlock" where
  "NewRollupBlock blockNumber = \<lparr>BlockNumber = blockNumber, Transitions = []\<rparr>"

definition rollupBlockArguments :: "serializer \<Rightarrow> arguments" where
  "rollupBlockArguments s =
     [(''blockNumber'', uint256Ty (registry s)), (''transitions'', bytesSliceTy (registry s))]"

definition DeserializeRollupBlockFromFields :: "serializer \<Rightarrow> u64 \<Rightarrow> bytes list \<Rightarrow> RollupBlock outcome" where
  "DeserializeRollupBlockFromFields s blockNumber rawTransitions =
     bindO (mapO (DeserializeTransition s) rawTransitions) (\<lambda>transitions.
     Ok \<lparr>BlockNumber = blockNumber, Transitions = transitions\<rparr>)"

definition DeserializeRollupBlockFromData :: "serializer \<Rightarrow> bytes \<Rightarrow> RollupBlock outcome" where
  "DeserializeRollupBlockFromData s data =
     bindO (wrapErr ''Deserialize RollupBlock''
       (bindO (unpackStruct (codec s) (rollupBlockArguments s) [''BlockNumber'', ''Transitions''] data) (\<lambda>vs. case vs of
          [VUint n, VBytesSlice ts] \<Rightarrow> Ok (n, ts)
        | _ \<Rightarrow> unmarshalErr))) (\<lambda>(n, ts).
     DeserializeRollupBlockFromFields s (bigUint64 n) ts)"

definition EncodeBlock :: "serializer \<Rightarrow> int \<Rightarrow> bytes list \<Rightarrow> bytes outcome" where
  "EncodeBlock s blockNumber serializedTransitions =
     Pack (codec s) (rollupBlockArguments s) [VUint blockNumber, VBytesSlice serializedTransitions]"

definition SerializeRollupBlock :: "serializer \<Rightarrow> RollupBlock \<Rightarrow> (bytes list \<times> bytes) outcome" where
  "SerializeRollupBlock s block =
     bindO (mapO (SerializeTransition s) (Transitions block)) (\<lambda>serializedTransitions.
     bindO (EncodeBlock s (uint (BlockNumber block)) serializedTransitions) (\<lambda>encodedBlock.
     Ok (serializedTransitions, encodedBlock)))"

section \<open>State updates, snapshots and fraud proofs\<close>

record AccountInfoUpdate =
  upd_Info :: AccountInfo
  upd_NewAccount :: bool

type_synonym InclusionProof = "bytes list"

record StateUpdateEntry =
  ent_SlotIndex :: int
  ent_InclusionProof :: InclusionProof
  ent_AccountInfo :: AccountInfo
  ent_NewAccount :: bool

record StateUpdate =
  su_Transaction :: Transaction
  su_StateRoot :: bytes
  su_Entries :: "StateUpdateEntry list"

record StateSnapshot =
  snap_SlotIndex :: int
  snap_AccountInfo :: AccountInfo
  snap_StateRoot :: bytes
  snap_InclusionProof :: InclusionProof

record TransitionPosition =
  pos_BlockNumber :: u64
  pos_TransitionIndex :: u64

text \<open>A \<^verbatim>\<open>nil\<close> snapshot stands for an account that did not exist before.\<close>

record LocalFraudProof =
  fp_Position :: TransitionPosition
  fp_Inputs :: "StateSnapshot option list"
  fp_Transition :: Transition

text \<open>
  The ABI types of what a fraud proof carries. \<^verbatim>\<open>createTransitionInclusionProofType\<close> and its
  neighbours take the registry and do not use it. The marshaling of the siblings says
  \<^verbatim>\<open>bytes32\<close> where the field is a list of words.
\<close>

record StorageSlot =
  slot_SlotIndex :: int
  slot_AccountInfo :: AccountInfo

definition createStorageSlotType :: "abi \<Rightarrow> typeRegistry \<Rightarrow> abi_type outcome" where
  "createStorageSlotType A r =
     NewType A ''tuple''
       [Marshaling ''slotIndex'' ''uint256'' [],
        Marshaling ''accountInfo'' ''tuple'' createAccountInfoArgumentMarshaling]"

definition SerializeStorageSlot :: "serializer \<Rightarrow> StorageSlot \<Rightarrow> bytes outcome" where
  "SerializeStorageSlot s slot =
     (let info = slot_AccountInfo slot
      in wrapErr ''Serialize StorageSlot''
           (Pack (codec s) (storageSlotArguments s)
              [VUint (slot_SlotIndex slot),
               VTuple [VAddress (Account info), VUintSlice (Balances info),
                 VUintSlice (TransferNonces info), VUintSlice (WithdrawNonces info)]]))"

definition createIncludedStorageSlotArguments :: "abi \<Rightarrow> typeRegistry \<Rightarrow> arguments outcome" where
  "createIncludedStorageSlotArguments A r =
     bindO (createStorageSlotType A r) (\<lambda>storageSlotType.
     Ok [(''storageSlot'', storageSlotType), (''siblings'', bytes32SliceTy r)])"

definition createTransitionInclusionProofArgumentMarshaling :: "marshaling list" where
  "createTransitionInclusionProofArgumentMarshaling =
     [Marshaling ''blockNumber'' ''uint256'' [], Marshaling ''transitionIndex'' ''uint256'' [],
      Marshaling ''siblings'' ''bytes32'' []]"

definition createTransitionInclusionProofType :: "abi \<Rightarrow> typeRegistry \<Rightarrow> abi_type outcome" where
  "createTransitionInclusionProofType A r =
     NewType A ''tuple'' createTransitionInclusionProofArgumentMarshaling"

definition createIncludedTransitionType :: "abi \<Rightarrow> typeRegistry \<Rightarrow> abi_type outcome" where
  "createIncludedTransitionType A r =
     NewType A ''tuple''
       [Marshaling ''transition'' ''bytes'' [],
        Marshaling ''inclusionProof'' ''tuple'' createTransitionInclusionProofArgumentMarshaling]"

definition ConvertToInclusionProof :: "bytes list \<Rightarrow> InclusionProof" where
  "ConvertToInclusionProof data = map (copyN 32) data"

section \<open>A serializer over a codec that keeps its promises\<close>

definition serializer_ok :: "serializer \<Rightarrow> bool" where
  "serializer_ok s \<longleftrightarrow> abi_ok (codec s) \<and> NewSerializer (codec s) = Ok s"

lemma newTypeRegistry_ok:
  "abi_ok A \<Longrightarrow> newTypeRegistry A =
     Ok \<lparr>addressTy = AddressTy, bytesTy = BytesTy, bytesSliceTy = BytesSliceTy,
         bytes32Ty = Bytes32Ty, bytes32SliceTy = Bytes32SliceTy, uint256Ty = Uint256Ty,
         uint256SliceTy = Uint256SliceTy\<rparr>"
  by (simp add: newTypeRegistry_def abi_ok_def)

lemmas argument_defs =
  createAccountInfoArguments_def createCreateAndDepositTransitionArguments_def
  createDepositTransitionArguments_def createWithdrawTransitionArguments_def
  createCreateAndTransferTransitionArguments_def createTransferTransitionArguments_def
  rollupBlockArguments_def

lemma NewSerializer_ok:
  assumes "abi_ok A"
  shows "\<exists>s. NewSerializer A = Ok s \<and> codec s = A \<and> serializer_ok s"
proof -
  have "\<exists>s. NewSerializer A = Ok s \<and> codec s = A"
    using assms by (simp add: NewSerializer_def newTypeRegistry_ok createStorageSlotArguments_def
        createAccountInfoType_def) (simp add: abi_ok_def)
  then show ?thesis using assms by (auto simp: serializer_ok_def)
qed

lemma NewSerializer_arguments:
  assumes "abi_ok A" and "NewSerializer A = Ok s"
  shows "map snd (accountInfoArguments s) = [AddressTy, Uint256SliceTy, Uint256SliceTy, Uint256SliceTy]"
    "map snd (createAndDepositTransitionArguments s) =
       [Uint256Ty, Bytes32Ty, Uint256Ty, AddressTy, Uint256Ty, Uint256Ty, BytesTy]"
    "map snd (depositTransitionArguments s) =
       [Uint256Ty, Bytes32Ty, Uint256Ty, Uint256Ty, Uint256Ty, BytesTy]"
    "map snd (withdrawTransitionArguments s) =
       [Uint256Ty, Bytes32Ty, Uint256Ty, Uint256Ty, Uint256Ty, Uint256Ty, BytesTy]"
    "map snd (createAndTransferTransitionArguments s) =
       [Uint256Ty, Bytes32Ty, Uint256Ty, Uint256Ty, AddressTy, Uint256Ty, Uint256Ty, Uint256Ty, BytesTy]"
    "map snd (transferTransitionArguments s) =
       [Uint256Ty, Bytes32Ty, Uint256Ty, Uint256Ty, Uint256Ty, Uint256Ty, Uint256Ty, BytesTy]"
    "map snd (rollupBlockArguments s) = [Uint256Ty, BytesSliceTy]"
  using assms by (auto simp: NewSerializer_def newTypeRegistry_ok bindO_eq_Ok argument_defs)

lemma abi_ok_names:
  assumes "abi_ok A"
  shows "ToCamelCase A ''account'' = ''Account''"
    "ToCamelCase A ''balances'' = ''Balances''"
    "ToCamelCase A ''transferNonces'' = ''TransferNonces''"
    "ToCamelCase A ''withdrawNonces'' = ''WithdrawNonces''"
    "ToCamelCase A ''transitionType'' = ''TransitionType''"
    "ToCamelCase A ''stateRoot'' = ''StateRoot''"
    "ToCamelCase A ''accountSlotIndex'' = ''AccountSlotIndex''"
    "ToCamelCase A ''senderSlotIndex'' = ''SenderSlotIndex''"
    "ToCamelCase A ''recipientSlotIndex'' = ''RecipientSlotIndex''"
    "ToCamelCase A ''recipient'' = ''Recipient''"
    "ToCamelCase A ''tokenIndex'' = ''TokenIndex''"
    "ToCamelCase A ''amount'' = ''Amount''"
    "ToCamelCase A ''nonce'' = ''Nonce''"
    "ToCamelCase A ''signature'' = ''Signature''"
    "ToCamelCase A ''blockNumber'' = ''BlockNumber''"
    "ToCamelCase A ''transitions'' = ''Transitions''"
proof -
  have "list_all (\<lambda>(name, field). ToCamelCase A name = field) goNames" using assms unfolding abi_ok_def by blast
  then show "ToCamelCase A ''account'' = ''Account''"
    "ToCamelCase A ''balances'' = ''Balances''"
    "ToCamelCase A ''transferNonces'' = ''TransferNonces''"
    "ToCamelCase A ''withdrawNonces'' = ''WithdrawNonces''"
    "ToCamelCase A ''transitionType'' = ''TransitionType''"
    "ToCamelCase A ''stateRoot'' = ''StateRoot''"
    "ToCamelCase A ''accountSlotIndex'' = ''AccountSlotIndex''"
    "ToCamelCase A ''senderSlotIndex'' = ''SenderSlotIndex''"
    "ToCamelCase A ''recipientSlotIndex'' = ''RecipientSlotIndex''"
    "ToCamelCase A ''recipient'' = ''Recipient''"
    "ToCamelCase A ''tokenIndex'' = ''TokenIndex''"
    "ToCamelCase A ''amount'' = ''Amount''"
    "ToCamelCase A ''nonce'' = ''Nonce''"
    "ToCamelCase A ''signature'' = ''Signature''"
    "ToCamelCase A ''blockNumber'' = ''BlockNumber''"
    "ToCamelCase A ''transitions'' = ''Transitions''"
    unfolding goNames_def list.pred_inject prod.case by blast+
qed

lemma NewSerializer_registry:
  assumes "NewSerializer A = Ok s"
  shows "accountInfoArguments s = createAccountInfoArguments (registry s)"
    "createAndDepositTransitionArguments s = createCreateAndDepositTransitionArguments (registry s)"
    "depositTransitionArguments s = createDepositTransitionArguments (registry s)"
    "withdrawTransitionArguments s = createWithdrawTransitionArguments (registry s)"
    "createAndTransferTransitionArguments s = createCreateAndTransferTransitionArguments (registry s)"
    "transferTransitionArguments s = createTransferTransitionArguments (registry s)"
  using assms by (auto simp: NewSerializer_def bindO_eq_Ok)

lemma NewSerializer_fields:
  assumes "abi_ok A" and "NewSerializer A = Ok s"
  shows "map (\<lambda>a. ToCamelCase A (fst a)) (accountInfoArguments s) =
       [''Account'', ''Balances'', ''TransferNonces'', ''WithdrawNonces'']"
    "map (\<lambda>a. ToCamelCase A (fst a)) (createAndDepositTransitionArguments s) =
       [''TransitionType'', ''StateRoot'', ''AccountSlotIndex'', ''Account'', ''TokenIndex'', ''Amount'', ''Signature'']"
    "map (\<lambda>a. ToCamelCase A (fst a)) (depositTransitionArguments s) =
       [''TransitionType'', ''StateRoot'', ''AccountSlotIndex'', ''TokenIndex'', ''Amount'', ''Signature'']"
    "map (\<lambda>a. ToCamelCase A (fst a)) (withdrawTransitionArguments s) =
       [''TransitionType'', ''StateRoot'', ''AccountSlotIndex'', ''TokenIndex'', ''Amount'', ''Nonce'', ''Signature'']"
    "map (\<lambda>a. ToCamelCase A (fst a)) (createAndTransferTransitionArguments s) =
       [''TransitionType'', ''StateRoot'', ''SenderSlotIndex'', ''RecipientSlotIndex'', ''Recipient'', ''TokenIndex'', ''Amount'', ''Nonce'', ''Signature'']"
    "map (\<lambda>a. ToCamelCase A (fst a)) (transferTransitionArguments s) =
       [''TransitionType'', ''StateRoot'', ''SenderSlotIndex'', ''RecipientSlotIndex'', ''TokenIndex'', ''Amount'', ''Nonce'', ''Signature'']"
    "map (\<lambda>a. ToCamelCase A (fst a)) (rollupBlockArguments s) = [''BlockNumber'', ''Transitions'']"
  by (simp_all add: NewSerializer_registry [OF assms(2)] argument_defs abi_ok_names [OF assms(1)])

lemma serializer_okD:
  assumes "serializer_ok s"
  shows "abi_ok (codec s)" and "NewSerializer (codec s) = Ok s"
  using assms by (simp_all add: serializer_ok_def)

lemmas serializer_ok_arguments = NewSerializer_arguments [OF serializer_okD]
lemmas serializer_ok_fields = NewSerializer_fields [OF serializer_okD]

lemma fits_map:
  "list_all2 (\<lambda>a v. abi_fits (snd a) v) args vs \<longleftrightarrow> list_all2 abi_fits (map snd args) vs"
  by (simp add: list_all2_map1)

text \<open>
  Packing values that fit succeeds, and unpacking into a struct whose fields the arguments name
  in this order gives them back.
\<close>

lemma unpackStruct_Ok:
  assumes "Unpack A args data = Ok vs" and "map (\<lambda>a. ToCamelCase A (fst a)) args = fs"
    and "length fs = length vs" and "distinct fs"
  shows "unpackStruct A args fs data = Ok vs"
proof -
  have "mapO (\<lambda>f. case map_of (zip fs vs) f of None \<Rightarrow> unmarshalErr | Some v \<Rightarrow> Ok v) fs =
      Ok (map (\<lambda>f. the (map_of (zip fs vs) f)) fs)"
    using assms(3) by (intro mapO_all_Ok) (auto split: option.splits simp: map_of_zip_is_None)
  also have "map (\<lambda>f. the (map_of (zip fs vs) f)) fs = vs"
    using assms(3,4) by (intro nth_equalityI) (simp_all add: map_of_zip_nth)
  finally show ?thesis using assms(1,2) by (simp add: unpackStruct_def)
qed

lemma Pack_fits:
  assumes "serializer_ok s" and "map snd args = tys" and "list_all2 abi_fits tys vs"
    and "map (\<lambda>a. ToCamelCase (codec s) (fst a)) args = fs" and "distinct fs"
  obtains data where "Pack (codec s) args vs = Ok data" and "unpackStruct (codec s) args fs data = Ok vs"
    and "\<And>n. vs \<noteq> [] \<Longrightarrow> hd vs = VUint n \<Longrightarrow> 32 \<le> length data \<and> setBytes (take 32 data) = nat n"
proof -
  have "list_all2 (\<lambda>a v. abi_fits (snd a) v) args vs" using assms(2,3) by (simp add: fits_map)
  from abi_ok_Pack [OF serializer_okD(1) [OF assms(1)] this] obtain data where
    P: "Pack (codec s) args vs = Ok data" "Unpack (codec s) args data = Ok vs"
      "\<And>n. vs \<noteq> [] \<Longrightarrow> hd vs = VUint n \<Longrightarrow> 32 \<le> length data \<and> setBytes (take 32 data) = nat n" by blast
  have "length fs = length vs" using assms(2-4) by (metis length_map list_all2_lengthD)
  with P unpackStruct_Ok [OF P(2) assms(4) _ assms(5)] that show ?thesis by blast
qed

section \<open>Round trips\<close>

definition uint256 :: "int \<Rightarrow> bool" where
  "uint256 n \<longleftrightarrow> 0 \<le> n \<and> n < 2 ^ 256"

definition account_fits :: "AccountInfo \<Rightarrow> bool" where
  "account_fits info \<longleftrightarrow> length (Account info) = 20 \<and> list_all uint256 (Balances info) \<and>
     list_all uint256 (TransferNonces info) \<and> list_all uint256 (WithdrawNonces info)"

lemma account_roundtrip:
  assumes "serializer_ok s" and "account_fits info"
  shows "\<exists>data. SerializeAccountInfo s info = Ok data \<and> DeserializeAccountInfo s data = Ok info"
proof -
  let ?vs = "[VAddress (Account info), VUintSlice (Balances info),
           VUintSlice (TransferNonces info), VUintSlice (WithdrawNonces info)]"
  have "list_all2 abi_fits [AddressTy, Uint256SliceTy, Uint256SliceTy, Uint256SliceTy] ?vs"
    using assms(2) by (simp add: account_fits_def list_all_iff uint256_def)
  from Pack_fits [OF assms(1) serializer_ok_arguments(1) [OF assms(1) assms(1)] this
      serializer_ok_fields(1) [OF assms(1) assms(1)]]
  obtain data where "Pack (codec s) (accountInfoArguments s) ?vs = Ok data"
    "unpackStruct (codec s) (accountInfoArguments s)
       [''Account'', ''Balances'', ''TransferNonces'', ''WithdrawNonces''] data = Ok ?vs" by auto
  then show ?thesis by (simp add: SerializeAccountInfo_def DeserializeAccountInfo_def wrapErr_def)
qed

text \<open>A transition whose numbers fit and whose type field agrees with its Go type.\<close>

fun transition_fits :: "Transition \<Rightarrow> bool" where
  "transition_fits (CreateAndDepositTransition ty sr slot acct tok amt sig) =
     (ty = 0 \<and> length sr = 32 \<and> length acct = 20 \<and> list_all uint256 [slot, tok, amt])"
| "transition_fits (DepositTransition ty sr slot tok amt sig) =
     (ty = 1 \<and> length sr = 32 \<and> list_all uint256 [slot, tok, amt])"
| "transition_fits (WithdrawTransition ty sr slot tok amt nonce sig) =
     (ty = 2 \<and> length sr = 32 \<and> list_all uint256 [slot, tok, amt, nonce])"
| "transition_fits (CreateAndTransferTransition ty sr sndr rcpt addr tok amt nonce sig) =
     (ty = 3 \<and> length sr = 32 \<and> length addr = 20 \<and> list_all uint256 [sndr, rcpt, tok, amt, nonce])"
| "transition_fits (TransferTransition ty sr sndr rcpt tok amt nonce sig) =
     (ty = 4 \<and> length sr = 32 \<and> list_all uint256 [sndr, rcpt, tok, amt, nonce])"

lemmas deserialize_defs =
  DeserializeCreateAndDepositTransition_def DeserializeDepositTransition_def
  DeserializeWithdrawTransition_def DeserializeCreateAndTransferTransition_def
  DeserializeTransferTransition_def

text \<open>What the dispatch on the first word does for the five codes.\<close>

lemma DeserializeTransition_code:
  assumes "32 \<le> length data" and "setBytes (take 32 data) = nat c" and "c \<in> {0, 1, 2, 3, 4}"
  shows "DeserializeTransition s data =
    (if c = 0 then DeserializeCreateAndDepositTransition s data
     else if c = 1 then DeserializeDepositTransition s data
     else if c = 2 then DeserializeWithdrawTransition s data
     else if c = 3 then DeserializeCreateAndTransferTransition s data
     else DeserializeTransferTransition s data)"
  using assms by (auto simp: DeserializeTransition_def goInt_def bigUint64_def Let_def)

lemma transition_roundtrip_lemma:
  assumes "serializer_ok s" and "transition_fits t"
  shows "\<exists>data. SerializeTransition s t = Ok data \<and> DeserializeTransition s data = Ok t"
proof (cases t)
  case (CreateAndDepositTransition ty sr slot acct tok amt sig)
  let ?vs = "[VUint ty, VBytes32 sr, VUint slot, VAddress acct, VUint tok, VUint amt, VBytes sig]"
  have fits: "list_all2 abi_fits (map snd (createAndDepositTransitionArguments s)) ?vs"
    using assms(2) CreateAndDepositTransition by (simp add: serializer_ok_arguments(2) [OF assms(1) assms(1)] uint256_def)
  obtain data where data: "Pack (codec s) (createAndDepositTransitionArguments s) ?vs = Ok data"
    "unpackStruct (codec s) (createAndDepositTransitionArguments s)
       [''TransitionType'', ''StateRoot'', ''AccountSlotIndex'', ''Account'', ''TokenIndex'', ''Amount'', ''Signature''] data = Ok ?vs"
    "32 \<le> length data" "setBytes (take 32 data) = nat ty"
    using Pack_fits [OF assms(1) refl fits serializer_ok_fields(2) [OF assms(1) assms(1)]] by auto
  have "DeserializeTransition s data = Ok t"
    using assms(2) data(2) CreateAndDepositTransition
    by (simp add: DeserializeTransition_code [OF data(3,4)] deserialize_defs wrapErr_def)
  with data(1) CreateAndDepositTransition assms(2) show ?thesis by auto
next
  case (DepositTransition ty sr slot tok amt sig)
  let ?vs = "[VUint ty, VBytes32 sr, VUint slot, VUint tok, VUint amt, VBytes sig]"
  have fits: "list_all2 abi_fits (map snd (depositTransitionArguments s)) ?vs"
    using assms(2) DepositTransition by (simp add: serializer_ok_arguments(3) [OF assms(1) assms(1)] uint256_def)
  obtain data where data: "Pack (codec s) (depositTransitionArguments s) ?vs = Ok data"
    "unpackStruct (codec s) (depositTransitionArguments s)
       [''TransitionType'', ''StateRoot'', ''AccountSlotIndex'', ''TokenIndex'', ''Amount'', ''Signature''] data = Ok ?vs"
    "32 \<le> length data" "setBytes (take 32 data) = nat ty"
    using Pack_fits [OF assms(1) refl fits serializer_ok_fields(3) [OF assms(1) assms(1)]] by auto
  have "DeserializeTransition s data = Ok t"
    using assms(2) data(2) DepositTransition
    by (simp add: DeserializeTransition_code [OF data(3,4)] deserialize_defs wrapErr_def)
  with data(1) DepositTransition assms(2) show ?thesis by auto
next
  case (WithdrawTransition ty sr slot tok amt nonce sig)
  let ?vs = "[VUint ty, VBytes32 sr, VUint slot, VUint tok, VUint amt, VUint nonce, VBytes sig]"
  have fits: "list_all2 abi_fits (map snd (withdrawTransitionArguments s)) ?vs"
    using assms(2) WithdrawTransition by (simp add: serializer_ok_arguments(4) [OF assms(1) assms(1)] uint256_def)
  obtain data where data: "Pack (codec s) (withdrawTransitionArguments s) ?vs = Ok data"
    "unpackStruct (codec s) (withdrawTransitionArguments s)
       [''TransitionType'', ''StateRoot'', ''AccountSlotIndex'', ''TokenIndex'', ''Amount'', ''Nonce'', ''Signature''] data = Ok ?vs"
    "32 \<le> length data" "setBytes (take 32 data) = nat ty"
    using Pack_fits [OF assms(1) refl fits serializer_ok_fields(4) [OF assms(1) assms(1)]] by auto
  have "DeserializeTransition s data = Ok t"
    using assms(2) data(2) WithdrawTransition
    by (simp add: DeserializeTransition_code [OF data(3,4)] deserialize_defs wrapErr_def)
  with data(1) WithdrawTransition assms(2) show ?thesis by auto
next
  case (CreateAndTransferTransition ty sr sndr rcpt addr tok amt nonce sig)
  let ?vs = "[VUint ty, VBytes32 sr, VUint sndr, VUint rcpt, VAddress addr, VUint tok, VUint amt,
      VUint nonce, VBytes sig]"
  have fits: "list_all2 abi_fits (map snd (createAndTransferTransitionArguments s)) ?vs"
    using assms(2) CreateAndTransferTransition by (simp add: serializer_ok_arguments(5) [OF assms(1) assms(1)] uint256_def)
  obtain data where data: "Pack (codec s) (createAndTransferTransitionArguments s) ?vs = Ok data"
    "unpackStruct (codec s) (createAndTransferTransitionArguments s)
       [''TransitionType'', ''StateRoot'', ''SenderSlotIndex'', ''RecipientSlotIndex'', ''Recipient'', ''TokenIndex'', ''Amount'', ''Nonce'', ''Signature''] data = Ok ?vs"
    "32 \<le> length data" "setBytes (take 32 data) = nat ty"
    using Pack_fits [OF assms(1) refl fits serializer_ok_fields(5) [OF assms(1) assms(1)]] by auto
  have "DeserializeTransition s data = Ok t"
    using assms(2) data(2) CreateAndTransferTransition
    by (simp add: DeserializeTransition_code [OF data(3,4)] deserialize_defs wrapErr_def)
  with data(1) CreateAndTransferTransition assms(2) show ?thesis by auto
next
  case (TransferTransition ty sr sndr rcpt tok amt nonce sig)
  let ?vs = "[VUint ty, VBytes32 sr, VUint sndr, VUint rcpt, VUint tok, VUint amt, VUint nonce,
      VBytes sig]"
  have fits: "list_all2 abi_fits (map snd (transferTransitionArguments s)) ?vs"
    using assms(2) TransferTransition by (simp add: serializer_ok_arguments(6) [OF assms(1) assms(1)] uint256_def)
  obtain data where data: "Pack (codec s) (transferTransitionArguments s) ?vs = Ok data"
    "unpackStruct (codec s) (transferTransitionArguments s)
       [''TransitionType'', ''StateRoot'', ''SenderSlotIndex'', ''RecipientSlotIndex'', ''TokenIndex'', ''Amount'', ''Nonce'', ''Signature''] data = Ok ?vs"
    "32 \<le> length data" "setBytes (take 32 data) = nat ty"
    using Pack_fits [OF assms(1) refl fits serializer_ok_fields(6) [OF assms(1) assms(1)]] by auto
  have "DeserializeTransition s data = Ok t"
    using assms(2) data(2) TransferTransition
    by (simp add: DeserializeTransition_code [OF data(3,4)] deserialize_defs wrapErr_def)
  with data(1) TransferTransition assms(2) show ?thesis by auto
qed

lemma transitions_roundtrip:
  assumes "serializer_ok s" and "list_all transition_fits ts"
  shows "\<exists>raw. mapO (SerializeTransition s) ts = Ok raw \<and> mapO (DeserializeTransition s) raw = Ok ts"
  using assms(2)
proof (induction ts)
  case (Cons t ts)
  then obtain raw data where "mapO (SerializeTransition s) ts = Ok raw"
    "mapO (DeserializeTransition s) raw = Ok ts" "SerializeTransition s t = Ok data"
    "DeserializeTransition s data = Ok t"
    using transition_roundtrip_lemma [OF assms(1), of t] by auto
  then show ?case by simp
qed simp

lemma bigUint64_uint [simp]: "bigUint64 (uint n) = n"
  by (simp add: bigUint64_def)

lemma block_roundtrip_lemma:
  assumes "serializer_ok s" and "list_all transition_fits (Transitions b)"
  shows "\<exists>raw data. SerializeRollupBlock s b = Ok (raw, data) \<and>
    DeserializeRollupBlockFromData s data = Ok b \<and>
    DeserializeRollupBlockFromFields s (BlockNumber b) raw = Ok b"
proof -
  obtain raw where raw: "mapO (SerializeTransition s) (Transitions b) = Ok raw"
    "mapO (DeserializeTransition s) raw = Ok (Transitions b)"
    using transitions_roundtrip [OF assms] by blast
  let ?vs = "[VUint (uint (BlockNumber b)), VBytesSlice raw]"
  have "uint (BlockNumber b) < 2 ^ 64" using uint_lt2p [of "BlockNumber b"] by simp
  then have "list_all2 abi_fits [Uint256Ty, BytesSliceTy] ?vs" by simp
  from Pack_fits [OF assms(1) serializer_ok_arguments(7) [OF assms(1) assms(1)] this
      serializer_ok_fields(7) [OF assms(1) assms(1)]]
  obtain data where "Pack (codec s) (rollupBlockArguments s) ?vs = Ok data"
    "unpackStruct (codec s) (rollupBlockArguments s) [''BlockNumber'', ''Transitions''] data = Ok ?vs" by auto
  then show ?thesis
    using raw by (simp add: SerializeRollupBlock_def DeserializeRollupBlockFromData_def EncodeBlock_def
        DeserializeRollupBlockFromFields_def wrapErr_def)
qed

end
