(* ===== verification/State_Machine.thy ===== *)
theory State_Machine
  imports Merkle_Refinement Rollup_Types
begin

text \<open>
  \<^verbatim>\<open>statemachine/state_machine.go\<close>: accounts are kept twice, serialised in the database
  under a sequential key and as leaves of the state tree. The struct's database and tree are
  the record \<open>sm\<close>; its serializer, the database methods and the hasher are arguments. A
  handler returns its result and the state it has reached, also on the error paths.
\<close>

section \<open>State\<close>

record 'd sm =
  smDb :: 'd
  smTree :: smt

definition stateTreeHeight :: int where
  "stateTreeHeight = 160"

definition NewStateMachine ::
  "('d, 't, 'b) DB \<Rightarrow> hasher \<Rightarrow> 'd \<Rightarrow> 'd sm outcome \<times> 'd" where
  "NewStateMachine I H d =
     thenS (NewSparseMerkleTree I H d (Some NamespaceStateTrie) None stateTreeHeight False)
       (\<lambda>tree d. (Ok \<lparr>smDb = d, smTree = tree\<rparr>, d))"

text \<open>\<^verbatim>\<open>errors.Is\<close> follows the chain of wrapped errors.\<close>

fun errorsIs :: "error \<Rightarrow> error \<Rightarrow> bool" where
  "errorsIs (ErrWrap msg e) target = (ErrWrap msg e = target \<or> errorsIs e target)"
| "errorsIs e target = (e = target)"

section \<open>Accounts in the database\<close>

definition getAccountInfo :: "('d, 't, 'b) DB \<Rightarrow> serializer \<Rightarrow> 'd sm \<Rightarrow> bytes \<Rightarrow> AccountInfo outcome" where
  "getAccountInfo I ser sm address =
     bindO (db_Get I (smDb sm) (Some NamespaceAccountAddressToKey) address) (\<lambda>r. case r of
       None \<Rightarrow> Err ErrAccountNotFound
     | Some key \<Rightarrow>
         bindO (db_Get I (smDb sm) (Some NamespaceKeyToAccountInfo) key) (\<lambda>r. case r of
           None \<Rightarrow> Err ErrCorruptDb
         | Some data \<Rightarrow> DeserializeAccountInfo ser data))"

definition setAccountInfo ::
  "('d, 't, 'b) DB \<Rightarrow> hasher \<Rightarrow> serializer \<Rightarrow> 'd sm \<Rightarrow> bytes \<Rightarrow> AccountInfo \<Rightarrow> unit outcome \<times> 'd sm" where
  "setAccountInfo I H ser sm address info =
     thenS (SerializeAccountInfo ser info, sm) (\<lambda>data sm.
     thenS (db_Get I (smDb sm) (Some NamespaceAccountAddressToKey) address, sm) (\<lambda>r sm. case r of
       None \<Rightarrow> (Err ErrAccountNotFound, sm)
     | Some key \<Rightarrow>
         bindS (db_Set I (smDb sm) (Some NamespaceKeyToAccountInfo) key data) (\<lambda>_ d.
           case Update I H (smTree sm) d key data of
             (r, tree, d') \<Rightarrow> (bindO r (\<lambda>_. Ok ()), \<lparr>smDb = d', smTree = tree\<rparr>))
         (\<lambda>d. sm\<lparr>smDb := d\<rparr>)))"

definition getTokenIndex :: "('d, 't, 'b) DB \<Rightarrow> 'd sm \<Rightarrow> bytes \<Rightarrow> u64 outcome" where
  "getTokenIndex I sm tokenAddress =
     bindO (db_Get I (smDb sm) (Some NamespaceTokenAddressToTokenIndex) tokenAddress) (\<lambda>r. case r of
       None \<Rightarrow> Err ErrTokenNotMapped
     | Some tokenIndexBytes \<Rightarrow> Ok (bigUint64 (int (setBytes tokenIndexBytes))))"

text \<open>
  \<^verbatim>\<open>make([]*big.Int, n)\<close> panics when \<open>n\<close> pointers exceed the address space of the
  Go runtime, 2 to the 48 bytes.
\<close>

definition maxSliceLen :: nat where
  "maxSliceLen = 2 ^ 45"

text \<open>
  The error of \<^verbatim>\<open>Serialize\<close> is overwritten by the next call and its nil data is stored.
\<close>

definition createAccount ::
  "('d, 't, 'b) DB \<Rightarrow> hasher \<Rightarrow> serializer \<Rightarrow> 'd sm \<Rightarrow> bytes \<Rightarrow> u64 \<Rightarrow> AccountInfo outcome \<times> 'd sm" where
  "createAccount I H ser sm address numTokens =
     (if unat numTokens > maxSliceLen then (Panic MakeSliceLen, sm)
      else
        let balances = replicate (unat numTokens) 0;
            transferNonces = replicate (unat numTokens) 0;
            withdrawNonces = replicate (unat numTokens) 0;
            accountInfo = \<lparr>Account = address, Balances = balances,
              TransferNonces = transferNonces, WithdrawNonces = withdrawNonces\<rparr>
        in thenS (db_Get I (smDb sm) (Some NamespaceLastKey) EmptyKey, sm) (\<lambda>r sm.
           let lastKey = (case r of None \<Rightarrow> -1 | Some lastKeyBytes \<Rightarrow> int (setBytes lastKeyBytes));
               newKey = lastKey + 1;
               newKeyBytes = bigBytes newKey
           in case SerializeAccountInfo ser accountInfo of
                Panic p \<Rightarrow> (Panic p, sm)
              | serialized \<Rightarrow>
                  let data = (case serialized of Ok bs \<Rightarrow> bs | _ \<Rightarrow> []);
                      tx = db_NewTx I (smDb sm)
                  in bindS (tx_Set I tx (Some NamespaceLastKey) EmptyKey (bigBytes newKey)) (\<lambda>_ tx.
                     bindS (tx_Set I tx (Some NamespaceAccountAddressToKey) address newKeyBytes) (\<lambda>_ tx.
                     bindS (tx_Set I tx (Some NamespaceKeyToAccountInfo) newKeyBytes data) (\<lambda>_ tx.
                     bindS (tx_Commit I tx (smDb sm)) (\<lambda>_ txd.
                       case Update I H (smTree sm) (snd txd) newKeyBytes data of
                         (r, tree, d') \<Rightarrow> (bindO r (\<lambda>_. Ok accountInfo), \<lparr>smDb = d', smTree = tree\<rparr>))
                     (\<lambda>txd. sm\<lparr>smDb := snd txd\<rparr>)) (\<lambda>_. sm)) (\<lambda>_. sm)) (\<lambda>_. sm)))"

text \<open>
  The lookup at the start of \<^verbatim>\<open>applyDeposit\<close> and \<^verbatim>\<open>applyTransfer\<close>, which creates a missing
  account; when the creation fails the error returned is the lookup's.
\<close>

definition getOrCreateAccount ::
  "('d, 't, 'b) DB \<Rightarrow> hasher \<Rightarrow> serializer \<Rightarrow> 'd sm \<Rightarrow> bytes \<Rightarrow> u64 \<Rightarrow>
     (AccountInfo \<times> bool) outcome \<times> 'd sm" where
  "getOrCreateAccount I H ser sm account tokenIndex =
     (case getAccountInfo I ser sm account of
        Ok accountInfo \<Rightarrow> (Ok (accountInfo, False), sm)
      | Panic p \<Rightarrow> (Panic p, sm)
      | Err err \<Rightarrow>
          if errorsIs err ErrAccountNotFound then
            (case createAccount I H ser sm account (tokenIndex + 1) of
               (Ok accountInfo, sm') \<Rightarrow> (Ok (accountInfo, True), sm')
             | (Err createErr, sm') \<Rightarrow> (Err err, sm')
             | (Panic p, sm') \<Rightarrow> (Panic p, sm'))
          else (Err err, sm))"

fun expandLoop :: "nat \<Rightarrow> int list \<Rightarrow> int list \<Rightarrow> int list \<Rightarrow> int list \<times> int list \<times> int list" where
  "expandLoop 0 balances transferNonces withdrawNonces = (balances, transferNonces, withdrawNonces)"
| "expandLoop (Suc n) balances transferNonces withdrawNonces =
     expandLoop n (balances @ [0]) (transferNonces @ [0]) (withdrawNonces @ [0])"

definition maybeExpandAccountInfo :: "u64 \<Rightarrow> AccountInfo \<Rightarrow> int list \<times> int list \<times> int list" where
  "maybeExpandAccountInfo tokenIndex accountInfo =
     (let tokenIndexInt = goInt tokenIndex; oldLength = int (length (Balances accountInfo))
      in if tokenIndexInt > oldLength - 1
         then expandLoop (nat (tokenIndexInt - (oldLength - 1))) (Balances accountInfo)
                (TransferNonces accountInfo) (WithdrawNonces accountInfo)
         else (Balances accountInfo, TransferNonces accountInfo, WithdrawNonces accountInfo))"

section \<open>The three handlers\<close>

definition applyDeposit ::
  "('d, 't, 'b) DB \<Rightarrow> hasher \<Rightarrow> serializer \<Rightarrow> 'd sm \<Rightarrow> Transaction \<Rightarrow>
     AccountInfoUpdate list outcome \<times> 'd sm" where
  "applyDeposit I H ser sm tx =
     thenS (getTokenIndex I sm (tx_Token tx), sm) (\<lambda>tokenIndex sm.
     let account = tx_Account tx
     in thenS (getOrCreateAccount I H ser sm account tokenIndex) (\<lambda>(accountInfo, newAccount) sm.
     let amount = tx_Amount tx
     in if amount < 0 then (Err ErrInvalidAmount, sm)
     else case maybeExpandAccountInfo tokenIndex accountInfo of
       (balances, transferNonces, withdrawNonces) \<Rightarrow>
     thenS (idx balances (unat tokenIndex), sm) (\<lambda>oldBalance sm.
     let newBalance = oldBalance + amount
     in thenS (setIdx balances (unat tokenIndex) newBalance, sm) (\<lambda>balances sm.
     let updatedAccount = \<lparr>Account = account, Balances = balances,
           TransferNonces = transferNonces, WithdrawNonces = withdrawNonces\<rparr>
     in thenS (setAccountInfo I H ser sm account updatedAccount) (\<lambda>_ sm.
     (Ok [\<lparr>upd_Info = updatedAccount, upd_NewAccount = newAccount\<rparr>], sm))))))"

abbreviation invalidNonce :: "int \<Rightarrow> int \<Rightarrow> error" where
  "invalidNonce r g \<equiv> ErrInvalidNonce (uint (bigUint64 r)) (uint (bigUint64 g))"

definition applyWithdraw ::
  "('d, 't, 'b) DB \<Rightarrow> hasher \<Rightarrow> serializer \<Rightarrow> 'd sm \<Rightarrow> Transaction \<Rightarrow>
     AccountInfoUpdate list outcome \<times> 'd sm" where
  "applyWithdraw I H ser sm tx =
     thenS (getTokenIndex I sm (tx_Token tx), sm) (\<lambda>tokenIndex sm.
     let account = tx_Account tx
     in thenS (getAccountInfo I ser sm account, sm) (\<lambda>accountInfo sm.
     let amount = tx_Amount tx
     in if amount < 0 then (Err ErrInvalidAmount, sm)
     else if goInt tokenIndex > int (length (Balances accountInfo)) - 1
     then (Err ErrInsufficientBalance, sm)
     else thenS (idx (Balances accountInfo) (unat tokenIndex), sm) (\<lambda>oldBalance sm.
     if oldBalance < amount then (Err ErrInsufficientBalance, sm)
     else thenS (idx (WithdrawNonces accountInfo) (unat tokenIndex), sm) (\<lambda>oldWithdrawNonce sm.
     if oldWithdrawNonce \<noteq> tx_Nonce tx then (Err (invalidNonce oldWithdrawNonce (tx_Nonce tx)), sm)
     else
     let newWithdrawNonce = oldWithdrawNonce + 1
     in thenS (setIdx (WithdrawNonces accountInfo) (unat tokenIndex) newWithdrawNonce, sm)
       (\<lambda>withdrawNonces sm.
     let newBalance = oldBalance - amount
     in thenS (setIdx (Balances accountInfo) (unat tokenIndex) newBalance, sm) (\<lambda>balances sm.
     let updatedAccount = \<lparr>Account = account, Balances = balances,
           TransferNonces = TransferNonces accountInfo, WithdrawNonces = withdrawNonces\<rparr>
     in thenS (setAccountInfo I H ser sm account updatedAccount) (\<lambda>_ sm.
     (Ok [\<lparr>upd_Info = updatedAccount, upd_NewAccount = False\<rparr>], sm))))))))"

text \<open>
  The guard \<^verbatim>\<open>tokenIndexInt > len(senderBalances)\<close> lets the length itself through; the
  index expression after it then panics. The recipient's record is built from the copy
  read before the sender's is written.
\<close>

definition applyTransfer ::
  "('d, 't, 'b) DB \<Rightarrow> hasher \<Rightarrow> serializer \<Rightarrow> 'd sm \<Rightarrow> Transaction \<Rightarrow>
     AccountInfoUpdate list outcome \<times> 'd sm" where
  "applyTransfer I H ser sm tx =
     thenS (getTokenIndex I sm (tx_Token tx), sm) (\<lambda>tokenIndex sm.
     let recipient = tx_Recipient tx
     in thenS (getOrCreateAccount I H ser sm recipient tokenIndex) (\<lambda>(recipientAccountInfo, newRecipient) sm.
     let sender = tx_Sender tx
     in thenS (getAccountInfo I ser sm sender, sm) (\<lambda>senderAccountInfo sm.
     let amount = tx_Amount tx
     in if amount < 0 then (Err ErrInvalidAmount, sm)
     else
     let senderBalances = Balances senderAccountInfo;
         senderTransferNonces = TransferNonces senderAccountInfo
     in if goInt tokenIndex > int (length senderBalances) then (Err ErrSenderNoSuchToken, sm)
     else thenS (idx senderTransferNonces (unat tokenIndex), sm) (\<lambda>oldTransferNonce sm.
     if oldTransferNonce \<noteq> tx_Nonce tx then (Err (invalidNonce oldTransferNonce (tx_Nonce tx)), sm)
     else
     let newTransferNonce = oldTransferNonce + 1
     in thenS (idx senderBalances (unat tokenIndex), sm) (\<lambda>oldSenderBalance sm.
     if oldSenderBalance < amount then (Err ErrInsufficientBalance, sm)
     else case maybeExpandAccountInfo tokenIndex recipientAccountInfo of
       (recipientBalances, recipientTransferNonces, recipientWithdrawNonces) \<Rightarrow>
     let newSenderBalance = oldSenderBalance - amount
     in thenS (idx recipientBalances (unat tokenIndex), sm) (\<lambda>oldRecipientBalance sm.
     let newRecipientBalance = oldRecipientBalance + amount
     in thenS (setIdx senderBalances (unat tokenIndex) newSenderBalance, sm) (\<lambda>senderBalances sm.
     thenS (setIdx senderTransferNonces (unat tokenIndex) newTransferNonce, sm) (\<lambda>senderTransferNonces sm.
     thenS (setIdx recipientBalances (unat tokenIndex) newRecipientBalance, sm) (\<lambda>recipientBalances sm.
     let updatedSender = \<lparr>Account = sender, Balances = senderBalances,
           TransferNonces = senderTransferNonces, WithdrawNonces = WithdrawNonces senderAccountInfo\<rparr>;
         updatedRecipient = \<lparr>Account = recipient, Balances = recipientBalances,
           TransferNonces = recipientTransferNonces, WithdrawNonces = recipientWithdrawNonces\<rparr>
     in thenS (setAccountInfo I H ser sm sender updatedSender) (\<lambda>_ sm.
     thenS (setAccountInfo I H ser sm recipient updatedRecipient) (\<lambda>_ sm.
     (Ok [\<lparr>upd_Info = updatedSender, upd_NewAccount = False\<rparr>,
          \<lparr>upd_Info = updatedRecipient, upd_NewAccount = newRecipient\<rparr>], sm))))))))))))"

section \<open>Applying a transaction\<close>

text \<open>
  The loop over the updates. When \<^verbatim>\<open>Prove\<close> fails the code returns \<^verbatim>\<open>nil, err\<close> with the
  outer \<^verbatim>\<open>err\<close>, which is nil there: a nil update without an error, here \<open>Ok None\<close>.
\<close>

fun entriesLoop ::
  "('d, 't, 'b) DB \<Rightarrow> hasher \<Rightarrow> 'd sm \<Rightarrow> AccountInfoUpdate list \<Rightarrow> StateUpdateEntry list \<Rightarrow>
     StateUpdateEntry list option outcome" where
  "entriesLoop I H sm [] entries = Ok (Some entries)"
| "entriesLoop I H sm (update # updates) entries =
     bindO (db_Get I (smDb sm) (Some NamespaceAccountAddressToKey) (Account (upd_Info update))) (\<lambda>r. case r of
       None \<Rightarrow> Err ErrAccountNotFound
     | Some key \<Rightarrow>
         (case Prove I H (smTree sm) (smDb sm) key of
            Err proofErr \<Rightarrow> Ok None
          | Panic p \<Rightarrow> Panic p
          | Ok pf \<Rightarrow> entriesLoop I H sm updates
              (entries @ [\<lparr>ent_SlotIndex = int (setBytes key),
                 ent_InclusionProof = ConvertToInclusionProof pf,
                 ent_AccountInfo = upd_Info update, ent_NewAccount = upd_NewAccount update\<rparr>])))"

definition applyByType ::
  "('d, 't, 'b) DB \<Rightarrow> hasher \<Rightarrow> serializer \<Rightarrow> 'd sm \<Rightarrow> Transaction \<Rightarrow>
     AccountInfoUpdate list outcome \<times> 'd sm" where
  "applyByType I H ser sm tx =
     (case GetTransactionType tx of
        TransactionTypeDeposit \<Rightarrow> applyDeposit I H ser sm tx
      | TransactionTypeWithdraw \<Rightarrow> applyWithdraw I H ser sm tx
      | TransactionTypeTransfer \<Rightarrow> applyTransfer I H ser sm tx)"

definition ApplyTransaction ::
  "('d, 't, 'b) DB \<Rightarrow> hasher \<Rightarrow> serializer \<Rightarrow> 'd sm \<Rightarrow> Transaction \<Rightarrow>
     StateUpdate option outcome \<times> 'd sm" where
  "ApplyTransaction I H ser sm tx =
     thenS (applyByType I H ser sm tx) (\<lambda>accountInfoUpdates sm.
     thenS (entriesLoop I H sm accountInfoUpdates [], sm) (\<lambda>r sm. case r of
       None \<Rightarrow> (Ok None, sm)
     | Some entries \<Rightarrow>
         (Ok (Some \<lparr>su_Transaction = tx, su_StateRoot = copyN 32 (root (smTree sm)),
                su_Entries = entries\<rparr>), sm)))"

definition GetStateSnapshot ::
  "('d, 't, 'b) DB \<Rightarrow> hasher \<Rightarrow> serializer \<Rightarrow> 'd sm \<Rightarrow> bytes \<Rightarrow> StateSnapshot outcome" where
  "GetStateSnapshot I H ser sm key =
     bindO (Get I H (smTree sm) (smDb sm) key) (\<lambda>infoData.
     bindO (Prove I H (smTree sm) (smDb sm) key) (\<lambda>pf.
     bindO (DeserializeAccountInfo ser infoData) (\<lambda>info.
     Ok \<lparr>snap_SlotIndex = int (setBytes key), snap_AccountInfo = info,
         snap_StateRoot = root (smTree sm), snap_InclusionProof = ConvertToInclusionProof pf\<rparr>)))"

definition GetStateRoot :: "'d sm \<Rightarrow> bytes" where
  "GetStateRoot sm = root (smTree sm)"

end
