(* ===== verification/Ledger.thy ===== *)
theory Ledger
  imports State_Machine
begin

text \<open>
  The accounts a state stands for, and the invariant of the state machine: keys are
  numbered in order of creation, no two accounts share one, every account's record in the
  database is the leaf of the state tree under its key, the other leaves have the default
  value, and the tree is stored. The two
  writes, \<^verbatim>\<open>setAccountInfo\<close> and \<^verbatim>\<open>createAccount\<close>, keep it and change one account.
\<close>

section \<open>Views of the database\<close>

definition accKey :: "(bytes \<rightharpoonup> bytes) \<Rightarrow> bytes \<rightharpoonup> bytes" where
  "accKey m a = m (dbKey (Some NamespaceAccountAddressToKey) a)"

definition infoAt :: "(bytes \<rightharpoonup> bytes) \<Rightarrow> bytes \<rightharpoonup> bytes" where
  "infoAt m k = m (dbKey (Some NamespaceKeyToAccountInfo) k)"

definition lastKeyAt :: "(bytes \<rightharpoonup> bytes) \<Rightarrow> bytes option" where
  "lastKeyAt m = m (dbKey (Some NamespaceLastKey) EmptyKey)"

definition tokenAt :: "(bytes \<rightharpoonup> bytes) \<Rightarrow> bytes \<rightharpoonup> bytes" where
  "tokenAt m tok = m (dbKey (Some NamespaceTokenAddressToTokenIndex) tok)"

text \<open>Both directions of the token table.\<close>

definition tokenEntries :: "(bytes \<rightharpoonup> bytes) \<Rightarrow> (bytes \<rightharpoonup> bytes) \<times> (bytes \<rightharpoonup> bytes)" where
  "tokenEntries m = (tokenAt m, \<lambda>k. m (dbKey (Some NamespaceTokenIndexToTokenAddress) k))"

definition tokenIndexOf :: "(bytes \<rightharpoonup> bytes) \<Rightarrow> bytes \<Rightarrow> u64 outcome" where
  "tokenIndexOf m tok =
     (case tokenAt m tok of None \<Rightarrow> Err ErrTokenNotMapped
      | Some bs \<Rightarrow> Ok (bigUint64 (int (setBytes bs))))"

definition lookupAccount :: "serializer \<Rightarrow> (bytes \<rightharpoonup> bytes) \<Rightarrow> bytes \<Rightarrow> AccountInfo outcome" where
  "lookupAccount ser m a =
     (case accKey m a of
        None \<Rightarrow> Err ErrAccountNotFound
      | Some k \<Rightarrow> (case infoAt m k of
            None \<Rightarrow> Err ErrCorruptDb
          | Some data \<Rightarrow> DeserializeAccountInfo ser data))"

text \<open>Two databases that differ in some namespaces only.\<close>

definition unchangedExcept :: "bytes set \<Rightarrow> (bytes \<rightharpoonup> bytes) \<Rightarrow> (bytes \<rightharpoonup> bytes) \<Rightarrow> bool" where
  "unchangedExcept S m m' \<longleftrightarrow>
     (\<forall>ns\<in>set namespaces - S. \<forall>k. m' (dbKey (Some ns) k) = m (dbKey (Some ns) k))"

lemma unchangedExcept_trans:
  assumes "unchangedExcept S m m'" and "unchangedExcept S' m' m''" and "S \<subseteq> T" and "S' \<subseteq> T"
  shows "unchangedExcept T m m''"
  unfolding unchangedExcept_def
proof (intro ballI allI)
  fix ns k
  assume "ns \<in> set namespaces - T"
  then have "ns \<in> set namespaces - S" "ns \<in> set namespaces - S'" using assms(3,4) by auto
  then have "m'' (dbKey (Some ns) k) = m' (dbKey (Some ns) k)" "m' (dbKey (Some ns) k) = m (dbKey (Some ns) k)"
    using assms(1,2) unfolding unchangedExcept_def by blast+
  then show "m'' (dbKey (Some ns) k) = m (dbKey (Some ns) k)" by simp
qed

lemma unchangedExcept_refl [simp]: "unchangedExcept S m m"
  by (simp add: unchangedExcept_def)

lemma unchangedExceptD:
  assumes "unchangedExcept S m m'"
  shows "NamespaceAccountAddressToKey \<notin> S \<Longrightarrow> accKey m' = accKey m"
    and "NamespaceKeyToAccountInfo \<notin> S \<Longrightarrow> infoAt m' = infoAt m"
    and "NamespaceLastKey \<notin> S \<Longrightarrow> lastKeyAt m' = lastKeyAt m"
    and "NamespaceTokenAddressToTokenIndex \<notin> S \<Longrightarrow> tokenAt m' = tokenAt m"
    and "NamespaceTokenAddressToTokenIndex \<notin> S \<Longrightarrow> NamespaceTokenIndexToTokenAddress \<notin> S \<Longrightarrow>
      tokenEntries m' = tokenEntries m"
  using assms by (auto simp: unchangedExcept_def accKey_def infoAt_def lastKeyAt_def tokenAt_def tokenEntries_def)

lemma unchangedExcept_trie:
  "unchangedExcept {NamespaceStateTrie} m (applyOps (writeOps (Some NamespaceStateTrie) W) m)"
  unfolding unchangedExcept_def by (auto intro!: applyOps_writeOps_other)

lemma tokenIndexOf_cong: "tokenAt m' = tokenAt m \<Longrightarrow> tokenIndexOf m' = tokenIndexOf m"
  by (simp add: tokenIndexOf_def fun_eq_iff)

lemma tokenEntries_cong:
  assumes "tokenEntries m' = tokenEntries m"
  shows "tokenAt m' = tokenAt m" and "tokenIndexOf m' = tokenIndexOf m"
    and "m' (dbKey (Some NamespaceTokenIndexToTokenAddress) k) = m (dbKey (Some NamespaceTokenIndexToTokenAddress) k)"
  using assms by (auto simp: tokenEntries_def tokenIndexOf_def fun_eq_iff)

section \<open>The invariant\<close>

definition padPath :: "hasher \<Rightarrow> bytes \<Rightarrow> bytes" where
  "padPath H k = replicate (Size H - length k) 0 @ k"

definition leafPath :: "hasher \<Rightarrow> smt \<Rightarrow> bytes \<Rightarrow> bool list" where
  "leafPath H tr k = pathBits (padPath H k) (height tr)"

definition account_wf :: "AccountInfo \<Rightarrow> bool" where
  "account_wf info \<longleftrightarrow> account_fits info \<and>
     length (TransferNonces info) = length (Balances info) \<and>
     length (WithdrawNonces info) = length (Balances info)"

definition account_stored ::
  "serializer \<Rightarrow> hasher \<Rightarrow> (bytes \<rightharpoonup> bytes) \<Rightarrow> smt \<Rightarrow> mtree \<Rightarrow> bytes \<Rightarrow> bytes \<Rightarrow> bool" where
  "account_stored ser H m tr t a k \<longleftrightarrow>
     (\<exists>data info. infoAt m k = Some data \<and> SerializeAccountInfo ser info = Ok data \<and>
        DeserializeAccountInfo ser data = Ok info \<and>
        account_wf info \<and> Account info = a \<and> mlookup t (leafPath H tr k) = data)"

definition tree_wf :: "hasher \<Rightarrow> (bytes \<rightharpoonup> bytes) \<Rightarrow> smt \<Rightarrow> nat \<Rightarrow> mtree \<Rightarrow> bool" where
  "tree_wf H m tr n t \<longleftrightarrow>
     represents m H tr t (root tr) \<and> dbNamespace tr = Some NamespaceStateTrie \<and> \<not> hashKey tr \<and>
     nat (height tr - 1) \<le> 8 * Size H \<and> n \<le> 2 ^ nat (height tr - 1)"

definition sm_wf :: "serializer \<Rightarrow> hasher \<Rightarrow> (bytes \<rightharpoonup> bytes) \<Rightarrow> smt \<Rightarrow> nat \<Rightarrow> mtree \<Rightarrow> bool" where
  "sm_wf ser H m tr n t \<longleftrightarrow>
     tree_wf H m tr n t \<and>
     lastKeyAt m = (if n = 0 then None else Some (natBytes (n - 1))) \<and>
     (\<forall>a k. accKey m a = Some k \<longrightarrow>
        length a = 20 \<and> (\<exists>j<n. k = natBytes j) \<and> account_stored ser H m tr t a k) \<and>
     (\<forall>a b k. accKey m a = Some k \<longrightarrow> accKey m b = Some k \<longrightarrow> a = b) \<and>
     (\<forall>j<n. \<exists>a. accKey m a = Some (natBytes j)) \<and>
     (\<forall>j. n \<le> j \<longrightarrow> j < 2 ^ nat (height tr - 1) \<longrightarrow> mlookup t (leafPath H tr (natBytes j)) = DefaultValue)"

lemma sm_wfD:
  assumes "sm_wf ser H m tr n t"
  shows "tree_wf H m tr n t"
    and "lastKeyAt m = (if n = 0 then None else Some (natBytes (n - 1)))"
    and "accKey m a = Some k \<Longrightarrow> length a = 20"
    and "accKey m a = Some k \<Longrightarrow> \<exists>j<n. k = natBytes j"
    and "accKey m a = Some k \<Longrightarrow> account_stored ser H m tr t a k"
    and "accKey m a = Some k \<Longrightarrow> accKey m b = Some k \<Longrightarrow> a = b"
    and "j < n \<Longrightarrow> \<exists>a. accKey m a = Some (natBytes j)"
    and "n \<le> j \<Longrightarrow> j < 2 ^ nat (height tr - 1) \<Longrightarrow> mlookup t (leafPath H tr (natBytes j)) = DefaultValue"
  using assms unfolding sm_wf_def by blast+

lemma sm_wfI:
  assumes "tree_wf H m tr n t" and "lastKeyAt m = (if n = 0 then None else Some (natBytes (n - 1)))"
    and "\<And>a k. accKey m a = Some k \<Longrightarrow> account_stored ser H m tr t a k"
    and "\<And>a k. accKey m a = Some k \<Longrightarrow> length a = 20 \<and> (\<exists>j<n. k = natBytes j)"
    and "\<And>a b k. accKey m a = Some k \<Longrightarrow> accKey m b = Some k \<Longrightarrow> a = b"
    and "\<And>j. j < n \<Longrightarrow> \<exists>a. accKey m a = Some (natBytes j)"
    and "\<And>j. n \<le> j \<Longrightarrow> j < 2 ^ nat (height tr - 1) \<Longrightarrow> mlookup t (leafPath H tr (natBytes j)) = DefaultValue"
  shows "sm_wf ser H m tr n t"
  unfolding sm_wf_def using assms by blast

lemma tree_wfD:
  assumes "tree_wf H m tr n t"
  shows "represents m H tr t (root tr)" and "dbNamespace tr = Some NamespaceStateTrie"
    and "\<not> hashKey tr" and "n \<le> 2 ^ nat (height tr - 1)" and "nat (height tr - 1) \<le> 8 * Size H"
    and "height tr < 2 ^ 64" and "perfect (nat (height tr - 1)) t"
  using assms unfolding tree_wf_def represents_def by auto

lemma length_leafPath [simp]: "length (leafPath H tr k) = nat (height tr - 1)"
  by (simp add: leafPath_def)

lemma setBytes_padPath [simp]: "setBytes (padPath H k) = setBytes k"
  by (simp add: padPath_def)

text \<open>Keys below the capacity of the tree fit into a path and have leaves of their own.\<close>

lemma getPath_natBytes:
  assumes "tree_wf H m tr n t" and "j < 2 ^ nat (height tr - 1)"
  shows "getPath H tr (natBytes j) = Ok (padPath H (natBytes j))"
proof -
  have "j < 2 ^ (8 * Size H)"
    using assms(2) tree_wfD(5) [OF assms(1)] by (rule order_less_le_trans [OF _ power_increasing]) auto
  also have "\<dots> = 256 ^ Size H" by (simp add: power_mult)
  finally have "length (natBytes j) \<le> Size H" by (rule length_natBytes)
  then show ?thesis using tree_wfD(3) [OF assms(1)] by (simp add: getPath_def padKey_def padPath_def)
qed

lemma leafPath_inject:
  assumes "tree_wf H m tr n t" and "i < 2 ^ nat (height tr - 1)" and "j < 2 ^ nat (height tr - 1)"
  shows "leafPath H tr (natBytes i) = leafPath H tr (natBytes j) \<longleftrightarrow> i = j"
  using pathBits_inject [of "padPath H (natBytes i)" "height tr" "padPath H (natBytes j)"]
    tree_wfD(6) [OF assms(1)] assms(2,3) by (auto simp: leafPath_def)

lemma leafPath_root [simp]: "leafPath H (tr\<lparr>root := r\<rparr>) k = leafPath H tr k"
  by (simp add: leafPath_def)

lemma account_stored_lookup:
  assumes "account_stored ser H m tr t a k" and "accKey m a = Some k"
  shows "\<exists>info. lookupAccount ser m a = Ok info \<and> account_wf info \<and> Account info = a"
  using assms by (auto simp: account_stored_def lookupAccount_def)

lemma lookupAccount_Ok_wf:
  assumes "sm_wf ser H m tr n t" and "lookupAccount ser m a = Ok info"
  obtains k where "accKey m a = Some k" and "account_wf info" and "Account info = a" and "length a = 20"
proof -
  obtain k where k: "accKey m a = Some k"
    using assms(2) by (auto simp: lookupAccount_def split: option.splits)
  with account_stored_lookup [OF sm_wfD(5) [OF assms(1) k] k] assms(2) sm_wfD(3) [OF assms(1) k] that
  show ?thesis by auto
qed

text \<open>In a well-formed state an account is found or does not exist; nothing else can happen.\<close>

lemma lookupAccount_cases:
  assumes "sm_wf ser H m tr n t"
  shows "(accKey m a = None \<and> lookupAccount ser m a = Err ErrAccountNotFound) \<or>
    (\<exists>k info. accKey m a = Some k \<and> lookupAccount ser m a = Ok info)"
proof (cases "accKey m a")
  case None
  then show ?thesis by (simp add: lookupAccount_def)
next
  case (Some k)
  then show ?thesis using account_stored_lookup [OF sm_wfD(5) [OF assms Some] Some] by blast
qed

section \<open>The condition on hash collisions\<close>

text \<open>
  Updating \<open>key\<close> to \<open>v\<close> writes no node whose digest belongs to a different stored node:
  computed from the same reads as the update itself.
\<close>

definition updateFresh :: "('d, 't, 'b) DB \<Rightarrow> hasher \<Rightarrow> smt \<Rightarrow> 'd \<Rightarrow> bytes \<Rightarrow> bytes \<Rightarrow> bool" where
  "updateFresh I H s d key v =
     (case getPath H s key of
        Ok path \<Rightarrow> (case sideNodesForRoot I H s d path (root s) of
            Ok ss \<Rightarrow> noCollision (\<lambda>h. the_ok (db_Get I d (dbNamespace s) h))
                       (pathWrites H (pathBits path (height s)) ss v)
          | _ \<Rightarrow> True)
      | _ \<Rightarrow> True)"

definition setFresh :: "('d, 't, 'b) DB \<Rightarrow> hasher \<Rightarrow> serializer \<Rightarrow> 'd sm \<Rightarrow> bytes \<Rightarrow> AccountInfo \<Rightarrow> bool" where
  "setFresh I H ser sm a info =
     (case (db_Get I (smDb sm) (Some NamespaceAccountAddressToKey) a, SerializeAccountInfo ser info) of
        (Ok (Some k), Ok data) \<Rightarrow> updateFresh I H (smTree sm) (smDb sm) k data
      | _ \<Rightarrow> True)"

definition emptyAccount :: "bytes \<Rightarrow> u64 \<Rightarrow> AccountInfo" where
  "emptyAccount a numTokens =
     \<lparr>Account = a, Balances = replicate (unat numTokens) 0,
      TransferNonces = replicate (unat numTokens) 0, WithdrawNonces = replicate (unat numTokens) 0\<rparr>"

definition createFresh :: "('d, 't, 'b) DB \<Rightarrow> hasher \<Rightarrow> serializer \<Rightarrow> 'd sm \<Rightarrow> bytes \<Rightarrow> u64 \<Rightarrow> bool" where
  "createFresh I H ser sm a numTokens =
     (case (db_Get I (smDb sm) (Some NamespaceLastKey) EmptyKey,
            SerializeAccountInfo ser (emptyAccount a numTokens)) of
        (Ok r, Ok data) \<Rightarrow>
          updateFresh I H (smTree sm) (smDb sm)
            (bigBytes ((case r of None \<Rightarrow> -1 | Some bs \<Rightarrow> int (setBytes bs)) + 1)) data
      | _ \<Rightarrow> True)"

lemma emptyAccount_wf:
  "length a = 20 \<Longrightarrow> account_wf (emptyAccount a n)"
  by (simp add: emptyAccount_def account_wf_def account_fits_def list_all_iff uint256_def)

lemma Account_emptyAccount [simp]: "Account (emptyAccount a n) = a"
  by (simp add: emptyAccount_def)

end
