(* ===== verification/Ledger_Writes.thy ===== *)
theory Ledger_Writes
  imports Ledger
begin

text \<open>
  \<^verbatim>\<open>setAccountInfo\<close> and \<^verbatim>\<open>createAccount\<close> on any database that keeps the contract
  \<open>kv_db\<close>: they succeed in a well-formed state, keep it well formed and change the record
  of one account.
\<close>

lemma tree_wf_mono:
  "tree_wf H m tr n t \<Longrightarrow> represents m' H tr t' rt' \<Longrightarrow> n' \<le> 2 ^ nat (height tr - 1) \<Longrightarrow>
    tree_wf H m' (tr\<lparr>root := rt'\<rparr>) n' t'"
  by (auto simp: tree_wf_def represents_def)

lemma nodes_unchanged:
  "unchangedExcept S m m' \<Longrightarrow> ns \<in> set namespaces - S \<Longrightarrow> nodes m' (Some ns) = nodes m (Some ns)"
  by (auto simp: unchangedExcept_def nodes_def)

lemma represents_unchanged:
  "unchangedExcept S m m' \<Longrightarrow> dbNamespace s = Some ns \<Longrightarrow> ns \<in> set namespaces - S \<Longrightarrow>
    represents m' H s t rt = represents m H s t rt"
  by (simp add: represents_def nodes_unchanged)

context kv_db
begin

lemma getAccountInfo_lookup: "getAccountInfo I ser sm a = lookupAccount ser (view (smDb sm)) a"
  by (simp add: getAccountInfo_def lookupAccount_def accKey_def infoAt_def Get split: option.splits)

lemma getTokenIndex_view: "getTokenIndex I sm tok = tokenIndexOf (view (smDb sm)) tok"
  by (simp add: getTokenIndex_def tokenIndexOf_def tokenAt_def Get split: option.splits)

lemma updateFresh_iff:
  assumes "hasher_ok H" and "represents (view d) H s t (root s)" and "getPath H s key = Ok path"
  shows "updateFresh I H s d key v \<longleftrightarrow>
    noCollision (nodes (view d) (dbNamespace s)) (updateWrites H s t path v)"
  using assms by (simp add: updateFresh_def sideNodesForRoot_msides updateWrites_def Get_nodes)

text \<open>An update of the state tree at an account key, in a database where the key was just written.\<close>

lemma Update_leaf:
  assumes "hasher_ok H" and wf: "tree_wf H (view (smDb sm)) (smTree sm) n t"
    and "j < 2 ^ nat (height (smTree sm) - 1)" and "n' \<le> 2 ^ nat (height (smTree sm) - 1)"
    and un: "unchangedExcept S (view (smDb sm)) (view d)" and "NamespaceStateTrie \<notin> S"
    and fresh: "updateFresh I H (smTree sm) (smDb sm) (natBytes j) data"
  shows "\<exists>rt d'. Update I H (smTree sm) d (natBytes j) data = (Ok rt, (smTree sm)\<lparr>root := rt\<rparr>, d') \<and>
    tree_wf H (view d') ((smTree sm)\<lparr>root := rt\<rparr>) n' (mupdate t (leafPath H (smTree sm) (natBytes j)) data) \<and>
    unchangedExcept {NamespaceStateTrie} (view d) (view d')"
proof -
  let ?tr = "smTree sm" and ?path = "padPath H (natBytes j)"
  note D = tree_wfD [OF wf]
  have st: "NamespaceStateTrie \<in> set namespaces - S" using assms(6) by simp
  have path: "getPath H ?tr (natBytes j) = Ok ?path" using getPath_natBytes [OF wf assms(3)] .
  have rep: "represents (view d) H ?tr t (root ?tr)"
    using represents_unchanged [OF un D(2) st] D(1) by simp
  have nc: "noCollision (nodes (view d) (dbNamespace ?tr)) (updateWrites H ?tr t ?path data)"
    using fresh updateFresh_iff [OF assms(1) D(1) path] nodes_unchanged [OF un st] D(2) by simp
  from Update_mupdate [OF assms(1) rep path nc] obtain d' where d':
    "Update I H ?tr d (natBytes j) data =
       (Ok (mhash H (mupdate t (pathBits ?path (height ?tr)) data)),
        ?tr\<lparr>root := mhash H (mupdate t (pathBits ?path (height ?tr)) data)\<rparr>, d')"
    "view d' = applyOps (writeOps (dbNamespace ?tr) (updateWrites H ?tr t ?path data)) (view d)"
    "represents (view d') H ?tr (mupdate t (pathBits ?path (height ?tr)) data)
       (mhash H (mupdate t (pathBits ?path (height ?tr)) data))"
    by blast
  then show ?thesis
    using tree_wf_mono [OF wf d'(3) assms(4)] unchangedExcept_trie D(2) by (auto simp: leafPath_def)
qed

text \<open>
  Both writes store \<open>data\<close> under the key \<open>natBytes j\<close> and in the tree, and leave every
  other account's key and record alone.
\<close>

lemma account_stored_frame:
  assumes "account_stored ser H m tr t b k" and "infoAt m' k = infoAt m k"
    and "perfect (nat (height tr - 1)) t" and "leafPath H tr k \<noteq> leafPath H tr k'"
  shows "account_stored ser H m' (tr\<lparr>root := rt\<rparr>) (mupdate t (leafPath H tr k') v) b k"
  using assms mlookup_mupdate [OF assms(3), of "leafPath H tr k'" "leafPath H tr k" v]
  by (auto simp: account_stored_def)

lemma account_stored_new:
  assumes "infoAt m' k = Some data" and "SerializeAccountInfo ser info = Ok data"
    and "DeserializeAccountInfo ser data = Ok info" and "account_wf info"
    and "perfect (nat (height tr - 1)) t"
  shows "account_stored ser H m' (tr\<lparr>root := rt\<rparr>) (mupdate t (leafPath H tr k) data) (Account info) k"
  using assms mlookup_mupdate [OF assms(5), of "leafPath H tr k" "leafPath H tr k" data]
  by (auto simp: account_stored_def)

lemma default_frame:
  assumes "mlookup t (leafPath H tr (natBytes j)) = DefaultValue" and "perfect (nat (height tr - 1)) t"
    and "leafPath H tr (natBytes j) \<noteq> leafPath H tr k'"
  shows "mlookup (mupdate t (leafPath H tr k') v) (leafPath H tr (natBytes j)) = DefaultValue"
  using assms(1,3) mlookup_mupdate [OF assms(2), of "leafPath H tr k'" "leafPath H tr (natBytes j)" v] by simp

lemma setAccountInfo_ok:
  assumes H: "hasher_ok H" and ser: "serializer_ok ser"
    and wf: "sm_wf ser H (view (smDb sm)) (smTree sm) n t"
    and k: "accKey (view (smDb sm)) a = Some k" and info: "account_wf info" "Account info = a"
    and fresh: "setFresh I H ser sm a info"
  shows "\<exists>sm' t'. setAccountInfo I H ser sm a info = (Ok (), sm') \<and>
    sm_wf ser H (view (smDb sm')) (smTree sm') n t' \<and> height (smTree sm') = height (smTree sm) \<and>
    unchangedExcept {NamespaceStateTrie, NamespaceKeyToAccountInfo} (view (smDb sm)) (view (smDb sm')) \<and>
    (\<forall>b. lookupAccount ser (view (smDb sm')) b =
       (if b = a then Ok info else lookupAccount ser (view (smDb sm)) b))"
proof -
  let ?m = "view (smDb sm)" and ?tr = "smTree sm"
  obtain data where data: "SerializeAccountInfo ser info = Ok data" "DeserializeAccountInfo ser data = Ok info"
    using account_roundtrip [OF ser] info(1) by (auto simp: account_wf_def)
  obtain j where j: "j < n" "k = natBytes j" using sm_wfD(4) [OF wf k] by blast
  note tw = sm_wfD(1) [OF wf]
  have cap: "j < 2 ^ nat (height ?tr - 1)" using j(1) tree_wfD(4) [OF tw] by simp
  obtain d1 where d1: "db_Set I (smDb sm) (Some NamespaceKeyToAccountInfo) k data = (Ok (), d1)"
    "view d1 = ?m(dbKey (Some NamespaceKeyToAccountInfo) k \<mapsto> data)"
    using SetE [of "smDb sm" "Some NamespaceKeyToAccountInfo" k data] by blast
  have un1: "unchangedExcept {NamespaceKeyToAccountInfo} ?m (view d1)"
    by (auto simp: unchangedExcept_def d1(2))
  have fr: "updateFresh I H ?tr (smDb sm) (natBytes j) data"
    using fresh k j(2) data(1) by (simp add: setFresh_def Get accKey_def)
  obtain rt d' where u: "Update I H ?tr d1 (natBytes j) data = (Ok rt, ?tr\<lparr>root := rt\<rparr>, d')"
    "tree_wf H (view d') (?tr\<lparr>root := rt\<rparr>) n (mupdate t (leafPath H ?tr k) data)"
    "unchangedExcept {NamespaceStateTrie} (view d1) (view d')"
    using Update_leaf [OF H tw cap tree_wfD(4) [OF tw] un1 _ fr] j(2) by auto
  let ?sm' = "\<lparr>smDb = d', smTree = ?tr\<lparr>root := rt\<rparr>\<rparr>"
  have run: "setAccountInfo I H ser sm a info = (Ok (), ?sm')"
    using k data(1) d1(1) u(1) j(2) by (simp add: setAccountInfo_def Get accKey_def)
  have un: "unchangedExcept {NamespaceStateTrie, NamespaceKeyToAccountInfo} ?m (view d')"
    by (rule unchangedExcept_trans [OF un1 u(3)]) auto
  have acc: "accKey (view d') = accKey ?m" and last: "lastKeyAt (view d') = lastKeyAt ?m"
    by (rule unchangedExceptD [OF un]; simp)+
  have "infoAt (view d') = infoAt (view d1)" by (rule unchangedExceptD [OF u(3)]) simp
  then have inf: "infoAt (view d') = (infoAt ?m)(k \<mapsto> data)" by (auto simp: infoAt_def d1(2))
  have stored: "account_stored ser H (view d') (?tr\<lparr>root := rt\<rparr>) (mupdate t (leafPath H ?tr k) data) b kb"
    if b: "accKey ?m b = Some kb" for b kb
  proof (cases "b = a")
    case True
    with b k have "kb = k" by simp
    then show ?thesis
      using account_stored_new [of "view d'" k data ser info ?tr t H rt] inf data info True
        tree_wfD(7) [OF tw] by simp
  next
    case False
    obtain i where i: "i < n" "kb = natBytes i" using sm_wfD(4) [OF wf b] by blast
    have "kb \<noteq> k" using sm_wfD(6) [OF wf b, of a] k False by auto
    moreover have "leafPath H ?tr kb \<noteq> leafPath H ?tr k"
      using \<open>kb \<noteq> k\<close> leafPath_inject [OF tw, of i j] cap i j tree_wfD(4) [OF tw] by auto
    ultimately show ?thesis
      using account_stored_frame [OF sm_wfD(5) [OF wf b], of "view d'" k] inf tree_wfD(7) [OF tw] by simp
  qed
  have props: "length b = 20 \<and> (\<exists>j<n. kb = natBytes j)" if "accKey (view d') b = Some kb" for b kb
    using that sm_wfD(3,4) [OF wf, of b kb] by (simp add: acc)
  have inj: "b = c" if "accKey (view d') b = Some kb" "accKey (view d') c = Some kb" for b c kb
    using that unfolding acc by (rule sm_wfD(6) [OF wf])
  have full: "\<exists>a. accKey (view d') a = Some (natBytes i)" if "i < n" for i
    using sm_wfD(7) [OF wf that] by (simp add: acc)
  have default: "mlookup (mupdate t (leafPath H ?tr k) data) (leafPath H (?tr\<lparr>root := rt\<rparr>) (natBytes i)) = DefaultValue"
    if i: "n \<le> i" "i < 2 ^ nat (height (?tr\<lparr>root := rt\<rparr>) - 1)" for i
    using default_frame [OF sm_wfD(8) [OF wf i(1)] tree_wfD(7) [OF tw], of k data] i
      leafPath_inject [OF tw, of i j] cap j by simp
  have "sm_wf ser H (view d') (?tr\<lparr>root := rt\<rparr>) n (mupdate t (leafPath H ?tr k) data)"
    by (rule sm_wfI [OF u(2) _ stored props inj full default]) (simp_all add: last acc sm_wfD(2) [OF wf])
  moreover have "lookupAccount ser (view d') b = (if b = a then Ok info else lookupAccount ser ?m b)" for b
  proof (cases "b = a")
    case True
    then show ?thesis using k data(2) by (simp add: lookupAccount_def acc inf)
  next
    case False
    have "accKey ?m b \<noteq> Some k" using sm_wfD(6) [OF wf _ k, of b] False by blast
    with False show ?thesis by (auto simp: lookupAccount_def acc inf split: option.splits)
  qed
  ultimately show ?thesis using run un by (intro exI [of _ ?sm']) auto
qed

lemma createAccount_ok:
  assumes H: "hasher_ok H" and ser: "serializer_ok ser"
    and wf: "sm_wf ser H (view (smDb sm)) (smTree sm) n t"
    and k: "accKey (view (smDb sm)) a = None" and len: "length a = 20"
    and num: "unat numTokens \<le> maxSliceLen" and room: "n < 2 ^ nat (height (smTree sm) - 1)"
    and fresh: "createFresh I H ser sm a numTokens"
  shows "\<exists>sm' t'. createAccount I H ser sm a numTokens = (Ok (emptyAccount a numTokens), sm') \<and>
    sm_wf ser H (view (smDb sm')) (smTree sm') (Suc n) t' \<and> height (smTree sm') = height (smTree sm) \<and>
    unchangedExcept {NamespaceStateTrie, NamespaceKeyToAccountInfo, NamespaceLastKey,
       NamespaceAccountAddressToKey} (view (smDb sm)) (view (smDb sm')) \<and>
    accKey (view (smDb sm')) = (accKey (view (smDb sm)))(a \<mapsto> natBytes n) \<and>
    (\<forall>b. lookupAccount ser (view (smDb sm')) b =
       (if b = a then Ok (emptyAccount a numTokens) else lookupAccount ser (view (smDb sm)) b))"
proof -
  let ?m = "view (smDb sm)" and ?tr = "smTree sm" and ?k = "natBytes n" and ?info = "emptyAccount a numTokens"
  have iwf: "account_wf ?info" by (rule emptyAccount_wf [OF len])
  obtain data where data: "SerializeAccountInfo ser ?info = Ok data" "DeserializeAccountInfo ser data = Ok ?info"
    using account_roundtrip [OF ser] iwf by (auto simp: account_wf_def)
  note tw = sm_wfD(1) [OF wf]
  have newKey: "(case lastKeyAt ?m of None \<Rightarrow> -1 | Some bs \<Rightarrow> int (setBytes bs)) + 1 = int n"
    using sm_wfD(2) [OF wf] by (simp add: of_nat_diff)
  let ?t0 = "db_NewTx I (smDb sm)"
  obtain t1 where t1: "tx_Set I ?t0 (Some NamespaceLastKey) EmptyKey ?k = (Ok (), t1)"
    "txOps t1 = [setOp (Some NamespaceLastKey) EmptyKey ?k]" "txOpen t1"
    using TxSet [of ?t0 "Some NamespaceLastKey" EmptyKey ?k] NewTx [of "smDb sm"] by auto
  obtain t2 where t2: "tx_Set I t1 (Some NamespaceAccountAddressToKey) a ?k = (Ok (), t2)"
    "txOps t2 = txOps t1 @ [setOp (Some NamespaceAccountAddressToKey) a ?k]" "txOpen t2"
    using TxSet [of t1 "Some NamespaceAccountAddressToKey" a ?k] t1(3) by auto
  obtain t3 where t3: "tx_Set I t2 (Some NamespaceKeyToAccountInfo) ?k data = (Ok (), t3)"
    "txOps t3 = txOps t2 @ [setOp (Some NamespaceKeyToAccountInfo) ?k data]" "txOpen t3"
    using TxSet [of t2 "Some NamespaceKeyToAccountInfo" ?k data] t2(3) by auto
  obtain t4 d1 where d1: "tx_Commit I t3 (smDb sm) = (Ok (), t4, d1)"
    "view d1 = applyOps (txOps t3) ?m"
    using Commit [OF t3(3), of "smDb sm"] by auto
  then have m1: "view d1 = ?m(dbKey (Some NamespaceLastKey) EmptyKey \<mapsto> ?k,
      dbKey (Some NamespaceAccountAddressToKey) a \<mapsto> ?k, dbKey (Some NamespaceKeyToAccountInfo) ?k \<mapsto> data)"
    by (simp add: t1(2) t2(2) t3(2))
  have un1: "unchangedExcept {NamespaceKeyToAccountInfo, NamespaceLastKey, NamespaceAccountAddressToKey} ?m (view d1)"
    by (auto simp: unchangedExcept_def m1)
  have fr: "updateFresh I H ?tr (smDb sm) ?k data"
    using fresh data(1) newKey by (simp add: createFresh_def Get lastKeyAt_def)
  obtain rt d' where u: "Update I H ?tr d1 ?k data = (Ok rt, ?tr\<lparr>root := rt\<rparr>, d')"
    "tree_wf H (view d') (?tr\<lparr>root := rt\<rparr>) (Suc n) (mupdate t (leafPath H ?tr ?k) data)"
    "unchangedExcept {NamespaceStateTrie} (view d1) (view d')"
    using Update_leaf [OF H tw room _ un1 _ fr, of "Suc n"] room by auto
  let ?sm' = "\<lparr>smDb = d', smTree = ?tr\<lparr>root := rt\<rparr>\<rparr>"
  have run: "createAccount I H ser sm a numTokens = (Ok ?info, ?sm')"
    using num data(1) newKey t1(1) t2(1) t3(1) d1(1) u(1)
    by (simp add: createAccount_def Get lastKeyAt_def Let_def emptyAccount_def)
  have un: "unchangedExcept {NamespaceStateTrie, NamespaceKeyToAccountInfo, NamespaceLastKey,
       NamespaceAccountAddressToKey} ?m (view d')"
    by (rule unchangedExcept_trans [OF un1 u(3)]) auto
  have eqs: "accKey (view d') = accKey (view d1)" "lastKeyAt (view d') = lastKeyAt (view d1)"
    "infoAt (view d') = infoAt (view d1)"
    by (rule unchangedExceptD [OF u(3)]; simp)+
  then have acc: "accKey (view d') = (accKey ?m)(a \<mapsto> ?k)" and last: "lastKeyAt (view d') = Some ?k"
    and inf: "infoAt (view d') = (infoAt ?m)(?k \<mapsto> data)"
    by (auto simp: accKey_def lastKeyAt_def infoAt_def m1)
  have old: "kb \<noteq> ?k" if "accKey ?m b = Some kb" for b kb
    using sm_wfD(4) [OF wf that] by auto
  have stored: "account_stored ser H (view d') (?tr\<lparr>root := rt\<rparr>) (mupdate t (leafPath H ?tr ?k) data) b kb"
    if b: "accKey (view d') b = Some kb" for b kb
  proof (cases "b = a")
    case True
    with b have "kb = ?k" by (simp add: acc)
    then show ?thesis
      using account_stored_new [of "view d'" ?k data ser ?info ?tr t H rt] inf data iwf True
        tree_wfD(7) [OF tw] by simp
  next
    case False
    with b have b: "accKey ?m b = Some kb" by (simp add: acc)
    obtain i where i: "i < n" "kb = natBytes i" using sm_wfD(4) [OF wf b] by blast
    have "leafPath H ?tr kb \<noteq> leafPath H ?tr ?k"
      using leafPath_inject [OF tw, of i n] room i by auto
    then show ?thesis
      using account_stored_frame [OF sm_wfD(5) [OF wf b], of "view d'" ?k] inf old [OF b] tree_wfD(7) [OF tw]
      by simp
  qed
  have props: "length b = 20 \<and> (\<exists>j<Suc n. kb = natBytes j)" if "accKey (view d') b = Some kb" for b kb
    using that sm_wfD(3,4) [OF wf, of b kb] len less_SucI by (auto simp: acc split: if_splits)
  have inj: "b = c" if "accKey (view d') b = Some kb" "accKey (view d') c = Some kb" for b c kb
    using that sm_wfD(6) [OF wf, of b kb c] old by (auto simp: acc split: if_splits)
  have full: "\<exists>a. accKey (view d') a = Some (natBytes i)" if i: "i < Suc n" for i
  proof (cases "i = n")
    case False
    then obtain b where b: "accKey ?m b = Some (natBytes i)" using sm_wfD(7) [OF wf, of i] i by auto
    then have "b \<noteq> a" using k by auto
    with b show ?thesis by (auto simp: acc)
  qed (auto simp: acc)
  have default: "mlookup (mupdate t (leafPath H ?tr ?k) data) (leafPath H (?tr\<lparr>root := rt\<rparr>) (natBytes i)) = DefaultValue"
    if i: "Suc n \<le> i" "i < 2 ^ nat (height (?tr\<lparr>root := rt\<rparr>) - 1)" for i
    using default_frame [OF sm_wfD(8) [OF wf, of i] tree_wfD(7) [OF tw], of ?k data] i
      leafPath_inject [OF tw, of i n] room by simp
  have "sm_wf ser H (view d') (?tr\<lparr>root := rt\<rparr>) (Suc n) (mupdate t (leafPath H ?tr ?k) data)"
    by (rule sm_wfI [OF u(2) _ stored props inj full default]) (simp_all add: last)
  moreover have "lookupAccount ser (view d') b = (if b = a then Ok ?info else lookupAccount ser ?m b)" for b
    using data(2) old [of b] by (auto simp: lookupAccount_def acc inf split: option.splits)
  ultimately show ?thesis using run un acc by (intro exI [of _ ?sm']) auto
qed

end

end
