(* ===== verification/Ledger_Spec.thy ===== *)
theory Ledger_Spec
  imports Ledger_Writes
begin

text \<open>
  What the state machine promises, on a plain map from addresses to accounts: no database,
  no keys, no tree. The three transaction types are functions on that map; they keep the
  order of the checks and what happens on every failing one, in particular that a missing
  account is opened before the transaction is validated.
\<close>

section \<open>Accounts\<close>

type_synonym ledger = "bytes \<rightharpoonup> AccountInfo"

definition padTo :: "nat \<Rightarrow> int list \<Rightarrow> int list" where
  "padTo n xs = xs @ replicate (n - length xs) 0"

definition expand :: "nat \<Rightarrow> AccountInfo \<Rightarrow> AccountInfo" where
  "expand i info = \<lparr>Account = Account info, Balances = padTo (Suc i) (Balances info),
     TransferNonces = padTo (Suc i) (TransferNonces info), WithdrawNonces = padTo (Suc i) (WithdrawNonces info)\<rparr>"

definition balanceOf :: "AccountInfo \<Rightarrow> nat \<Rightarrow> int" where
  "balanceOf info i = (if i < length (Balances info) then Balances info ! i else 0)"

definition credit :: "nat \<Rightarrow> int \<Rightarrow> AccountInfo \<Rightarrow> AccountInfo" where
  "credit i amount info = (let e = expand i info in e\<lparr>Balances := (Balances e)[i := balanceOf info i + amount]\<rparr>)"

definition debit :: "nat \<Rightarrow> int \<Rightarrow> AccountInfo \<Rightarrow> AccountInfo" where
  "debit i amount info = info\<lparr>Balances := (Balances info)[i := Balances info ! i - amount]\<rparr>"

definition nextTransfer :: "nat \<Rightarrow> AccountInfo \<Rightarrow> AccountInfo" where
  "nextTransfer i info = info\<lparr>TransferNonces := (TransferNonces info)[i := TransferNonces info ! i + 1]\<rparr>"

definition nextWithdraw :: "nat \<Rightarrow> AccountInfo \<Rightarrow> AccountInfo" where
  "nextWithdraw i info = info\<lparr>WithdrawNonces := (WithdrawNonces info)[i := WithdrawNonces info ! i + 1]\<rparr>"

section \<open>The transactions on a ledger\<close>

definition ledgerOpen :: "ledger \<Rightarrow> bytes \<Rightarrow> u64 \<Rightarrow> (AccountInfo \<times> bool) \<times> ledger" where
  "ledgerOpen L a ti = (case L a of
      Some info \<Rightarrow> ((info, False), L)
    | None \<Rightarrow> ((emptyAccount a (ti + 1), True), L(a \<mapsto> emptyAccount a (ti + 1))))"

definition ledgerDeposit :: "u64 \<Rightarrow> ledger \<Rightarrow> Transaction \<Rightarrow> AccountInfoUpdate list outcome \<times> ledger" where
  "ledgerDeposit ti L tx =
     (let a = tx_Account tx; ((info, new), L1) = ledgerOpen L a ti
      in if tx_Amount tx < 0 then (Err ErrInvalidAmount, L1)
         else let info' = credit (unat ti) (tx_Amount tx) info
              in (Ok [\<lparr>upd_Info = info', upd_NewAccount = new\<rparr>], L1(a \<mapsto> info')))"

definition ledgerWithdraw :: "u64 \<Rightarrow> ledger \<Rightarrow> Transaction \<Rightarrow> AccountInfoUpdate list outcome \<times> ledger" where
  "ledgerWithdraw ti L tx =
     (let a = tx_Account tx; i = unat ti; amount = tx_Amount tx
      in case L a of
        None \<Rightarrow> (Err ErrAccountNotFound, L)
      | Some info \<Rightarrow>
          if amount < 0 then (Err ErrInvalidAmount, L)
          else if length (Balances info) \<le> i \<or> Balances info ! i < amount then (Err ErrInsufficientBalance, L)
          else if WithdrawNonces info ! i \<noteq> tx_Nonce tx
          then (Err (invalidNonce (WithdrawNonces info ! i) (tx_Nonce tx)), L)
          else let info' = debit i amount (nextWithdraw i info)
               in (Ok [\<lparr>upd_Info = info', upd_NewAccount = False\<rparr>], L(a \<mapsto> info')))"

text \<open>
  A transfer reads both records before it writes either: when the sender is the recipient
  the second write wins.
\<close>

definition ledgerTransfer :: "u64 \<Rightarrow> ledger \<Rightarrow> Transaction \<Rightarrow> AccountInfoUpdate list outcome \<times> ledger" where
  "ledgerTransfer ti L tx =
     (let s = tx_Sender tx; r = tx_Recipient tx; i = unat ti; amount = tx_Amount tx;
          ((rinfo, new), L1) = ledgerOpen L r ti
      in case L1 s of
        None \<Rightarrow> (Err ErrAccountNotFound, L1)
      | Some sinfo \<Rightarrow>
          if amount < 0 then (Err ErrInvalidAmount, L1)
          else if length (Balances sinfo) < i then (Err ErrSenderNoSuchToken, L1)
          else if length (Balances sinfo) = i then (Panic IndexOutOfRange, L1)
          else if TransferNonces sinfo ! i \<noteq> tx_Nonce tx
          then (Err (invalidNonce (TransferNonces sinfo ! i) (tx_Nonce tx)), L1)
          else if Balances sinfo ! i < amount then (Err ErrInsufficientBalance, L1)
          else let s' = debit i amount (nextTransfer i sinfo); r' = credit i amount rinfo
               in (Ok [\<lparr>upd_Info = s', upd_NewAccount = False\<rparr>, \<lparr>upd_Info = r', upd_NewAccount = new\<rparr>],
                   L1(s \<mapsto> s', r \<mapsto> r')))"

definition ledgerApply ::
  "(bytes \<Rightarrow> u64 outcome) \<Rightarrow> ledger \<Rightarrow> Transaction \<Rightarrow> AccountInfoUpdate list outcome \<times> ledger" where
  "ledgerApply T L tx =
     (case T (tx_Token tx) of
        Err e \<Rightarrow> (Err e, L)
      | Panic p \<Rightarrow> (Panic p, L)
      | Ok ti \<Rightarrow> (case GetTransactionType tx of
            TransactionTypeDeposit \<Rightarrow> ledgerDeposit ti L tx
          | TransactionTypeWithdraw \<Rightarrow> ledgerWithdraw ti L tx
          | TransactionTypeTransfer \<Rightarrow> ledgerTransfer ti L tx))"

text \<open>
  Slots: how many accounts there are, and the key each one got when it was opened. Which
  transactions open an account depends on the ledger alone.
\<close>

type_synonym slots = "nat \<times> (bytes \<rightharpoonup> bytes)"

definition openSlot :: "ledger \<Rightarrow> bytes \<Rightarrow> slots \<Rightarrow> slots" where
  "openSlot L a s = (if L a = None then (Suc (fst s), (snd s)(a \<mapsto> natBytes (fst s))) else s)"

definition slotsAfter :: "(bytes \<Rightarrow> u64 outcome) \<Rightarrow> ledger \<Rightarrow> Transaction \<Rightarrow> slots \<Rightarrow> slots" where
  "slotsAfter T L tx s =
     (case T (tx_Token tx) of
        Ok ti \<Rightarrow> (case GetTransactionType tx of
            TransactionTypeDeposit \<Rightarrow> openSlot L (tx_Account tx) s
          | TransactionTypeWithdraw \<Rightarrow> s
          | TransactionTypeTransfer \<Rightarrow> openSlot L (tx_Recipient tx) s)
      | _ \<Rightarrow> s)"

text \<open>The accounts a transaction may open; for a withdrawal, the account it needs.\<close>

definition tx_addresses :: "Transaction \<Rightarrow> bytes list" where
  "tx_addresses tx =
     (case GetTransactionType tx of
        TransactionTypeTransfer \<Rightarrow> [tx_Recipient tx] | _ \<Rightarrow> [tx_Account tx])"

declare padTo_def [ledger_eval] and expand_def [ledger_eval] and balanceOf_def [ledger_eval]
  and credit_def [ledger_eval] and debit_def [ledger_eval] and nextTransfer_def [ledger_eval]
  and nextWithdraw_def [ledger_eval] and ledgerOpen_def [ledger_eval] and ledgerDeposit_def [ledger_eval]
  and ledgerWithdraw_def [ledger_eval] and ledgerTransfer_def [ledger_eval] and ledgerApply_def [ledger_eval]
  and emptyAccount_def [ledger_eval]

section \<open>The account operations\<close>

lemma length_padTo [simp]: "length (padTo n xs) = max n (length xs)"
  by (simp add: padTo_def)

lemma padTo_le: "n \<le> length xs \<Longrightarrow> padTo n xs = xs"
  by (simp add: padTo_def)

lemma nth_padTo: "i < n \<Longrightarrow> padTo n xs ! i = (if i < length xs then xs ! i else 0)"
  by (auto simp: padTo_def nth_append)

lemma set_padTo: "set (padTo n xs) \<subseteq> insert 0 (set xs)"
  by (auto simp: padTo_def)

lemma sum_list_padTo [simp]: "sum_list (padTo n xs) = sum_list xs"
  by (simp add: padTo_def sum_list_replicate)

lemma expandLoop_replicate:
  "expandLoop n bs ts ws = (bs @ replicate n 0, ts @ replicate n 0, ws @ replicate n 0)"
  by (induction n arbitrary: bs ts ws) (simp_all add: replicate_append_same)

lemma maybeExpand_expand:
  assumes "account_wf info" and "unat ti < maxSliceLen"
  shows "maybeExpandAccountInfo ti info =
    (Balances (expand (unat ti) info), TransferNonces (expand (unat ti) info), WithdrawNonces (expand (unat ti) info))"
proof -
  obtain n where n: "unat ti = n" by blast
  have g: "goInt ti = int n" using assms(2) by (simp add: goInt_small maxSliceLen_def n del: of_nat_unat)
  have k: "nat (int n - (int l - 1)) = Suc n - l" for l by linarith
  show ?thesis
    using assms(1)
    by (auto simp: maybeExpandAccountInfo_def Let_def g n expandLoop_replicate expand_def padTo_def account_wf_def k)
qed

lemma balanceOf_credit: "balanceOf (credit i amount info) j = balanceOf info j + (if j = i then amount else 0)"
  by (auto simp: balanceOf_def credit_def expand_def Let_def nth_list_update nth_padTo padTo_def nth_append)

lemma balanceOf_debit:
  "i < length (Balances info) \<Longrightarrow>
    balanceOf (debit i amount info) j = balanceOf info j - (if j = i then amount else 0)"
  by (auto simp: balanceOf_def debit_def nth_list_update)

lemma balanceOf_nonces [simp]:
  "balanceOf (nextTransfer i info) = balanceOf info" "balanceOf (nextWithdraw i info) = balanceOf info"
  by (simp_all add: balanceOf_def nextTransfer_def nextWithdraw_def fun_eq_iff)

lemma Account_ops [simp]:
  "Account (credit i amount info) = Account info" "Account (debit i amount info) = Account info"
  "Account (nextTransfer i info) = Account info" "Account (nextWithdraw i info) = Account info"
  by (simp_all add: credit_def expand_def debit_def nextTransfer_def nextWithdraw_def Let_def)

lemma Balances_nonces [simp]:
  "Balances (nextTransfer i info) = Balances info" "Balances (nextWithdraw i info) = Balances info"
  by (simp_all add: nextTransfer_def nextWithdraw_def)

text \<open>The operations keep the three lists equally long; the bounds are the caller's to check.\<close>

lemma account_wf_ops:
  assumes "account_wf info"
  shows "account_fits (credit i amount info) \<Longrightarrow> account_wf (credit i amount info)"
    and "account_fits (debit i amount (nextTransfer i info)) \<Longrightarrow> account_wf (debit i amount (nextTransfer i info))"
    and "account_fits (debit i amount (nextWithdraw i info)) \<Longrightarrow> account_wf (debit i amount (nextWithdraw i info))"
  using assms
  by (simp_all add: account_wf_def credit_def expand_def debit_def nextTransfer_def nextWithdraw_def Let_def)

end
