(* ===== verification/Ledger_Facts.thy ===== *)
theory Ledger_Facts
  imports Ledger_Spec
begin

text \<open>
  What the ledger's transactions do to balances and nonces. These facts are about plain maps;
  the refinement carries them over to the database and the tree.
\<close>

definition balanceIn :: "ledger \<Rightarrow> bytes \<Rightarrow> nat \<Rightarrow> int" where
  "balanceIn L a i = (case L a of None \<Rightarrow> 0 | Some info \<Rightarrow> balanceOf info i)"

lemma balanceOf_emptyAccount [simp]: "balanceOf (emptyAccount a n) i = 0"
  by (simp add: balanceOf_def emptyAccount_def)

lemma balanceIn_update: "balanceIn (L(a \<mapsto> info)) b i = (if b = a then balanceOf info i else balanceIn L b i)"
  by (simp add: balanceIn_def)

lemma balanceIn_Some: "L a = Some info \<Longrightarrow> balanceIn L a i = balanceOf info i"
  by (simp add: balanceIn_def)

lemma balanceIn_open [simp]: "balanceIn (snd (ledgerOpen L a ti)) b i = balanceIn L b i"
  by (simp add: ledgerOpen_def balanceIn_def split: option.splits)

lemma open_Some: "snd (ledgerOpen L a ti) a = Some (fst (fst (ledgerOpen L a ti)))"
  by (simp add: ledgerOpen_def split: option.splits)

lemma balanceOf_opened: "balanceOf (fst (fst (ledgerOpen L a ti))) i = balanceIn L a i"
  by (simp add: ledgerOpen_def balanceIn_def split: option.splits)

section \<open>Successful transactions\<close>

lemma ledgerDeposit_balance:
  assumes "fst (ledgerDeposit ti L tx) = Ok us"
  shows "0 \<le> tx_Amount tx \<and> balanceIn (snd (ledgerDeposit ti L tx)) b j =
    balanceIn L b j + (if b = tx_Account tx \<and> j = unat ti then tx_Amount tx else 0)"
proof -
  obtain info new L1 where op: "ledgerOpen L (tx_Account tx) ti = ((info, new), L1)" by (metis prod.collapse)
  then have "balanceIn L1 b j = balanceIn L b j" "balanceOf info j = balanceIn L (tx_Account tx) j"
    using balanceIn_open [of L "tx_Account tx" ti b j] balanceOf_opened [of L "tx_Account tx" ti j] by simp_all
  then show ?thesis
    using assms by (auto simp: ledgerDeposit_def op Let_def balanceIn_update balanceOf_credit split: if_splits)
qed

lemma ledgerWithdraw_info:
  assumes "fst (ledgerWithdraw ti L tx) = Ok us"
  obtains info where "L (tx_Account tx) = Some info" and "unat ti < length (Balances info)"
    and "0 \<le> tx_Amount tx" and "tx_Amount tx \<le> Balances info ! unat ti"
    and "WithdrawNonces info ! unat ti = tx_Nonce tx"
    and "snd (ledgerWithdraw ti L tx) =
      L(tx_Account tx \<mapsto> debit (unat ti) (tx_Amount tx) (nextWithdraw (unat ti) info))"
  using assms by (auto simp: ledgerWithdraw_def Let_def not_less not_le split: option.splits if_splits)

lemma ledgerWithdraw_balance:
  assumes "fst (ledgerWithdraw ti L tx) = Ok us"
  shows "0 \<le> tx_Amount tx \<and> tx_Amount tx \<le> balanceIn L (tx_Account tx) (unat ti) \<and>
    balanceIn (snd (ledgerWithdraw ti L tx)) b j =
      balanceIn L b j - (if b = tx_Account tx \<and> j = unat ti then tx_Amount tx else 0)"
  using assms
  by (rule ledgerWithdraw_info) (auto simp: balanceIn_update balanceOf_debit balanceIn_Some balanceOf_def [of _ "unat ti"])

lemma ledgerTransfer_info:
  assumes "fst (ledgerTransfer ti L tx) = Ok us"
  obtains sinfo where "snd (ledgerOpen L (tx_Recipient tx) ti) (tx_Sender tx) = Some sinfo"
    and "unat ti < length (Balances sinfo)" and "0 \<le> tx_Amount tx" and "tx_Amount tx \<le> Balances sinfo ! unat ti"
    and "TransferNonces sinfo ! unat ti = tx_Nonce tx"
    and "snd (ledgerTransfer ti L tx) = (snd (ledgerOpen L (tx_Recipient tx) ti))
      (tx_Sender tx \<mapsto> debit (unat ti) (tx_Amount tx) (nextTransfer (unat ti) sinfo),
       tx_Recipient tx \<mapsto> credit (unat ti) (tx_Amount tx) (fst (fst (ledgerOpen L (tx_Recipient tx) ti))))"
  using assms
  by (auto simp: ledgerTransfer_def Let_def not_less not_le split: option.splits if_splits prod.splits)

lemma ledgerTransfer_balance:
  assumes "fst (ledgerTransfer ti L tx) = Ok us" and "tx_Sender tx \<noteq> tx_Recipient tx"
  shows "0 \<le> tx_Amount tx \<and> tx_Amount tx \<le> balanceIn L (tx_Sender tx) (unat ti) \<and>
    balanceIn (snd (ledgerTransfer ti L tx)) b j = balanceIn L b j
      - (if b = tx_Sender tx \<and> j = unat ti then tx_Amount tx else 0)
      + (if b = tx_Recipient tx \<and> j = unat ti then tx_Amount tx else 0)"
  using assms(1)
proof (rule ledgerTransfer_info)
  fix sinfo
  assume S: "snd (ledgerOpen L (tx_Recipient tx) ti) (tx_Sender tx) = Some sinfo"
    "unat ti < length (Balances sinfo)" "0 \<le> tx_Amount tx" "tx_Amount tx \<le> Balances sinfo ! unat ti"
    "snd (ledgerTransfer ti L tx) = (snd (ledgerOpen L (tx_Recipient tx) ti))
      (tx_Sender tx \<mapsto> debit (unat ti) (tx_Amount tx) (nextTransfer (unat ti) sinfo),
       tx_Recipient tx \<mapsto> credit (unat ti) (tx_Amount tx) (fst (fst (ledgerOpen L (tx_Recipient tx) ti))))"
  have s: "balanceIn L (tx_Sender tx) k = balanceOf sinfo k" for k
    using S(1) balanceIn_open [of L "tx_Recipient tx" ti "tx_Sender tx" k] by (simp add: balanceIn_def)
  then show ?thesis
    using S assms(2)
    by (auto simp: balanceIn_update balanceOf_debit balanceOf_credit balanceOf_opened balanceOf_def [of _ "unat ti"])
qed

text \<open>A self-transfer: the credited copy is written last and the debit is lost.\<close>

lemma ledgerTransfer_self:
  assumes "fst (ledgerTransfer ti L tx) = Ok us" and "tx_Sender tx = tx_Recipient tx" and "L (tx_Sender tx) = Some info"
  shows "snd (ledgerTransfer ti L tx) = L(tx_Sender tx \<mapsto> credit (unat ti) (tx_Amount tx) info)"
proof -
  have "ledgerOpen L (tx_Recipient tx) ti = ((info, False), L)" using assms(2,3) by (simp add: ledgerOpen_def)
  then show ?thesis using assms(1,2) by (elim ledgerTransfer_info) simp
qed

section \<open>Rejected transactions\<close>

text \<open>A rejected transaction changes no balance; all it may leave behind is an empty account.\<close>

lemma ledgerOpen_old: "L b \<noteq> None \<Longrightarrow> snd (ledgerOpen L a ti) b = L b"
  by (auto simp: ledgerOpen_def split: option.splits)

lemma ledger_rejected:
  "\<not> is_Ok (fst (ledgerDeposit ti L tx)) \<Longrightarrow>
    snd (ledgerDeposit ti L tx) = snd (ledgerOpen L (tx_Account tx) ti)"
  "\<not> is_Ok (fst (ledgerWithdraw ti L tx)) \<Longrightarrow> snd (ledgerWithdraw ti L tx) = L"
  "\<not> is_Ok (fst (ledgerTransfer ti L tx)) \<Longrightarrow>
    snd (ledgerTransfer ti L tx) = snd (ledgerOpen L (tx_Recipient tx) ti)"
  by (auto simp: ledgerDeposit_def ledgerWithdraw_def ledgerTransfer_def Let_def split: prod.splits option.splits if_splits)

lemma ledgerApply_rejected:
  assumes "\<not> is_Ok (fst (ledgerApply T L tx))"
  shows "snd (ledgerApply T L tx) = L \<or>
    (\<exists>a ti. a \<in> set (tx_addresses tx) \<and> snd (ledgerApply T L tx) = snd (ledgerOpen L a ti))"
proof (cases "T (tx_Token tx)")
  case (Ok ti)
  then show ?thesis
    using assms ledger_rejected [of ti L tx]
    by (cases "GetTransactionType tx") (auto simp: ledgerApply_def tx_addresses_def)
qed (simp_all add: ledgerApply_def)

end
