(* ===== verification/Ledger_Refinement.thy ===== *)
theory Ledger_Refinement
  imports Ledger_Facts
begin

text \<open>
  The state machine implements the ledger: on a database that keeps the contract
  \<open>kv_db\<close>, from a well-formed state, each handler returns what the ledger's function
  returns, error for error, and leaves a well-formed state that stands for the ledger's result.
\<close>

section \<open>The ledger of a database\<close>

definition ledgerOf :: "serializer \<Rightarrow> (bytes \<rightharpoonup> bytes) \<Rightarrow> ledger" where
  "ledgerOf ser m a = (case lookupAccount ser m a of Ok info \<Rightarrow> Some info | _ \<Rightarrow> None)"

definition implements ::
  "serializer \<Rightarrow> hasher \<Rightarrow> (bytes \<rightharpoonup> bytes) \<Rightarrow> smt \<Rightarrow> slots \<Rightarrow> ledger \<Rightarrow> bool" where
  "implements ser H m tr s L \<longleftrightarrow>
     (\<exists>t. sm_wf ser H m tr (fst s) t) \<and> accKey m = snd s \<and> ledgerOf ser m = L"

lemma implementsE:
  assumes "implements ser H m tr s L"
  obtains t where "sm_wf ser H m tr (fst s) t" and "snd s = accKey m" and "L = ledgerOf ser m"
  using assms by (auto simp: implements_def)

lemma implements_None:
  assumes "implements ser H m tr s L" and "L a = None"
  shows "accKey m a = None" and "lookupAccount ser m a = Err ErrAccountNotFound"
  using assms lookupAccount_cases by (fastforce simp: implements_def ledgerOf_def split: outcome.splits)+

lemma implements_Some:
  assumes "implements ser H m tr s L" and "L a = Some info"
  shows "lookupAccount ser m a = Ok info" and "account_wf info" and "Account info = a"
    and "\<exists>k. accKey m a = Some k"
proof -
  obtain t where wf: "sm_wf ser H m tr (fst s) t" using assms(1) by (auto simp: implements_def)
  show l: "lookupAccount ser m a = Ok info"
    using assms by (auto simp: implements_def ledgerOf_def split: outcome.splits)
  show "account_wf info" "Account info = a" "\<exists>k. accKey m a = Some k"
    using lookupAccount_Ok_wf [OF wf l] by metis+
qed

section \<open>Collision conditions of the handlers\<close>

text \<open>
  \<open>updateFresh\<close> for every tree update the handler makes, at the state where it makes it.
\<close>

definition openFresh :: "('d, 't, 'b) DB \<Rightarrow> hasher \<Rightarrow> serializer \<Rightarrow> 'd sm \<Rightarrow> bytes \<Rightarrow> u64 \<Rightarrow> bool" where
  "openFresh I H ser sm a ti =
     (case getAccountInfo I ser sm a of Err _ \<Rightarrow> createFresh I H ser sm a (ti + 1) | _ \<Rightarrow> True)"

definition depositFresh :: "('d, 't, 'b) DB \<Rightarrow> hasher \<Rightarrow> serializer \<Rightarrow> 'd sm \<Rightarrow> Transaction \<Rightarrow> u64 \<Rightarrow> bool" where
  "depositFresh I H ser sm tx ti =
     (openFresh I H ser sm (tx_Account tx) ti \<and>
      (case getOrCreateAccount I H ser sm (tx_Account tx) ti of
         (Ok (info, _), sm1) \<Rightarrow> setFresh I H ser sm1 (tx_Account tx) (credit (unat ti) (tx_Amount tx) info)
       | _ \<Rightarrow> True))"

definition withdrawFresh :: "('d, 't, 'b) DB \<Rightarrow> hasher \<Rightarrow> serializer \<Rightarrow> 'd sm \<Rightarrow> Transaction \<Rightarrow> u64 \<Rightarrow> bool" where
  "withdrawFresh I H ser sm tx ti =
     (case getAccountInfo I ser sm (tx_Account tx) of
        Ok info \<Rightarrow> unat ti < length (Balances info) \<longrightarrow>
          setFresh I H ser sm (tx_Account tx) (debit (unat ti) (tx_Amount tx) (nextWithdraw (unat ti) info))
      | _ \<Rightarrow> True)"

definition transferFresh :: "('d, 't, 'b) DB \<Rightarrow> hasher \<Rightarrow> serializer \<Rightarrow> 'd sm \<Rightarrow> Transaction \<Rightarrow> u64 \<Rightarrow> bool" where
  "transferFresh I H ser sm tx ti =
     (openFresh I H ser sm (tx_Recipient tx) ti \<and>
      (case getOrCreateAccount I H ser sm (tx_Recipient tx) ti of
         (Ok (rinfo, _), sm1) \<Rightarrow> (case getAccountInfo I ser sm1 (tx_Sender tx) of
             Ok sinfo \<Rightarrow> unat ti < length (Balances sinfo) \<longrightarrow>
               (let s' = debit (unat ti) (tx_Amount tx) (nextTransfer (unat ti) sinfo)
                in setFresh I H ser sm1 (tx_Sender tx) s' \<and>
                   (case setAccountInfo I H ser sm1 (tx_Sender tx) s' of
                      (Ok _, sm2) \<Rightarrow> setFresh I H ser sm2 (tx_Recipient tx) (credit (unat ti) (tx_Amount tx) rinfo)
                    | _ \<Rightarrow> True))
           | _ \<Rightarrow> True)
       | _ \<Rightarrow> True))"

definition applyFresh :: "('d, 't, 'b) DB \<Rightarrow> hasher \<Rightarrow> serializer \<Rightarrow> 'd sm \<Rightarrow> Transaction \<Rightarrow> bool" where
  "applyFresh I H ser sm tx =
     (case getTokenIndex I sm (tx_Token tx) of
        Ok ti \<Rightarrow> (case GetTransactionType tx of
            TransactionTypeDeposit \<Rightarrow> depositFresh I H ser sm tx ti
          | TransactionTypeWithdraw \<Rightarrow> withdrawFresh I H ser sm tx ti
          | TransactionTypeTransfer \<Rightarrow> transferFresh I H ser sm tx ti)
      | _ \<Rightarrow> True)"

section \<open>Bounds of a transaction\<close>

text \<open>
  Addresses have 20 bytes by their Go type; the records written fit into the ABI's
  \<^verbatim>\<open>uint256\<close>, and the token index into a slice.
\<close>

definition updates_fit :: "AccountInfoUpdate list outcome \<Rightarrow> bool" where
  "updates_fit r = (case r of Ok us \<Rightarrow> list_all (\<lambda>u. account_fits (upd_Info u)) us | _ \<Rightarrow> True)"

definition token_fits :: "u64 outcome \<Rightarrow> bool" where
  "token_fits r = (case r of Ok ti \<Rightarrow> unat ti < maxSliceLen | _ \<Rightarrow> True)"

declare updates_fit_def [size_conditions] and token_fits_def [size_conditions] and tx_addresses_def [size_conditions]
  and account_fits_def [size_conditions] and uint256_def [size_conditions] and maxSliceLen_def [size_conditions]

section \<open>The refinement\<close>

context kv_db
begin

definition stands :: "serializer \<Rightarrow> hasher \<Rightarrow> 'd sm \<Rightarrow> slots \<Rightarrow> ledger \<Rightarrow> bool" where
  "stands ser H sm sl L \<longleftrightarrow> implements ser H (view (smDb sm)) (smTree sm) sl L"

lemma getAccountInfo_stands:
  assumes "stands ser H sm sl L"
  shows "getAccountInfo I ser sm a = (case L a of None \<Rightarrow> Err ErrAccountNotFound | Some info \<Rightarrow> Ok info)"
  using implements_None [OF assms [unfolded stands_def]] implements_Some [OF assms [unfolded stands_def]]
  by (auto simp: getAccountInfo_lookup split: option.splits)

lemma setAccountInfo_refines:
  assumes "hasher_ok H" and "serializer_ok ser" and st: "stands ser H sm sl L"
    and "L a \<noteq> None" and "account_wf info" and "Account info = a" and "setFresh I H ser sm a info"
  shows "\<exists>sm'. setAccountInfo I H ser sm a info = (Ok (), sm') \<and> stands ser H sm' sl (L(a \<mapsto> info)) \<and>
    tokenEntries (view (smDb sm')) = tokenEntries (view (smDb sm)) \<and> height (smTree sm') = height (smTree sm)"
proof -
  obtain t where wf: "sm_wf ser H (view (smDb sm)) (smTree sm) (fst sl) t" and K: "snd sl = accKey (view (smDb sm))"
    and L: "L = ledgerOf ser (view (smDb sm))"
    using implementsE [OF st [unfolded stands_def]] by metis
  obtain k where k: "accKey (view (smDb sm)) a = Some k"
    using implements_Some(4) [OF st [unfolded stands_def]] assms(4) by blast
  from setAccountInfo_ok [OF assms(1,2) wf k assms(5,6,7)] obtain sm' t' where *:
    "setAccountInfo I H ser sm a info = (Ok (), sm')" "sm_wf ser H (view (smDb sm')) (smTree sm') (fst sl) t'"
    "height (smTree sm') = height (smTree sm)"
    "unchangedExcept {NamespaceStateTrie, NamespaceKeyToAccountInfo} (view (smDb sm)) (view (smDb sm'))"
    "\<And>b. lookupAccount ser (view (smDb sm')) b = (if b = a then Ok info else lookupAccount ser (view (smDb sm)) b)"
    by blast
  moreover have "ledgerOf ser (view (smDb sm')) = L(a \<mapsto> info)"
    by (auto simp: ledgerOf_def L *(5))
  ultimately show ?thesis
    using unchangedExceptD(1,5) [OF *(4)] K by (auto simp: stands_def implements_def)
qed

lemma open_refines:
  assumes "hasher_ok H" and "serializer_ok ser" and st: "stands ser H sm sl L"
    and "length a = 20" and "unat ti < maxSliceLen" and "fst sl < 2 ^ nat (height (smTree sm) - 1)"
    and fresh: "openFresh I H ser sm a ti"
  shows "\<exists>sm'. getOrCreateAccount I H ser sm a ti = (Ok (fst (ledgerOpen L a ti)), sm') \<and>
    stands ser H sm' (openSlot L a sl) (snd (ledgerOpen L a ti)) \<and>
    tokenEntries (view (smDb sm')) = tokenEntries (view (smDb sm)) \<and> height (smTree sm') = height (smTree sm)"
proof (cases "L a")
  case (Some info)
  then show ?thesis
    using st by (auto simp: getOrCreateAccount_def getAccountInfo_stands [OF st] ledgerOpen_def openSlot_def)
next
  case None
  obtain t where wf: "sm_wf ser H (view (smDb sm)) (smTree sm) (fst sl) t" and K: "snd sl = accKey (view (smDb sm))"
    and L: "L = ledgerOf ser (view (smDb sm))"
    using implementsE [OF st [unfolded stands_def]] by metis
  have get: "getAccountInfo I ser sm a = Err ErrAccountNotFound"
    by (simp add: getAccountInfo_stands [OF st] None)
  have k: "accKey (view (smDb sm)) a = None"
    using implements_None(1) [OF st [unfolded stands_def] None] .
  have ti: "unat (ti + 1) \<le> maxSliceLen"
    using assms(5) by (simp add: unat_plus_simple [THEN iffD1] unat_word_ariths maxSliceLen_def)
  have fr: "createFresh I H ser sm a (ti + 1)" using fresh get by (simp add: openFresh_def)
  from createAccount_ok [OF assms(1,2) wf k assms(4) ti assms(6) fr] obtain sm' t' where *:
    "createAccount I H ser sm a (ti + 1) = (Ok (emptyAccount a (ti + 1)), sm')"
    "sm_wf ser H (view (smDb sm')) (smTree sm') (Suc (fst sl)) t'" "height (smTree sm') = height (smTree sm)"
    "unchangedExcept {NamespaceStateTrie, NamespaceKeyToAccountInfo, NamespaceLastKey,
       NamespaceAccountAddressToKey} (view (smDb sm)) (view (smDb sm'))"
    "\<And>b. lookupAccount ser (view (smDb sm')) b =
       (if b = a then Ok (emptyAccount a (ti + 1)) else lookupAccount ser (view (smDb sm)) b)"
    "accKey (view (smDb sm')) = (accKey (view (smDb sm)))(a \<mapsto> natBytes (fst sl))"
    by blast
  have "ledgerOf ser (view (smDb sm')) = L(a \<mapsto> emptyAccount a (ti + 1))"
    by (auto simp: ledgerOf_def L *(5))
  then have "stands ser H sm' (openSlot L a sl) (L(a \<mapsto> emptyAccount a (ti + 1)))"
    using *(2,6) K None by (auto simp: stands_def implements_def openSlot_def)
  moreover have "getOrCreateAccount I H ser sm a ti = (Ok (emptyAccount a (ti + 1), True), sm')"
    by (simp add: getOrCreateAccount_def get *(1))
  ultimately show ?thesis
    using unchangedExceptD(5) [OF *(4)] *(3) by (auto simp: ledgerOpen_def None)
qed

text \<open>What the handlers build is what the ledger's account operations say.\<close>

lemma open_info:
  assumes "stands ser H sm sl L" and "ledgerOpen L a ti = ((info, new), L1)" and "length a = 20"
  shows "account_wf info" and "Account info = a" and "L1 a = Some info"
  using assms implements_Some [OF assms(1) [unfolded stands_def]] emptyAccount_wf
  by (auto simp: ledgerOpen_def split: option.splits)

lemma deposit_refines:
  assumes H: "hasher_ok H" and ser: "serializer_ok ser" and st: "stands ser H sm sl L"
    and ti: "getTokenIndex I sm (tx_Token tx) = Ok ti" "unat ti < maxSliceLen"
    and len: "length (tx_Account tx) = 20" and room: "fst sl < 2 ^ nat (height (smTree sm) - 1)"
    and fits: "updates_fit (fst (ledgerDeposit ti L tx))" and fresh: "depositFresh I H ser sm tx ti"
  shows "\<exists>sm'. applyDeposit I H ser sm tx = (fst (ledgerDeposit ti L tx), sm') \<and>
    stands ser H sm' (openSlot L (tx_Account tx) sl) (snd (ledgerDeposit ti L tx)) \<and>
    tokenEntries (view (smDb sm')) = tokenEntries (view (smDb sm)) \<and> height (smTree sm') = height (smTree sm)"
proof -
  let ?a = "tx_Account tx" and ?i = "unat ti"
  obtain info new L1 where op: "ledgerOpen L ?a ti = ((info, new), L1)" by (metis prod.collapse)
  note O = open_info [OF st op len]
  have fr: "openFresh I H ser sm ?a ti" using fresh by (simp add: depositFresh_def)
  from open_refines [OF H ser st len ti(2) room fr] obtain sm1 where sm1:
    "getOrCreateAccount I H ser sm ?a ti = (Ok (info, new), sm1)" "stands ser H sm1 (openSlot L ?a sl) L1"
    "tokenEntries (view (smDb sm1)) = tokenEntries (view (smDb sm))" "height (smTree sm1) = height (smTree sm)"
    by (auto simp: op)
  show ?thesis
  proof (cases "tx_Amount tx < 0")
    case True
    then show ?thesis using sm1 by (auto simp: applyDeposit_def ti(1) ledgerDeposit_def op Let_def)
  next
    case False
    let ?info' = "credit ?i (tx_Amount tx) info"
    have L: "ledgerDeposit ti L tx = (Ok [\<lparr>upd_Info = ?info', upd_NewAccount = new\<rparr>], L1(?a \<mapsto> ?info'))"
      using False by (simp add: ledgerDeposit_def op Let_def)
    have wf: "account_wf ?info'" using account_wf_ops(1) [OF O(1)] fits by (simp add: L updates_fit_def)
    have fr1: "setFresh I H ser sm1 ?a ?info'" using fresh by (simp add: depositFresh_def sm1(1))
    have "L1 ?a \<noteq> None" "Account ?info' = ?a" using O by simp_all
    from setAccountInfo_refines [OF H ser sm1(2) this(1) wf this(2) fr1] obtain sm2 where sm2:
      "setAccountInfo I H ser sm1 ?a ?info' = (Ok (), sm2)" "stands ser H sm2 (openSlot L ?a sl) (L1(?a \<mapsto> ?info'))"
      "tokenEntries (view (smDb sm2)) = tokenEntries (view (smDb sm1))" "height (smTree sm2) = height (smTree sm1)"
      by blast
    have len: "?i < length (Balances (expand ?i info))" by (simp add: expand_def)
    have old: "Balances (expand ?i info) ! ?i = balanceOf info ?i"
      by (simp add: expand_def balanceOf_def nth_padTo)
    have info': "\<lparr>Account = ?a, Balances = (Balances (expand ?i info))[?i := balanceOf info ?i + tx_Amount tx],
        TransferNonces = TransferNonces (expand ?i info), WithdrawNonces = WithdrawNonces (expand ?i info)\<rparr> = ?info'"
      by (simp add: credit_def expand_def O(2) Let_def)
    have "applyDeposit I H ser sm tx = (Ok [\<lparr>upd_Info = ?info', upd_NewAccount = new\<rparr>], sm2)"
      using False len sm2(1)
      by (simp add: applyDeposit_def ti(1) sm1(1) Let_def maybeExpand_expand [OF O(1) ti(2)] old info')
    then show ?thesis using sm2 sm1 by (auto simp: L)
  qed
qed

lemma withdraw_refines:
  assumes H: "hasher_ok H" and ser: "serializer_ok ser" and st: "stands ser H sm sl L"
    and ti: "getTokenIndex I sm (tx_Token tx) = Ok ti" "unat ti < maxSliceLen"
    and fits: "updates_fit (fst (ledgerWithdraw ti L tx))" and fresh: "withdrawFresh I H ser sm tx ti"
  shows "\<exists>sm'. applyWithdraw I H ser sm tx = (fst (ledgerWithdraw ti L tx), sm') \<and>
    stands ser H sm' sl (snd (ledgerWithdraw ti L tx)) \<and>
    tokenEntries (view (smDb sm')) = tokenEntries (view (smDb sm)) \<and> height (smTree sm') = height (smTree sm)"
proof (cases "L (tx_Account tx)")
  case None
  then show ?thesis
    using st by (auto simp: applyWithdraw_def ti(1) getAccountInfo_stands [OF st] ledgerWithdraw_def)
next
  case (Some info)
  let ?a = "tx_Account tx" and ?i = "unat ti"
  obtain i where i: "unat ti = i" by blast
  have g: "goInt ti = int i" using ti(2) by (simp add: goInt_small maxSliceLen_def i del: of_nat_unat)
  note S = implements_Some [OF st [unfolded stands_def] Some]
  have nonces: "length (WithdrawNonces info) = length (Balances info)" using S(2) by (simp add: account_wf_def)
  have get: "getAccountInfo I ser sm ?a = Ok info" by (simp add: getAccountInfo_stands [OF st] Some)
  show ?thesis
  proof (cases "0 \<le> tx_Amount tx \<and> i < length (Balances info) \<and> tx_Amount tx \<le> Balances info ! i \<and>
      WithdrawNonces info ! i = tx_Nonce tx")
    case False
    then show ?thesis
      using st nonces
      by (auto simp: applyWithdraw_def ti(1) get ledgerWithdraw_def Some Let_def g i not_less)
  next
    case True
    let ?info' = "debit i (tx_Amount tx) (nextWithdraw i info)"
    have L: "ledgerWithdraw ti L tx = (Ok [\<lparr>upd_Info = ?info', upd_NewAccount = False\<rparr>], L(?a \<mapsto> ?info'))"
      using True by (simp add: ledgerWithdraw_def Some Let_def i)
    have wf: "account_wf ?info'" using account_wf_ops(3) [OF S(2)] fits by (simp add: L updates_fit_def)
    have fr1: "setFresh I H ser sm ?a ?info'" using fresh True by (simp add: withdrawFresh_def get i)
    have "L ?a \<noteq> None" "Account ?info' = ?a" using Some S(3) by simp_all
    from setAccountInfo_refines [OF H ser st this(1) wf this(2) fr1] obtain sm2 where sm2:
      "setAccountInfo I H ser sm ?a ?info' = (Ok (), sm2)" "stands ser H sm2 sl (L(?a \<mapsto> ?info'))"
      "tokenEntries (view (smDb sm2)) = tokenEntries (view (smDb sm))" "height (smTree sm2) = height (smTree sm)"
      by blast
    have info': "\<lparr>Account = ?a, Balances = (Balances info)[i := Balances info ! i - tx_Amount tx],
        TransferNonces = TransferNonces info, WithdrawNonces = (WithdrawNonces info)[i := tx_Nonce tx + 1]\<rparr> = ?info'"
      using True S(3) by (simp add: debit_def nextWithdraw_def)
    have "applyWithdraw I H ser sm tx = (Ok [\<lparr>upd_Info = ?info', upd_NewAccount = False\<rparr>], sm2)"
      using True nonces sm2(1)
      by (simp add: applyWithdraw_def ti(1) get Let_def g i info' not_less not_le)
    then show ?thesis using sm2 by (auto simp: L)
  qed
qed

lemma transfer_refines:
  assumes H: "hasher_ok H" and ser: "serializer_ok ser" and st: "stands ser H sm sl L"
    and ti: "getTokenIndex I sm (tx_Token tx) = Ok ti" "unat ti < maxSliceLen"
    and len: "length (tx_Recipient tx) = 20" and room: "fst sl < 2 ^ nat (height (smTree sm) - 1)"
    and fits: "updates_fit (fst (ledgerTransfer ti L tx))" and fresh: "transferFresh I H ser sm tx ti"
  shows "\<exists>sm'. applyTransfer I H ser sm tx = (fst (ledgerTransfer ti L tx), sm') \<and>
    stands ser H sm' (openSlot L (tx_Recipient tx) sl) (snd (ledgerTransfer ti L tx)) \<and>
    tokenEntries (view (smDb sm')) = tokenEntries (view (smDb sm)) \<and> height (smTree sm') = height (smTree sm)"
proof -
  let ?s = "tx_Sender tx" and ?r = "tx_Recipient tx"
  obtain i where i: "unat ti = i" by blast
  have g: "goInt ti = int i" using ti(2) by (simp add: goInt_small maxSliceLen_def i del: of_nat_unat)
  obtain rinfo new L1 where op: "ledgerOpen L ?r ti = ((rinfo, new), L1)" by (metis prod.collapse)
  note O = open_info [OF st op len]
  have fr: "openFresh I H ser sm ?r ti" using fresh by (simp add: transferFresh_def)
  from open_refines [OF H ser st len ti(2) room fr] obtain sm1 where sm1:
    "getOrCreateAccount I H ser sm ?r ti = (Ok (rinfo, new), sm1)" "stands ser H sm1 (openSlot L ?r sl) L1"
    "tokenEntries (view (smDb sm1)) = tokenEntries (view (smDb sm))" "height (smTree sm1) = height (smTree sm)"
    by (auto simp: op)
  show ?thesis
  proof (cases "L1 ?s")
    case None
    have get: "getAccountInfo I ser sm1 ?s = Err ErrAccountNotFound"
      by (simp add: getAccountInfo_stands [OF sm1(2)] None)
    show ?thesis
      using sm1 by (auto simp: applyTransfer_def ti(1) get ledgerTransfer_def op None)
  next
    case (Some sinfo)
    note S = implements_Some [OF sm1(2) [unfolded stands_def] Some]
    have nonces: "length (TransferNonces sinfo) = length (Balances sinfo)" using S(2) by (simp add: account_wf_def)
    have get: "getAccountInfo I ser sm1 ?s = Ok sinfo" by (simp add: getAccountInfo_stands [OF sm1(2)] Some)
    show ?thesis
    proof (cases "0 \<le> tx_Amount tx \<and> i < length (Balances sinfo) \<and> TransferNonces sinfo ! i = tx_Nonce tx \<and>
        tx_Amount tx \<le> Balances sinfo ! i")
      case False
      then show ?thesis
        using sm1 nonces
        by (auto simp: applyTransfer_def ti(1) get ledgerTransfer_def op Some Let_def g i not_less not_le)
    next
      case True
      let ?s' = "debit i (tx_Amount tx) (nextTransfer i sinfo)" and ?r' = "credit i (tx_Amount tx) rinfo"
      have L: "ledgerTransfer ti L tx =
          (Ok [\<lparr>upd_Info = ?s', upd_NewAccount = False\<rparr>, \<lparr>upd_Info = ?r', upd_NewAccount = new\<rparr>],
           L1(?s \<mapsto> ?s', ?r \<mapsto> ?r'))"
        using True by (simp add: ledgerTransfer_def op Some Let_def i)
      have wf: "account_wf ?s'" "account_wf ?r'"
        using account_wf_ops [OF S(2)] account_wf_ops [OF O(1)] fits by (simp_all add: L updates_fit_def)
      have fr1: "setFresh I H ser sm1 ?s ?s'"
        using fresh True by (simp add: transferFresh_def sm1(1) get i Let_def)
      have "L1 ?s \<noteq> None" "Account ?s' = ?s" using Some S(3) by simp_all
      from setAccountInfo_refines [OF H ser sm1(2) this(1) wf(1) this(2) fr1] obtain sm2 where sm2:
        "setAccountInfo I H ser sm1 ?s ?s' = (Ok (), sm2)" "stands ser H sm2 (openSlot L ?r sl) (L1(?s \<mapsto> ?s'))"
        "tokenEntries (view (smDb sm2)) = tokenEntries (view (smDb sm1))" "height (smTree sm2) = height (smTree sm1)"
        by blast
      have fr2: "setFresh I H ser sm2 ?r ?r'"
        using fresh True by (simp add: transferFresh_def sm1(1) get i Let_def sm2(1))
      have "(L1(?s \<mapsto> ?s')) ?r \<noteq> None" "Account ?r' = ?r" using O by simp_all
      from setAccountInfo_refines [OF H ser sm2(2) this(1) wf(2) this(2) fr2] obtain sm3 where sm3:
        "setAccountInfo I H ser sm2 ?r ?r' = (Ok (), sm3)" "stands ser H sm3 (openSlot L ?r sl) (L1(?s \<mapsto> ?s', ?r \<mapsto> ?r'))"
        "tokenEntries (view (smDb sm3)) = tokenEntries (view (smDb sm2))" "height (smTree sm3) = height (smTree sm2)"
        by blast
      have old: "Balances (expand i rinfo) ! i = balanceOf rinfo i" "i < length (Balances (expand i rinfo))"
        by (simp_all add: expand_def balanceOf_def nth_padTo)
      have s': "\<lparr>Account = ?s, Balances = (Balances sinfo)[i := Balances sinfo ! i - tx_Amount tx],
          TransferNonces = (TransferNonces sinfo)[i := tx_Nonce tx + 1],
          WithdrawNonces = WithdrawNonces sinfo\<rparr> = ?s'"
        using True S(3) by (simp add: debit_def nextTransfer_def)
      have r': "\<lparr>Account = ?r, Balances = (Balances (expand i rinfo))[i := balanceOf rinfo i + tx_Amount tx],
          TransferNonces = TransferNonces (expand i rinfo), WithdrawNonces = WithdrawNonces (expand i rinfo)\<rparr> = ?r'"
        by (simp add: credit_def expand_def O(2) Let_def)
      have "applyTransfer I H ser sm tx =
          (Ok [\<lparr>upd_Info = ?s', upd_NewAccount = False\<rparr>, \<lparr>upd_Info = ?r', upd_NewAccount = new\<rparr>], sm3)"
        using True nonces sm2(1) sm3(1)
        by (simp add: applyTransfer_def ti(1) sm1(1) get Let_def g maybeExpand_expand [OF O(1) ti(2)] i old s' r'
            not_less not_le)
      then show ?thesis using sm3 sm2 sm1 by (auto simp: L)
    qed
  qed
qed

theorem applyByType_refines:
  assumes H: "hasher_ok H" and ser: "serializer_ok ser" and st: "stands ser H sm sl L"
    and tok: "token_fits (tokenIndexOf (view (smDb sm)) (tx_Token tx))"
    and len: "list_all (\<lambda>a. length a = 20) (tx_addresses tx)"
    and room: "fst sl < 2 ^ nat (height (smTree sm) - 1)"
    and fits: "updates_fit (fst (ledgerApply (tokenIndexOf (view (smDb sm))) L tx))"
    and fresh: "applyFresh I H ser sm tx"
  shows "\<exists>sm'. applyByType I H ser sm tx = (fst (ledgerApply (tokenIndexOf (view (smDb sm))) L tx), sm') \<and>
    stands ser H sm' (slotsAfter (tokenIndexOf (view (smDb sm))) L tx sl) (snd (ledgerApply (tokenIndexOf (view (smDb sm))) L tx)) \<and>
    tokenEntries (view (smDb sm')) = tokenEntries (view (smDb sm)) \<and> height (smTree sm') = height (smTree sm)"
proof (cases "tokenIndexOf (view (smDb sm)) (tx_Token tx)")
  case (Ok ti)
  then have ti: "getTokenIndex I sm (tx_Token tx) = Ok ti" by (simp add: getTokenIndex_view)
  have lt: "unat ti < maxSliceLen" using tok Ok by (simp add: token_fits_def)
  show ?thesis
    using deposit_refines [OF H ser st ti lt _ room] withdraw_refines [OF H ser st ti lt]
      transfer_refines [OF H ser st ti lt _ room] fits fresh len
    by (cases "GetTransactionType tx")
      (fastforce simp: applyByType_def ledgerApply_def Ok applyFresh_def ti tx_addresses_def slotsAfter_def)+
next
  case (Err e)
  then show ?thesis
    using st by (auto simp: ledgerApply_def slotsAfter_def getTokenIndex_view applyByType_def applyDeposit_def applyWithdraw_def
        applyTransfer_def split: TransactionType.splits)
next
  case (Panic p)
  then show ?thesis by (simp add: tokenIndexOf_def split: option.splits)
qed

end

end
