(* ===== verification/Merkle_Proofs.thy ===== *)
theory Merkle_Proofs
  imports Merkle_Refinement
begin

text \<open>
  \<^verbatim>\<open>smt/proofs.go\<close>, \<^verbatim>\<open>smt/deepsubtree.go\<close> and the bit helpers of
  \<^verbatim>\<open>smt/utils.go\<close>: verification of inclusion proofs, their compact form, and the
  partial tree that is filled from proofs.
\<close>

unbundle bit_operations_syntax

section \<open>Bit helpers\<close>

definition hasBit :: "bytes \<Rightarrow> nat \<Rightarrow> nat outcome" where
  "hasBit data position =
     bindO (idx data (position div 8)) (\<lambda>byte.
     Ok (if unat byte AND push_bit (position mod 8) 1 > 0 then 1 else 0))"

definition setBit :: "bytes \<Rightarrow> nat \<Rightarrow> bytes outcome" where
  "setBit data position =
     bindO (idx data (position div 8)) (\<lambda>byte.
     let n = unat byte OR push_bit (position mod 8) 1
     in setIdx data (position div 8) (word_of_nat n))"

fun countLoop :: "bytes \<Rightarrow> nat list \<Rightarrow> nat \<Rightarrow> nat outcome" where
  "countLoop data [] count = Ok count"
| "countLoop data (i # is) count =
     bindO (hasBit data i) (\<lambda>b. countLoop data is (if b = 1 then Suc count else count))"

definition countSetBits :: "bytes \<Rightarrow> nat outcome" where
  "countSetBits data = countLoop data [0..<length data * 8] 0"

definition emptyBytes :: "nat \<Rightarrow> bytes" where
  "emptyBytes n = replicate n 0"

section \<open>Verification\<close>

text \<open>
  The climb of \<^verbatim>\<open>VerifyProof\<close>; the loop variable is \<open>i\<close> in the \<open>Suc\<close> equation. The
  length check inside the loop is the source's; the copy it checks always has that length.
\<close>

fun verifyLoop :: "hasher \<Rightarrow> bytes \<Rightarrow> int \<Rightarrow> bytes list \<Rightarrow> nat \<Rightarrow> bytes \<Rightarrow> bytes option" where
  "verifyLoop H path h pf 0 currentHash = Some currentHash"
| "verifyLoop H path h pf (Suc i) currentHash =
     (let node = copyN (Size H) (pf ! (nat (h - 2) - i))
      in if length node \<noteq> Size H then None
         else if \<not> isLeft path i h
         then verifyLoop H path h pf i (Digest H (node @ currentHash))
         else verifyLoop H path h pf i (Digest H (currentHash @ node)))"

definition VerifyProof :: "bytes list \<Rightarrow> bytes \<Rightarrow> bytes \<Rightarrow> bytes \<Rightarrow> hasher \<Rightarrow> int \<Rightarrow> bool" where
  "VerifyProof pf rt key value H h =
     (let path = Digest H key; currentHash = Digest H value
      in if int (length pf) \<noteq> h - 1 then False
         else case verifyLoop H path h pf (nat (h - 1)) currentHash of
           None \<Rightarrow> False
         | Some computed \<Rightarrow> computed = rt)"

section \<open>Compact proofs\<close>

fun compactLoop :: "hasher \<Rightarrow> bytes list \<Rightarrow> nat list \<Rightarrow> bytes \<Rightarrow> bytes list \<Rightarrow> (bytes \<times> bytes list) outcome" where
  "compactLoop H pf [] bits compactProof = Ok (bits, compactProof)"
| "compactLoop H pf (i # is) bits compactProof =
     bindO (idx pf i) (\<lambda>p.
     let node = copyN (Size H) p
     in bindO (idx (defaultNodes H) i) (\<lambda>dflt.
        if node = dflt then bindO (setBit bits i) (\<lambda>bits. compactLoop H pf is bits compactProof)
        else compactLoop H pf is bits (compactProof @ [node])))"

definition CompactProof :: "bytes list \<Rightarrow> hasher \<Rightarrow> int \<Rightarrow> bytes list outcome" where
  "CompactProof pf H h =
     (if int (length pf) \<noteq> h - 1 then Err ErrBadProofSize
      else bindO (compactLoop H pf [0..<nat (h - 1)] (emptyBytes (Size H)) [])
        (\<lambda>(bits, compactProof). Ok (bits # compactProof)))"

fun decompactLoop :: "hasher \<Rightarrow> int \<Rightarrow> bytes \<Rightarrow> bytes list \<Rightarrow> nat list \<Rightarrow> nat \<Rightarrow> bytes list outcome" where
  "decompactLoop H h bits compactProof [] position = Ok []"
| "decompactLoop H h bits compactProof (i # is) position =
     (if \<not> isLeft bits i h
      then bindO (idx (defaultNodes H) i) (\<lambda>node.
           bindO (decompactLoop H h bits compactProof is position) (\<lambda>rest. Ok (node # rest)))
      else bindO (idx compactProof position) (\<lambda>node.
           bindO (decompactLoop H h bits compactProof is (Suc position)) (\<lambda>rest. Ok (node # rest))))"

definition DecompactProof :: "bytes list \<Rightarrow> hasher \<Rightarrow> int \<Rightarrow> bytes list outcome" where
  "DecompactProof pf H h =
     (case pf of
        [] \<Rightarrow> Err ErrInvalidProofSize
      | bits # compactProof \<Rightarrow>
          if length bits \<noteq> Size H then Err ErrInvalidProofSize
          else bindO (countSetBits bits) (\<lambda>count.
            if int (length pf) \<noteq> (h - 1 - int count) + 1 then Err ErrInvalidProofSize
            else if h < 1 then Panic MakeSliceLen
            else decompactLoop H h bits compactProof [0..<nat (h - 1)] 0))"

text \<open>An error of \<^verbatim>\<open>DecompactProof\<close> is a rejection; a panic is not caught.\<close>

definition VerifyCompactProof :: "bytes list \<Rightarrow> bytes \<Rightarrow> bytes \<Rightarrow> bytes \<Rightarrow> hasher \<Rightarrow> int \<Rightarrow> bool outcome" where
  "VerifyCompactProof pf rt key value H h =
     (case DecompactProof pf H h of
        Err _ \<Rightarrow> Ok False
      | Panic p \<Rightarrow> Panic p
      | Ok decompactedProof \<Rightarrow> Ok (VerifyProof decompactedProof rt key value H h))"

definition ProveCompactForRoot :: "('d, 't, 'b) DB \<Rightarrow> hasher \<Rightarrow> smt \<Rightarrow> 'd \<Rightarrow> bytes \<Rightarrow> bytes \<Rightarrow> bytes list outcome" where
  "ProveCompactForRoot I H s d key rt =
     bindO (ProveForRoot I H s d key rt) (\<lambda>pf. CompactProof pf H (height s))"

definition ProveCompact :: "('d, 't, 'b) DB \<Rightarrow> hasher \<Rightarrow> smt \<Rightarrow> 'd \<Rightarrow> bytes \<Rightarrow> bytes list outcome" where
  "ProveCompact I H s d key = bindO (Prove I H s d key) (\<lambda>pf. CompactProof pf H (height s))"

section \<open>Deep subtrees\<close>

text \<open>
  \<^verbatim>\<open>NewDeepSparseMerkleSubTree\<close> leaves the namespace and the root \<^verbatim>\<open>nil\<close>.
  \<^verbatim>\<open>AddBranches\<close> reverses its argument in place, so the caller's slice is part of
  the result.
\<close>

definition NewDeepSparseMerkleSubTree :: "int \<Rightarrow> bool \<Rightarrow> smt" where
  "NewDeepSparseMerkleSubTree h hk = \<lparr>dbNamespace = None, root = [], height = h, hashKey = hk\<rparr>"

definition AddBranches ::
  "('d, 't, 'b) DB \<Rightarrow> hasher \<Rightarrow> smt \<Rightarrow> 'd \<Rightarrow> bytes list \<Rightarrow> bytes \<Rightarrow> bytes \<Rightarrow> bool \<Rightarrow>
    bytes outcome \<times> smt \<times> 'd \<times> bytes list" where
  "AddBranches I H s d pf key value updateRoot =
     (let reversed = reverseProof pf
      in case updateWithSideNodes I H s d (Digest H key) value reversed of
           (Ok newRoot, d') \<Rightarrow> (Ok newRoot, if updateRoot then SetRoot s newRoot else s, d', reversed)
         | (r, d') \<Rightarrow> (r, s, d', reversed))"

section \<open>Verification recomputes the root\<close>

text \<open>The path a proof is checked along, and the root it leads to.\<close>

definition proofRoot :: "hasher \<Rightarrow> int \<Rightarrow> bytes \<Rightarrow> bytes list \<Rightarrow> bytes \<Rightarrow> bytes" where
  "proofRoot H h path pf value = foldPath H (pathBits path h) (rev (map (copyN (Size H)) pf)) value"

lemma verifyLoop_foldPath:
  assumes "length pf = nat (h - 1)"
  shows "n \<le> nat (h - 1) \<Longrightarrow>
    verifyLoop H path h pf n (foldPath H (drop n (pathBits path h))
        (drop n (rev (map (copyN (Size H)) pf))) v) = Some (proofRoot H h path pf v)"
proof (induction n)
  case 0
  then show ?case by (simp add: proofRoot_def)
next
  case (Suc n)
  let ?bs = "pathBits path h" and ?ss = "rev (map (copyN (Size H)) pf)"
  have n: "n < length ?bs" "n < length ?ss" using Suc.prems assms by auto
  have side: "?ss ! n = copyN (Size H) (pf ! (nat (h - 2) - n))"
  proof -
    have "length pf - Suc n = nat (h - 2) - n" using n assms by auto
    then show ?thesis using n by (simp add: rev_nth)
  qed
  have drops: "drop n ?bs = isLeft path n h # drop (Suc n) ?bs" "drop n ?ss = ?ss ! n # drop (Suc n) ?ss"
    using n Cons_nth_drop_Suc [of n ?bs] Cons_nth_drop_Suc [of n ?ss] by (simp_all add: pathBits_def)
  have "verifyLoop H path h pf (Suc n) (foldPath H (drop (Suc n) ?bs) (drop (Suc n) ?ss) v) =
      verifyLoop H path h pf n (foldPath H (drop n ?bs) (drop n ?ss) v)"
    by (simp only: drops foldPath.simps) (simp add: side joinHash_def Let_def)
  with Suc show ?case by simp
qed

theorem VerifyProof_iff:
  "VerifyProof pf rt key value H h \<longleftrightarrow>
     int (length pf) = h - 1 \<and> proofRoot H h (Digest H key) pf value = rt"
proof (cases "int (length pf) = h - 1")
  case True
  then have len: "length pf = nat (h - 1)" by linarith
  have "verifyLoop H (Digest H key) h pf (nat (h - 1)) (Digest H value) =
      Some (proofRoot H h (Digest H key) pf value)"
    using verifyLoop_foldPath [OF len order_refl, of H "Digest H key" "value"] len by simp
  with True show ?thesis by (simp add: VerifyProof_def)
next
  case False
  then show ?thesis by (simp add: VerifyProof_def)
qed

text \<open>The strings a run of \<^verbatim>\<open>VerifyProof\<close> hashes on its way up from the leaf.\<close>

definition verifyStrings :: "hasher \<Rightarrow> int \<Rightarrow> bytes \<Rightarrow> bytes list \<Rightarrow> bytes \<Rightarrow> bytes list" where
  "verifyStrings H h key pf value =
     pathStrings H (pathBits (Digest H key) h) (rev (map (copyN (Size H)) pf)) value"

lemma proofRoot_binding:
  assumes "hasher_ok H" and "int (length pf) = h - 1" and "int (length pf') = h - 1"
    and "proofRoot H h path pf v = proofRoot H h path pf' v'"
  shows "v = v' \<or> collisionAmong H
     (pathStrings H (pathBits path h) (rev (map (copyN (Size H)) pf)) v)
     (pathStrings H (pathBits path h) (rev (map (copyN (Size H)) pf')) v')"
  using foldPath_binding [OF assms(1), of "rev (map (copyN (Size H)) pf)" "pathBits path h"
      "rev (map (copyN (Size H)) pf')" v v'] assms
  by (auto simp: proofRoot_def)

section \<open>Compact form without set bits\<close>

lemma setBytes_zeros [simp]: "setBytes (replicate n 0) = 0"
  using setBytes_replicate0 [of n "[]"] by simp

lemma isLeft_zeros [simp]: "isLeft (replicate n 0) i h"
  by (simp add: isLeft_def)

lemma countLoop_zeros: "\<forall>i\<in>set is. i div 8 < n \<Longrightarrow> countLoop (replicate n 0) is c = Ok c"
  by (induction "is") (auto simp: hasBit_def)

lemma countSetBits_zeros [simp]: "countSetBits (replicate n 0) = Ok 0"
  unfolding countSetBits_def by (rule countLoop_zeros) auto

lemma compactLoop_none:
  assumes "\<forall>i\<in>set is. i < length pf \<and> i < length (defaultNodes H) \<and> copyN (Size H) (pf ! i) \<noteq> defaultNodes H ! i"
  shows "compactLoop H pf is bits acc = Ok (bits, acc @ map (\<lambda>i. copyN (Size H) (pf ! i)) is)"
  using assms by (induction "is" arbitrary: acc) (auto simp: Let_def)

lemma decompactLoop_none:
  "p + length is \<le> length cp \<Longrightarrow>
    decompactLoop H h (replicate n 0) cp is p = Ok (take (length is) (drop p cp))"
proof (induction "is" arbitrary: p)
  case (Cons i "is")
  then have "drop p cp = cp ! p # drop (Suc p) cp" by (simp add: Cons_nth_drop_Suc)
  with Cons show ?case by simp
qed simp

lemma CompactProof_none:
  assumes "int (length pf) = h - 1" and "length pf \<le> Size H * 8"
    and "\<forall>i<length pf. copyN (Size H) (pf ! i) \<noteq> defaultNodes H ! i"
  shows "CompactProof pf H h = Ok (replicate (Size H) 0 # map (copyN (Size H)) pf)"
proof -
  have "nat (h - 1) = length pf" using assms(1) by linarith
  moreover have "map (\<lambda>i. copyN (Size H) (pf ! i)) [0..<length pf] = map (copyN (Size H)) pf"
    by (rule nth_equalityI) simp_all
  ultimately show ?thesis
    using assms compactLoop_none [of "[0..<length pf]" pf H "replicate (Size H) 0" "[]"]
    by (simp add: CompactProof_def emptyBytes_def length_defaultNodes)
qed

lemma DecompactProof_none:
  assumes "int (length pf) = h - 1"
  shows "DecompactProof (replicate (Size H) 0 # pf) H h = Ok pf"
proof -
  have "nat (h - 1) = length pf" "1 \<le> h" using assms by linarith+
  then show ?thesis
    using assms decompactLoop_none [of 0 "[0..<length pf]" pf H h "Size H"]
    by (simp add: DecompactProof_def)
qed

section \<open>Proofs of stored trees, and branches added from proofs\<close>

lemma copyN_msides: "hasher_ok H \<Longrightarrow> map (copyN (Size H)) (msides H t bs) = msides H t bs"
  by (rule map_idI) (simp add: msides_length_Size)

context kv_db
begin

text \<open>A proof taken from a stored tree leads back to its root, for the leaf's value only.\<close>

lemma proofRoot_Prove:
  assumes "hasher_ok H" and "represents (view d) H s t rt" and "getPath H s key = Ok path"
    and "ProveForRoot I H s d key rt = Ok pf"
  shows "int (length pf) = height s - 1"
    and "proofRoot H (height s) path pf v = mhash H (mupdate t (pathBits path (height s)) v)"
    and "proofRoot H (height s) path pf (mlookup t (pathBits path (height s))) = rt"
proof -
  have pf: "pf = rev (msides H t (pathBits path (height s)))"
    using ProveForRoot_msides [OF assms(1-3)] assms(4) by simp
  have p: "perfect (nat (height s - 1)) t" "1 \<le> height s" using assms(2) by (auto simp: represents_def)
  then show "int (length pf) = height s - 1" by (simp add: pf length_msides)
  show *: "proofRoot H (height s) path pf v = mhash H (mupdate t (pathBits path (height s)) v)" for v
    using p by (simp add: proofRoot_def pf rev_map copyN_msides [OF assms(1)] foldPath_msides)
  show "proofRoot H (height s) path pf (mlookup t (pathBits path (height s))) = rt"
    using p assms(2) by (simp add: * mupdate_mlookup represents_def)
qed

lemma AddBranches_proofRoot:
  assumes "hasher_ok H" and "int (length pf) = height s - 1" and "\<forall>p\<in>set pf. length p = Size H"
  shows "\<exists>d'. AddBranches I H s d pf key value up =
     (Ok (proofRoot H (height s) (Digest H key) pf value),
      if up then SetRoot s (proofRoot H (height s) (Digest H key) pf value) else s, d', rev pf)"
proof -
  have m: "map (copyN (Size H)) pf = pf" using assms(3) by (intro map_idI) simp
  have "length (rev pf) = nat (height s - 1)" using assms(2) by simp
  from updateWithSideNodes_foldPath [OF assms(1) this, of d "Digest H key" "value"] assms(3)
  show ?thesis by (auto simp: AddBranches_def reverseProof_rev proofRoot_def m Let_def)
qed

end

end
