(* ===== verification/State_Proofs.thy ===== *)
theory State_Proofs
  imports Ledger_Refinement Merkle_Proofs
begin

text \<open>
  What the state machine hands out for the contracts: state roots, and for every account a
  transaction touched the inclusion proof of its record. A proof is right when hashing the
  serialised record up the path of its slot gives the state root, which is what the
  contract computes.
\<close>

definition proves :: "serializer \<Rightarrow> hasher \<Rightarrow> int \<Rightarrow> bytes \<Rightarrow> int \<Rightarrow> InclusionProof \<Rightarrow> AccountInfo \<Rightarrow> bool" where
  "proves ser H h rt slot pf info =
     (case SerializeAccountInfo ser info of
        Ok data \<Rightarrow> proofRoot H h (padPath H (bigBytes slot)) pf data = rt
      | _ \<Rightarrow> False)"

definition entry_ok :: "serializer \<Rightarrow> hasher \<Rightarrow> smt \<Rightarrow> StateUpdateEntry \<Rightarrow> bool" where
  "entry_ok ser H tr e =
     proves ser H (height tr) (root tr) (ent_SlotIndex e) (ent_InclusionProof e) (ent_AccountInfo e)"

text \<open>What an entry of a state update says about the update it comes from.\<close>

definition entry_matches ::
  "serializer \<Rightarrow> hasher \<Rightarrow> (bytes \<rightharpoonup> bytes) \<Rightarrow> smt \<Rightarrow> ledger \<Rightarrow> AccountInfoUpdate \<Rightarrow> StateUpdateEntry \<Rightarrow> bool" where
  "entry_matches ser H m tr L u e \<longleftrightarrow>
     ent_AccountInfo e = upd_Info u \<and> ent_NewAccount e = upd_NewAccount u \<and>
     (case accKey m (Account (upd_Info u)) of None \<Rightarrow> False | Some k \<Rightarrow> ent_SlotIndex e = int (setBytes k)) \<and>
     (L (Account (upd_Info u)) = Some (upd_Info u) \<longrightarrow> entry_ok ser H tr e)"

text \<open>The 32-byte array keeps a sibling when the hash has at most 32 bytes.\<close>

lemma copyN_copyN: "n \<le> m \<Longrightarrow> copyN n (copyN m xs) = copyN n xs"
  by (cases "length xs \<le> n") (simp_all add: copyN_def min_def take_append)

lemma proofRoot_Convert:
  "Size H \<le> 32 \<Longrightarrow> proofRoot H h path (ConvertToInclusionProof pf) v = proofRoot H h path pf v"
  by (simp add: proofRoot_def ConvertToInclusionProof_def comp_def copyN_copyN)

context kv_db
begin

lemma Prove_account:
  assumes H: "hasher_ok H" and size: "Size H \<le> 32" and st: "stands ser H sm sl L" and L: "L a = Some info"
  shows "\<exists>k pf. db_Get I (smDb sm) (Some NamespaceAccountAddressToKey) a = Ok (Some k) \<and>
    Get I H (smTree sm) (smDb sm) k = SerializeAccountInfo ser info \<and>
    DeserializeAccountInfo ser (the_ok (SerializeAccountInfo ser info)) = Ok info \<and>
    Prove I H (smTree sm) (smDb sm) k = Ok pf \<and>
    proves ser H (height (smTree sm)) (root (smTree sm)) (int (setBytes k)) (ConvertToInclusionProof pf) info"
proof -
  let ?m = "view (smDb sm)" and ?tr = "smTree sm"
  obtain t where wf: "sm_wf ser H ?m ?tr (fst sl) t" using implementsE [OF st [unfolded stands_def]] by metis
  note I = implements_Some [OF st [unfolded stands_def] L]
  obtain k where k: "accKey ?m a = Some k" using I(4) by blast
  obtain j where j: "j < fst sl" "k = natBytes j" using sm_wfD(4) [OF wf k] by blast
  obtain data info' where d: "infoAt ?m k = Some data" "SerializeAccountInfo ser info' = Ok data"
    "DeserializeAccountInfo ser data = Ok info'" "mlookup t (leafPath H ?tr k) = data"
    using sm_wfD(5) [OF wf k] by (auto simp: account_stored_def)
  have [simp]: "info' = info" using I(1) k d by (simp add: lookupAccount_def)
  note D = tree_wfD [OF sm_wfD(1) [OF wf]]
  have path: "getPath H ?tr k = Ok (padPath H k)"
    using getPath_natBytes [OF sm_wfD(1) [OF wf], of j] j D(4) by simp
  obtain pf where pf: "ProveForRoot I H ?tr (smDb sm) k (root ?tr) = Ok pf"
    using ProveForRoot_msides [OF H D(1) path] by blast
  have "proofRoot H (height ?tr) (padPath H k) pf data = root ?tr"
    using proofRoot_Prove(3) [OF H D(1) path pf] d(4) by (simp add: leafPath_def)
  then have "proves ser H (height ?tr) (root ?tr) (int (setBytes k)) (ConvertToInclusionProof pf) info"
    using d(2) by (simp add: proves_def proofRoot_Convert [OF size] j(2) bigBytes_int)
  then show ?thesis
    using k d pf GetForRoot_mlookup [OF H D(1) path]
    by (simp add: Get_def Prove_def Get accKey_def leafPath_def [symmetric])
qed

text \<open>The loop of \<^verbatim>\<open>ApplyTransaction\<close> proves every update; a stale one (a record the ledger no
  longer has) gets a proof of the newer record.\<close>

lemma entriesLoop_ok:
  assumes H: "hasher_ok H" and size: "Size H \<le> 32" and st: "stands ser H sm sl L"
  shows "list_all (\<lambda>u. L (Account (upd_Info u)) \<noteq> None) us \<Longrightarrow>
    \<exists>es. entriesLoop I H sm us acc = Ok (Some (acc @ es)) \<and>
      list_all2 (entry_matches ser H (view (smDb sm)) (smTree sm) L) us es"
proof (induction us arbitrary: acc)
  case (Cons u us)
  then obtain info where info: "L (Account (upd_Info u)) = Some info" by auto
  obtain k pf where kp: "db_Get I (smDb sm) (Some NamespaceAccountAddressToKey) (Account (upd_Info u)) = Ok (Some k)"
    "Prove I H (smTree sm) (smDb sm) k = Ok pf"
    "proves ser H (height (smTree sm)) (root (smTree sm)) (int (setBytes k)) (ConvertToInclusionProof pf) info"
    using Prove_account [OF H size st info] by blast
  let ?e = "\<lparr>ent_SlotIndex = int (setBytes k), ent_InclusionProof = ConvertToInclusionProof pf,
      ent_AccountInfo = upd_Info u, ent_NewAccount = upd_NewAccount u\<rparr>"
  have entry: "entry_matches ser H (view (smDb sm)) (smTree sm) L u ?e"
    using kp info by (auto simp: entry_ok_def entry_matches_def Get accKey_def)
  obtain es where "entriesLoop I H sm us (acc @ [?e]) = Ok (Some ((acc @ [?e]) @ es))"
    "list_all2 (entry_matches ser H (view (smDb sm)) (smTree sm) L) us es"
    using Cons.IH [of "acc @ [?e]"] Cons.prems by auto
  then show ?case
    using kp info entry by (intro exI [of _ "?e # es"]) auto
qed simp

end

text \<open>The updates a ledger returns are of accounts it then has.\<close>

lemma ledgerApply_updates:
  assumes "\<And>a info. L a = Some info \<Longrightarrow> Account info = a" and "fst (ledgerApply T L tx) = Ok us"
  shows "list_all (\<lambda>u. snd (ledgerApply T L tx) (Account (upd_Info u)) \<noteq> None) us"
  using assms
  by (auto simp: ledgerApply_def ledgerDeposit_def ledgerWithdraw_def ledgerTransfer_def ledgerOpen_def Let_def
      split: outcome.splits TransactionType.splits option.splits if_splits)

context kv_db
begin

theorem ApplyTransaction_refines:
  assumes H: "hasher_ok H" and size: "Size H \<le> 32" and ser: "serializer_ok ser" and st: "stands ser H sm sl L"
    and tok: "token_fits (tokenIndexOf (view (smDb sm)) (tx_Token tx))"
    and len: "list_all (\<lambda>a. length a = 20) (tx_addresses tx)"
    and room: "fst sl < 2 ^ nat (height (smTree sm) - 1)"
    and fits: "updates_fit (fst (ledgerApply (tokenIndexOf (view (smDb sm))) L tx))"
    and fresh: "applyFresh I H ser sm tx"
  defines "A \<equiv> ledgerApply (tokenIndexOf (view (smDb sm))) L tx"
  shows "\<exists>r sm'. ApplyTransaction I H ser sm tx = (r, sm') \<and> stands ser H sm' (slotsAfter (tokenIndexOf (view (smDb sm))) L tx sl) (snd A) \<and>
    tokenEntries (view (smDb sm')) = tokenEntries (view (smDb sm)) \<and> height (smTree sm') = height (smTree sm) \<and>
    (case fst A of
       Err e \<Rightarrow> r = Err e
     | Panic p \<Rightarrow> r = Panic p
     | Ok us \<Rightarrow> (\<exists>es. r = Ok (Some \<lparr>su_Transaction = tx, su_StateRoot = copyN 32 (root (smTree sm')),
           su_Entries = es\<rparr>) \<and>
         list_all2 (entry_matches ser H (view (smDb sm')) (smTree sm') (snd A)) us es))"
proof -
  obtain sm' where ap: "applyByType I H ser sm tx = (fst A, sm')" "stands ser H sm' (slotsAfter (tokenIndexOf (view (smDb sm))) L tx sl) (snd A)"
    "tokenEntries (view (smDb sm')) = tokenEntries (view (smDb sm))" "height (smTree sm') = height (smTree sm)"
    using applyByType_refines [OF H ser st tok len room fits fresh] unfolding A_def by blast
  show ?thesis
  proof (cases "fst A")
    case (Ok us)
    have "list_all (\<lambda>u. snd A (Account (upd_Info u)) \<noteq> None) us"
      using ledgerApply_updates [of L] implements_Some(3) [OF st [unfolded stands_def]] Ok unfolding A_def by blast
    from entriesLoop_ok [OF H size ap(2) this, of "[]"] ap Ok show ?thesis
      by (auto simp: ApplyTransaction_def)
  qed (use ap in \<open>auto simp: ApplyTransaction_def\<close>)
qed

lemma GetStateSnapshot_account:
  assumes H: "hasher_ok H" and size: "Size H \<le> 32" and ser: "serializer_ok ser" and st: "stands ser H sm sl L"
    and L: "L a = Some info"
  shows "\<exists>k snap. db_Get I (smDb sm) (Some NamespaceAccountAddressToKey) a = Ok (Some k) \<and>
    GetStateSnapshot I H ser sm k = Ok snap \<and> snap_AccountInfo snap = info \<and>
    snap_SlotIndex snap = int (setBytes k) \<and> snap_StateRoot snap = GetStateRoot sm \<and>
    proves ser H (height (smTree sm)) (snap_StateRoot snap) (snap_SlotIndex snap) (snap_InclusionProof snap) info"
proof -
  obtain data where "SerializeAccountInfo ser info = Ok data"
    using account_roundtrip [OF ser] implements_Some(2) [OF st [unfolded stands_def] L]
    by (auto simp: account_wf_def)
  then show ?thesis
    using Prove_account [OF H size st L] by (auto simp: GetStateSnapshot_def GetStateRoot_def)
qed

end

end
