(* ===== verification/Sample_Parameters.thy ===== *)
theory Sample_Parameters
  imports State_Proofs "HOL-Library.Code_Target_Nat" "HOL-Library.Code_Target_Int"
begin

text \<open>
  Concrete values of the parameters, for the witnesses: hashers with a short digest and a
  codec with fixed-width words and tagged lists. They show that the hypotheses on the
  hash function and on the ABI library can hold together.
\<close>

section \<open>Hashers\<close>

text \<open>
  Digests that tell apart the strings of the examples: of 32 bytes, the size of the state
  machine's hash, and of one byte, for small trees.
\<close>

definition tag :: "bytes \<Rightarrow> byte" where
  "tag x = foldl (\<lambda>a b. if b = 0 then a else 5 * a + b) (word_of_nat (length x)) x"

definition sampleHasher :: hasher where
  "sampleHasher = \<lparr>Size = 32, Digest = \<lambda>x. replicate 31 0 @ [tag x]\<rparr>"

lemma sampleHasher_ok [simp]: "hasher_ok sampleHasher" "Size sampleHasher = 32"
  by (simp_all add: hasher_ok_def sampleHasher_def)

definition tinyHasher :: hasher where
  "tinyHasher = \<lparr>Size = 1, Digest = \<lambda>x. [tag x]\<rparr>"

lemma tinyHasher_ok [simp]: "hasher_ok tinyHasher" "Size tinyHasher = 1"
  by (simp_all add: hasher_ok_def tinyHasher_def)

text \<open>The digest of a hash function that ignores its input.\<close>

definition constHasher :: hasher where
  "constHasher = \<lparr>Size = 1, Digest = \<lambda>_. [0]\<rparr>"

lemma constHasher_ok [simp]: "hasher_ok constHasher"
  by (simp add: hasher_ok_def constHasher_def)

text \<open>
  A hasher that counts levels: the digests of the default trees are all different, so that a
  state machine can be created with it.
\<close>

definition chainHasher :: hasher where
  "chainHasher = \<lparr>Size = 32, Digest = \<lambda>x. replicate 31 0 @ [if length x = 64 then last x + 1 else 1]\<rparr>"

lemma chainHasher_ok [simp]: "hasher_ok chainHasher" "Size chainHasher = 32"
  by (simp_all add: hasher_ok_def chainHasher_def)

lemma chainHasher_mfull: "mhash chainHasher (mfull k DefaultValue) = replicate 31 0 @ [word_of_nat (Suc k)]"
  by (induction k) (simp_all add: chainHasher_def DefaultValue_def add.commute)

lemma chainHasher_default:
  assumes "0 \<le> i" and "i < 256"
  shows "the_ok (defaultNode chainHasher i) = replicate 31 0 @ [word_of_nat (256 - nat i)]"
proof -
  have "Suc (255 - nat i) = 256 - nat i" using assms by linarith
  then show ?thesis using defaultNode_mfull [of i chainHasher] assms by (simp add: chainHasher_mfull)
qed

lemma byte_inject: "0 < a \<Longrightarrow> a < 256 \<Longrightarrow> 0 < b \<Longrightarrow> b < 256 \<Longrightarrow> (word_of_nat a :: byte) = word_of_nat b \<longleftrightarrow> a = b"
  using take_bit_nat_eq_self [of a 8] take_bit_nat_eq_self [of b 8] by (simp add: word_of_nat_eq_iff)

lemma chainHasher_fresh: "noCollision (\<lambda>_. None) (initWrites chainHasher 160)"
proof -
  let ?w = "\<lambda>k. replicate 31 0 @ [word_of_nat k] :: bytes"
  define lo hi :: int where "lo = 96" and "hi = 254"
  have W: "initWrites chainHasher 160 =
      map (\<lambda>i. (?w (256 - nat i), ?w (255 - nat i) @ ?w (255 - nat i))) [lo..hi] @ [(?w 1, DefaultValue), (initMarker, [])]"
  proof -
    have d1: "the_ok (defaultNode chainHasher (i + 1)) = ?w (255 - nat i)" if "lo \<le> i" "i \<le> hi" for i
      using that chainHasher_default [of "i + 1"] by (simp add: lo_def hi_def nat_add_distrib)
    have d2: "the_ok (defaultNode chainHasher i) = ?w (256 - nat i)" if "lo \<le> i" "i \<le> hi" for i
      using that chainHasher_default [of i] by (simp add: lo_def hi_def)
    have d3: "the_ok (defaultNode chainHasher 255) = ?w 1" using chainHasher_default [of 255] by simp
    have b: "int (Size chainHasher * 8) - 160 = lo" "int (Size chainHasher * 8) - 2 = hi"
      "int (Size chainHasher * 8) - 1 = 255" by (simp_all add: lo_def hi_def)
    have "map (\<lambda>i. (the_ok (defaultNode chainHasher i), the_ok (defaultNode chainHasher (i + 1)) @
          the_ok (defaultNode chainHasher (i + 1)))) [lo..hi] =
        map (\<lambda>i. (?w (256 - nat i), ?w (255 - nat i) @ ?w (255 - nat i))) [lo..hi]"
      by (rule map_cong [OF refl]) (simp add: d1 d2)
    then show ?thesis unfolding initWrites_def b d3 by simp
  qed
  have marker: "initMarker \<noteq> ?w k" "?w k \<noteq> initMarker" for k
    using arg_cong [of initMarker "?w k" length] arg_cong [of "?w k" initMarker length]
    by (auto simp: initMarker_def simp del: replicate.simps)
  have keys: "?w (256 - nat i) = ?w (256 - nat j) \<longleftrightarrow> i = j" if "lo \<le> i" "i \<le> hi" "lo \<le> j" "j \<le> hi" for i j
    using that byte_inject [of "256 - nat i" "256 - nat j"] by (auto simp: lo_def hi_def)
  have leaf: "?w (256 - nat i) \<noteq> ?w 1" if "lo \<le> i" "i \<le> hi" for i
    using that byte_inject [of "256 - nat i" 1] by (auto simp: lo_def hi_def)
  show ?thesis
    unfolding noCollision_def W list_all_iff using marker marker [of 1] keys leaf
    by (auto simp del: replicate.simps append_same_eq same_append_eq)
qed

section \<open>A codec\<close>

definition encWord :: "int \<Rightarrow> bytes" where
  "encWord n = (let bs = natBytes (nat n) in replicate (32 - length bs) 0 @ bs)"

fun encBytes :: "bytes \<Rightarrow> bytes" where
  "encBytes [] = [0]"
| "encBytes (b # bs) = 1 # b # encBytes bs"

fun encWords :: "bytes list \<Rightarrow> bytes" where
  "encWords [] = [0]"
| "encWords (w # ws) = 1 # w @ encWords ws"

fun encParts :: "bytes list \<Rightarrow> bytes" where
  "encParts [] = [0]"
| "encParts (b # bs) = 1 # encBytes b @ encParts bs"

fun encVal :: "abi_val \<Rightarrow> bytes" where
  "encVal (VAddress a) = a"
| "encVal (VBytes b) = encBytes b"
| "encVal (VBytesSlice bs) = encParts bs"
| "encVal (VBytes32 b) = b"
| "encVal (VBytes32Slice bs) = encWords bs"
| "encVal (VUint n) = encWord n"
| "encVal (VUintSlice ns) = encParts (map (\<lambda>n. natBytes (nat n)) ns)"
| "encVal (VTuple _) = []"

fun decBytes :: "bytes \<Rightarrow> bytes \<times> bytes" where
  "decBytes (x # b # r) =
     (if x = 0 then ([], b # r) else case decBytes r of (bs, rest) \<Rightarrow> (b # bs, rest))"
| "decBytes [x] = ([], [])"
| "decBytes [] = ([], [])"

fun decWords :: "bytes \<Rightarrow> bytes list \<times> bytes" where
  "decWords (x # r) =
     (if x = 0 then ([], r)
      else case decWords (drop 32 r) of (ws, rest) \<Rightarrow> (take 32 r # ws, rest))"
| "decWords [] = ([], [])"

lemma decBytes_length: "length (snd (decBytes r)) \<le> length r"
  by (induction r rule: decBytes.induct) (auto split: prod.splits if_splits)

function decParts :: "bytes \<Rightarrow> bytes list \<times> bytes" where
  "decParts (x # r) =
     (if x = 0 then ([], r)
      else case decParts (snd (decBytes r)) of (bs, rest) \<Rightarrow> (fst (decBytes r) # bs, rest))"
| "decParts [] = ([], [])"
  by pat_completeness auto
termination
  by (relation "measure length") (auto simp: le_imp_less_Suc decBytes_length)

fun decVal :: "abi_type \<Rightarrow> bytes \<Rightarrow> abi_val \<times> bytes" where
  "decVal AddressTy r = (VAddress (take 20 r), drop 20 r)"
| "decVal BytesTy r = (case decBytes r of (b, rest) \<Rightarrow> (VBytes b, rest))"
| "decVal BytesSliceTy r = (case decParts r of (bs, rest) \<Rightarrow> (VBytesSlice bs, rest))"
| "decVal Bytes32Ty r = (VBytes32 (take 32 r), drop 32 r)"
| "decVal Bytes32SliceTy r = (case decWords r of (ws, rest) \<Rightarrow> (VBytes32Slice ws, rest))"
| "decVal Uint256Ty r = (VUint (int (setBytes (take 32 r))), drop 32 r)"
| "decVal Uint256SliceTy r =
     (case decParts r of (ws, rest) \<Rightarrow> (VUintSlice (map (\<lambda>w. int (setBytes w)) ws), rest))"
| "decVal (TupleTy _) r = (VTuple [], r)"

fun decVals :: "arguments \<Rightarrow> bytes \<Rightarrow> abi_val list" where
  "decVals [] r = []"
| "decVals ((_, ty) # args) r = (case decVal ty r of (v, rest) \<Rightarrow> v # decVals args rest)"

definition sampleType :: "string \<Rightarrow> marshaling list \<Rightarrow> abi_type outcome" where
  "sampleType name ms =
     (if name = ''address'' then Ok AddressTy else if name = ''bytes'' then Ok BytesTy
      else if name = ''bytes[]'' then Ok BytesSliceTy else if name = ''bytes32'' then Ok Bytes32Ty
      else if name = ''bytes32[]'' then Ok Bytes32SliceTy else if name = ''uint256'' then Ok Uint256Ty
      else if name = ''uint256[]'' then Ok Uint256SliceTy else if name = ''tuple'' then Ok (TupleTy ms)
      else Err (ErrExternal ''unsupported arg type''))"

text \<open>A capital for a small letter.\<close>

fun capitalised :: "string \<Rightarrow> string" where
  "capitalised [] = []"
| "capitalised (Char b0 b1 b2 b3 b4 b5 b6 b7 # cs) = Char b0 b1 b2 b3 b4 False b6 b7 # cs"

definition sampleAbi :: abi where
  "sampleAbi = \<lparr>NewType = sampleType,
     Pack = \<lambda>args vs. Ok (concat (map encVal vs)),
     Unpack = \<lambda>args data. if data = [] \<and> args \<noteq> [] then Err (ErrExternal ''abi: empty'') else Ok (decVals args data),
     ToCamelCase = capitalised\<rparr>"

lemma length_encWord: "0 \<le> n \<Longrightarrow> n < 2 ^ 256 \<Longrightarrow> length (encWord n) = 32"
proof -
  assume "0 \<le> n" and "n < 2 ^ 256"
  then have "nat n < 256 ^ 32" by (simp add: nat_less_iff)
  then have "length (natBytes (nat n)) \<le> 32" by (rule length_natBytes)
  then show ?thesis by (simp add: encWord_def Let_def)
qed

lemma setBytes_encWord [simp]: "setBytes (encWord n) = nat n"
  by (simp add: encWord_def Let_def)

lemma decBytes_encBytes: "decBytes (encBytes b @ rest) = (b, rest)"
  by (induction b) (cases rest; simp)+

lemma decWords_encWords: "\<forall>w\<in>set ws. length w = 32 \<Longrightarrow> decWords (encWords ws @ rest) = (ws, rest)"
  by (induction ws) auto

lemma decParts_encParts: "decParts (encParts bs @ rest) = (bs, rest)"
  by (induction bs) (auto simp: decBytes_encBytes)

lemma decVal_encVal: "abi_fits ty v \<Longrightarrow> decVal ty (encVal v @ rest) = (v, rest)"
  by (cases "(ty, v)" rule: abi_fits.cases)
    (auto simp: decBytes_encBytes decWords_encWords decParts_encParts length_encWord map_idI)

lemma decVals_encVals:
  "list_all2 (\<lambda>a v. abi_fits (snd a) v) args vs \<Longrightarrow> decVals args (concat (map encVal vs)) = vs"
  by (induction args vs rule: list_all2_induct) (auto simp: decVal_encVal)

lemma encVal_nonempty: "abi_fits ty v \<Longrightarrow> encVal v \<noteq> []"
  by (cases "(ty, v)" rule: abi_fits.cases)
    (auto simp: length_encWord elim: encBytes.elims encWords.elims encParts.elims dest: arg_cong [of _ _ length])

lemma sampleAbi_ok [simp]: "abi_ok sampleAbi"
proof -
  have "\<exists>data. Pack sampleAbi args vs = Ok data \<and> Unpack sampleAbi args data = Ok vs \<and>
      (\<forall>n. args \<noteq> [] \<and> vs \<noteq> [] \<and> hd vs = VUint n \<longrightarrow> 32 \<le> length data \<and> setBytes (take 32 data) = nat n)"
    if "list_all2 (\<lambda>a v. abi_fits (snd a) v) args vs" for args vs
  proof -
    have ne: "concat (map encVal vs) \<noteq> []" if "args \<noteq> []"
      using \<open>list_all2 _ args vs\<close> that by (cases args; cases vs) (auto dest: encVal_nonempty)
    have hd: "32 \<le> length (concat (map encVal vs)) \<and> setBytes (take 32 (concat (map encVal vs))) = nat n"
      if first: "vs \<noteq> []" "hd vs = VUint n" for n
    proof -
      obtain vs' where vs: "vs = VUint n # vs'" using first by (cases vs) auto
      with \<open>list_all2 _ args vs\<close> obtain a where "abi_fits a (VUint n)" by (auto simp: list_all2_Cons2)
      then have "0 \<le> n \<and> n < 2 ^ 256" by (cases a) auto
      then show ?thesis using length_encWord [of n] by (simp add: vs)
    qed
    show ?thesis using ne hd decVals_encVals [OF that] by (auto simp: sampleAbi_def)
  qed
  then show ?thesis unfolding abi_ok_def by (simp add: sampleAbi_def sampleType_def goNames_def)
qed

definition sampleSerializer :: serializer where
  "sampleSerializer = the_ok (NewSerializer sampleAbi)"

lemma sampleSerializer_ok [simp]: "serializer_ok sampleSerializer"
  using NewSerializer_ok [OF sampleAbi_ok] by (auto simp: sampleSerializer_def)

end
