(* ===== verification/Root_Determinism.thy ===== *)
theory Root_Determinism
  imports State_Proofs
begin

text \<open>
  The state root is a function of the ledger and of the slots: two well-formed state machines
  that stand for the same ledger, with accounts opened in the same order, have the same tree
  and so the same root, whatever else their databases hold. This is what lets a validator
  compare its root with an aggregator's.
\<close>

section \<open>Trees with equal leaves\<close>

lemma mlookup_ext:
  "perfect k t \<Longrightarrow> perfect k t' \<Longrightarrow> (\<And>bs. length bs = k \<Longrightarrow> mlookup t bs = mlookup t' bs) \<Longrightarrow> t = t'"
proof (induction k arbitrary: t t')
  case 0
  then obtain v v' where "t = MLeaf v" "t' = MLeaf v'" by (auto elim!: perfect_0E)
  with 0(3) [of "[]"] show ?case by simp
next
  case (Suc k)
  obtain l r where t: "t = MNode l r" "perfect k l" "perfect k r" using Suc.prems(1) by (rule perfect_SucE)
  obtain l' r' where t': "t' = MNode l' r'" "perfect k l'" "perfect k r'" using Suc.prems(2) by (rule perfect_SucE)
  have "l = l'" using Suc.prems(3) [of "True # _"] t t' by (intro Suc.IH) auto
  moreover have "r = r'" using Suc.prems(3) [of "False # _"] t t' by (intro Suc.IH) auto
  ultimately show ?case using t t' by simp
qed

text \<open>Every leaf of the tree belongs to a slot number.\<close>

lemma leafPath_surj:
  assumes "tree_wf H m tr n t" and "length bs = nat (height tr - 1)"
  shows "\<exists>j<2 ^ nat (height tr - 1). bs = leafPath H tr (natBytes j)"
proof -
  let ?k = "nat (height tr - 1)" and ?f = "\<lambda>j. leafPath H tr (natBytes j)"
  have inj: "inj_on ?f {..<2 ^ ?k}" using leafPath_inject [OF assms(1)] by (auto simp: inj_on_def)
  have "{bs. length bs = ?k} = {bs. set bs \<subseteq> (UNIV :: bool set) \<and> length bs = ?k}" by auto
  then have card: "card {bs :: bool list. length bs = ?k} = 2 ^ ?k" "finite {bs :: bool list. length bs = ?k}"
    using card_lists_length_eq [of "UNIV :: bool set" ?k] finite_lists_length_eq [of "UNIV :: bool set" ?k] by simp_all
  have "?f ` {..<2 ^ ?k} = {bs. length bs = ?k}"
    by (rule card_subset_eq) (use card inj in \<open>auto simp: card_image\<close>)
  then show ?thesis using assms(2) by auto
qed

section \<open>The tree of a ledger\<close>

lemma sm_wf_leaf:
  assumes "sm_wf ser H m tr n t" and "accKey m a = Some (natBytes j)"
  shows "\<exists>info. lookupAccount ser m a = Ok info \<and>
    SerializeAccountInfo ser info = Ok (mlookup t (leafPath H tr (natBytes j)))"
  using sm_wfD(5) [OF assms] assms(2) by (auto simp: account_stored_def lookupAccount_def)

lemma sm_wf_unique:
  assumes wf: "sm_wf ser H m tr n t" "sm_wf ser H m' tr' n t'" and h: "height tr = height tr'"
    and key: "accKey m = accKey m'" and acc: "ledgerOf ser m = ledgerOf ser m'"
  shows "t = t'"
proof (rule mlookup_ext)
  note D = tree_wfD [OF sm_wfD(1) [OF wf(1)]] and D' = tree_wfD [OF sm_wfD(1) [OF wf(2)]]
  show "perfect (nat (height tr - 1)) t" "perfect (nat (height tr - 1)) t'" using D(7) D'(7) h by simp_all
  fix bs :: "bool list"
  assume "length bs = nat (height tr - 1)"
  then obtain j where j: "j < 2 ^ nat (height tr - 1)" "bs = leafPath H tr (natBytes j)"
    using leafPath_surj [OF sm_wfD(1) [OF wf(1)]] by blast
  have same: "leafPath H tr' (natBytes j) = bs" using j(2) h by (simp add: leafPath_def)
  show "mlookup t bs = mlookup t' bs"
  proof (cases "j < n")
    case True
    then obtain a where a: "accKey m a = Some (natBytes j)" using sm_wfD(7) [OF wf(1)] by blast
    obtain info where i: "lookupAccount ser m a = Ok info" "SerializeAccountInfo ser info = Ok (mlookup t bs)"
      using sm_wf_leaf [OF wf(1) a] j(2) by auto
    obtain info' where i': "lookupAccount ser m' a = Ok info'" "SerializeAccountInfo ser info' = Ok (mlookup t' bs)"
      using sm_wf_leaf [OF wf(2), of a j] a key same by auto
    have "info = info'" using fun_cong [OF acc, of a] i(1) i'(1) by (simp add: ledgerOf_def)
    with i(2) i'(2) show ?thesis by simp
  next
    case False
    then show ?thesis
      using sm_wfD(8) [OF wf(1), of j] sm_wfD(8) [OF wf(2), of j] j same h by simp
  qed
qed

theorem implements_root:
  assumes "implements ser H m tr sl L" and "implements ser H m' tr' sl L" and "height tr = height tr'"
  shows "root tr = root tr'"
proof -
  obtain t t' where wf: "sm_wf ser H m tr (fst sl) t" "sm_wf ser H m' tr' (fst sl) t'"
    and same: "accKey m = accKey m'" "ledgerOf ser m = ledgerOf ser m'"
    using assms(1,2) by (auto simp: implements_def)
  have "t = t'" by (rule sm_wf_unique [OF wf assms(3) same])
  then show ?thesis
    using tree_wfD(1) [OF sm_wfD(1) [OF wf(1)]] tree_wfD(1) [OF sm_wfD(1) [OF wf(2)]] by (simp add: represents_def)
qed

section \<open>A new state machine\<close>

context kv_db
begin

lemma NewStateMachine_stands:
  assumes H: "hasher_ok H" and size: "160 \<le> 8 * Size H"
    and empty: "accKey (view d) = Map.empty" "lastKeyAt (view d) = None"
    and fresh: "nodes (view d) (Some NamespaceStateTrie) initMarker = None"
      "noCollision (nodes (view d) (Some NamespaceStateTrie)) (initWrites H stateTreeHeight)"
  shows "\<exists>sm d'. NewStateMachine I H d = (Ok sm, d') \<and> smDb sm = d' \<and> stands ser H sm (0, Map.empty) Map.empty \<and>
    height (smTree sm) = stateTreeHeight \<and> tokenAt (view d') = tokenAt (view d)"
proof -
  let ?t = "mfull (nat (stateTreeHeight - 1)) DefaultValue"
  obtain s d' where s: "NewSparseMerkleTree I H d (Some NamespaceStateTrie) None stateTreeHeight False = (Ok s, d')"
    "s = \<lparr>dbNamespace = Some NamespaceStateTrie, root = mhash H ?t, height = stateTreeHeight, hashKey = False\<rparr>"
    "view d' = applyOps (writeOps (Some NamespaceStateTrie) (initWrites H stateTreeHeight)) (view d)"
    "represents (view d') H s ?t (root s)"
    using NewSparseMerkleTree_fresh [OF H _ _ _ fresh, of False] size
    by (auto simp: stateTreeHeight_def simp del: mfull.simps)
  have un: "unchangedExcept {NamespaceStateTrie} (view d) (view d')" unfolding s(3) by (rule unchangedExcept_trie)
  have acc: "accKey (view d') = Map.empty" "lastKeyAt (view d') = None" "tokenAt (view d') = tokenAt (view d)"
    using unchangedExceptD(1,3,4) [OF un] empty by simp_all
  have "tree_wf H (view d') s 0 ?t"
    using s(2,4) size by (simp add: tree_wf_def stateTreeHeight_def del: mfull.simps)
  then have "sm_wf ser H (view d') s 0 ?t"
    by (rule sm_wfI) (auto simp: acc mlookup_mfull s(2) simp del: mfull.simps)
  then have "stands ser H \<lparr>smDb = d', smTree = s\<rparr> (0, Map.empty) Map.empty"
    using acc by (auto simp: stands_def implements_def ledgerOf_def lookupAccount_def fun_eq_iff)
  then show ?thesis using s(1,2) acc(3) by (auto simp: NewStateMachine_def)
qed

end

end
