(* ===== verification/Block_Info.thy ===== *)
theory Block_Info
  imports Merkle_Proofs Ledger_Writes
begin

text \<open>
  \<^verbatim>\<open>types/rollup_block_info.go\<close>: the Merkle tree of a block's transitions, built in a
  fresh memory database with one level per transition, and the included transitions cut out
  of it for the contracts. The contract structs come from the generated bindings.
\<close>

record TransitionInclusionProof =
  tip_BlockNumber :: int
  tip_TransitionIndex :: int
  tip_Siblings :: InclusionProof

record IncludedTransition =
  it_Transition :: bytes
  it_InclusionProof :: TransitionInclusionProof

record RollupBlockInfo =
  info_blockNumber :: int
  encodedTransitions :: "bytes list"
  info_db :: memdb
  info_smt :: smt

text \<open>The loop over the transitions; \<open>i\<close> is its index.\<close>

fun blockLoop ::
  "hasher \<Rightarrow> serializer \<Rightarrow> Transition list \<Rightarrow> nat \<Rightarrow> bytes list \<Rightarrow> smt \<Rightarrow> memdb \<Rightarrow>
     (bytes list \<times> smt \<times> memdb) outcome" where
  "blockLoop H ser [] i encoded tree d = Ok (encoded, tree, d)"
| "blockLoop H ser (transition # transitions) i encoded tree d =
     bindO (SerializeTransition ser transition) (\<lambda>encodedTransition.
       case Update mem_iface H tree d (bigBytes (int i)) encodedTransition of
         (Err e, _, _) \<Rightarrow> Err e
       | (Panic p, _, _) \<Rightarrow> Panic p
       | (Ok _, tree', d') \<Rightarrow>
           blockLoop H ser transitions (Suc i) (encoded @ [encodedTransition]) tree' d')"

definition NewRollupBlockInfo :: "hasher \<Rightarrow> serializer \<Rightarrow> RollupBlock \<Rightarrow> RollupBlockInfo outcome" where
  "NewRollupBlockInfo H ser rollupBlock =
     (let transitions = Transitions rollupBlock; numTransitions = int (length transitions)
      in case NewSparseMerkleTree mem_iface H NewDB (Some NamespaceRollupBlockTrie) None numTransitions False of
           (Err e, _) \<Rightarrow> Err e
         | (Panic p, _) \<Rightarrow> Panic p
         | (Ok tree, d) \<Rightarrow>
             bindO (blockLoop H ser transitions 0 [] tree d) (\<lambda>(encoded, tree, d).
             Ok \<lparr>info_blockNumber = goInt (BlockNumber rollupBlock), encodedTransitions = encoded,
                 info_db = d, info_smt = tree\<rparr>))"

definition GetNumTransitions :: "RollupBlockInfo \<Rightarrow> int" where
  "GetNumTransitions info = int (length (encodedTransitions info))"

definition GetTransitionInclusionProof :: "hasher \<Rightarrow> RollupBlockInfo \<Rightarrow> int \<Rightarrow> TransitionInclusionProof outcome" where
  "GetTransitionInclusionProof H info transitionIndex =
     bindO (Prove mem_iface H (info_smt info) (info_db info) (bigBytes transitionIndex)) (\<lambda>proofData.
     Ok \<lparr>tip_BlockNumber = info_blockNumber info, tip_TransitionIndex = transitionIndex,
         tip_Siblings = ConvertToInclusionProof proofData\<rparr>)"

text \<open>The index is an \<^verbatim>\<open>int\<close>; a negative one panics like one past the end.\<close>

definition idxInt :: "'a list \<Rightarrow> int \<Rightarrow> 'a outcome" where
  "idxInt xs i = (if i < 0 then Panic IndexOutOfRange else idx xs (nat i))"

definition GetIncludedTransition :: "hasher \<Rightarrow> RollupBlockInfo \<Rightarrow> int \<Rightarrow> IncludedTransition outcome" where
  "GetIncludedTransition H info transitionIndex =
     bindO (GetTransitionInclusionProof H info transitionIndex) (\<lambda>inclusionProof.
     bindO (idxInt (encodedTransitions info) transitionIndex) (\<lambda>transition.
     Ok \<lparr>it_Transition = transition, it_InclusionProof = inclusionProof\<rparr>))"

section \<open>The proofs lead to the block's root\<close>

text \<open>No update of the loop overwrites a different node; computed along the loop itself.\<close>

fun blockFresh :: "hasher \<Rightarrow> serializer \<Rightarrow> Transition list \<Rightarrow> nat \<Rightarrow> smt \<Rightarrow> memdb \<Rightarrow> bool" where
  "blockFresh H ser [] i tree d = True"
| "blockFresh H ser (t # ts) i tree d =
     (case SerializeTransition ser t of
        Ok e \<Rightarrow> updateFresh mem_iface H tree d (bigBytes (int i)) e \<and>
          (case Update mem_iface H tree d (bigBytes (int i)) e of
             (_, tree', d') \<Rightarrow> blockFresh H ser ts (Suc i) tree' d')
      | _ \<Rightarrow> True)"

definition blockInfoFresh :: "hasher \<Rightarrow> serializer \<Rightarrow> Transition list \<Rightarrow> bool" where
  "blockInfoFresh H ser ts =
     (noCollision (\<lambda>_. None) (initWrites H (int (length ts))) \<and>
      (case NewSparseMerkleTree mem_iface H NewDB (Some NamespaceRollupBlockTrie) None (int (length ts)) False of
         (Ok tree, d) \<Rightarrow> blockFresh H ser ts 0 tree d
       | _ \<Rightarrow> True))"

text \<open>A block tree with \<open>n\<close> leaves written.\<close>

definition blockTree :: "hasher \<Rightarrow> int \<Rightarrow> bytes list \<Rightarrow> smt \<Rightarrow> memdb \<Rightarrow> mtree \<Rightarrow> bool" where
  "blockTree H h encoded tree d t \<longleftrightarrow>
     represents (mem_view d) H tree t (root tree) \<and> height tree = h \<and> \<not> hashKey tree \<and>
     (\<forall>j<length encoded. mlookup t (leafPath H tree (natBytes j)) = encoded ! j)"

lemma getPath_block:
  assumes "\<not> hashKey tree" and "nat (height tree - 1) \<le> 8 * Size H" and "j < 2 ^ nat (height tree - 1)"
  shows "getPath H tree (natBytes j) = Ok (padPath H (natBytes j))"
proof -
  have "j < 2 ^ (8 * Size H)"
    using assms(3,2) by (rule order_less_le_trans [OF _ power_increasing]) auto
  then have "length (natBytes j) \<le> Size H" by (intro length_natBytes) (simp add: power_mult)
  then show ?thesis using assms(1) by (simp add: getPath_def padKey_def padPath_def)
qed

lemma leafPath_block_inject:
  assumes "height tree < 2 ^ 64" and "i < 2 ^ nat (height tree - 1)" and "j < 2 ^ nat (height tree - 1)"
  shows "leafPath H tree (natBytes i) = leafPath H tree (natBytes j) \<longleftrightarrow> i = j"
  using pathBits_inject [of "padPath H (natBytes i)" "height tree" "padPath H (natBytes j)"] assms
  by (auto simp: leafPath_def)

lemma blockTree_Update:
  assumes H: "hasher_ok H" and bt: "blockTree H h encoded tree d t"
    and h: "nat (h - 1) \<le> 8 * Size H" and j: "length encoded < 2 ^ nat (h - 1)"
    and fresh: "updateFresh mem_iface H tree d (natBytes (length encoded)) e"
  shows "\<exists>r tree' d' t'. Update mem_iface H tree d (natBytes (length encoded)) e = (Ok r, tree', d') \<and>
    blockTree H h (encoded @ [e]) tree' d' t'"
proof -
  let ?j = "length encoded" and ?path = "padPath H (natBytes (length encoded))"
  have B: "represents (mem_view d) H tree t (root tree)" "height tree = h" "\<not> hashKey tree"
    "\<forall>j<length encoded. mlookup t (leafPath H tree (natBytes j)) = encoded ! j"
    using bt by (auto simp: blockTree_def)
  have p: "perfect (nat (height tree - 1)) t" "height tree < 2 ^ 64"
    using B(1) by (auto simp: represents_def)
  have path: "getPath H tree (natBytes ?j) = Ok ?path" using B h j by (intro getPath_block) simp_all
  have nc: "noCollision (nodes (mem_view d) (dbNamespace tree)) (updateWrites H tree t ?path e)"
    using fresh mem.updateFresh_iff [OF H B(1) path] by simp
  let ?t' = "mupdate t (pathBits ?path (height tree)) e"
  from mem.Update_mupdate [OF H B(1) path nc] obtain d' where d':
    "Update mem_iface H tree d (natBytes ?j) e = (Ok (mhash H ?t'), tree\<lparr>root := mhash H ?t'\<rparr>, d')"
    "represents (mem_view d') H tree ?t' (mhash H ?t')" by blast
  have "mlookup ?t' (leafPath H tree (natBytes i)) = (encoded @ [e]) ! i" if i: "i < Suc ?j" for i
  proof -
    have "i < 2 ^ nat (height tree - 1)" using i j B(2) by simp
    then have "leafPath H tree (natBytes i) = leafPath H tree (natBytes ?j) \<longleftrightarrow> i = ?j"
      using leafPath_block_inject [OF p(2), of i ?j] j B(2) by simp
    then show ?thesis
      using i B(4) mlookup_mupdate [OF p(1), of "leafPath H tree (natBytes ?j)" "leafPath H tree (natBytes i)" e]
      by (auto simp: leafPath_def [symmetric] nth_append)
  qed
  then have "blockTree H h (encoded @ [e]) (tree\<lparr>root := mhash H ?t'\<rparr>) d' ?t'"
    using d'(2) B by (simp add: blockTree_def represents_def)
  with d'(1) show ?thesis by blast
qed

lemma blockLoop_ok:
  assumes H: "hasher_ok H" and ser: "serializer_ok ser" and h: "nat (h - 1) \<le> 8 * Size H"
  shows "list_all transition_fits ts \<Longrightarrow> blockTree H h encoded tree d t \<Longrightarrow>
    length encoded + length ts \<le> 2 ^ nat (h - 1) \<Longrightarrow> blockFresh H ser ts (length encoded) tree d \<Longrightarrow>
    \<exists>raw tree' d' t'. blockLoop H ser ts (length encoded) encoded tree d = Ok (encoded @ raw, tree', d') \<and>
      mapO (SerializeTransition ser) ts = Ok raw \<and> blockTree H h (encoded @ raw) tree' d' t'"
proof (induction ts arbitrary: encoded tree d t)
  case (Cons tr ts)
  obtain e where e: "SerializeTransition ser tr = Ok e"
    using transition_roundtrip_lemma [OF ser, of tr] Cons.prems(1) by auto
  have fr: "updateFresh mem_iface H tree d (natBytes (length encoded)) e"
    using Cons.prems(4) e by (simp add: bigBytes_int)
  have j: "length encoded < 2 ^ nat (h - 1)" using Cons.prems(3) by simp
  obtain r tree' d' t' where u: "Update mem_iface H tree d (natBytes (length encoded)) e = (Ok r, tree', d')"
    "blockTree H h (encoded @ [e]) tree' d' t'"
    using blockTree_Update [OF H Cons.prems(2) h j fr] by blast
  have "blockFresh H ser ts (length (encoded @ [e])) tree' d'"
    using Cons.prems(4) e u(1) by (simp add: bigBytes_int)
  with Cons.IH [OF _ u(2)] Cons.prems obtain raw tree'' d'' t'' where
    "blockLoop H ser ts (length (encoded @ [e])) (encoded @ [e]) tree' d' = Ok ((encoded @ [e]) @ raw, tree'', d'')"
    "mapO (SerializeTransition ser) ts = Ok raw" "blockTree H h ((encoded @ [e]) @ raw) tree'' d'' t''" by auto
  with e u(1) show ?case by (auto simp: bigBytes_int)
qed auto

lemma length_le_power: "n \<le> 2 ^ (n - Suc 0)" if "1 \<le> n"
proof -
  have "n - Suc 0 < 2 ^ (n - Suc 0)" by (rule less_exp)
  then show ?thesis using that by linarith
qed

lemma NewRollupBlockInfo_ok:
  assumes H: "hasher_ok H" and size: "Size H \<le> 32" and ser: "serializer_ok ser"
    and fits: "list_all transition_fits (Transitions b)"
    and len: "1 \<le> length (Transitions b)" "length (Transitions b) \<le> 8 * Size H"
    and fresh: "blockInfoFresh H ser (Transitions b)"
  shows "\<exists>info raw t. NewRollupBlockInfo H ser b = Ok info \<and>
    mapO (SerializeTransition ser) (Transitions b) = Ok raw \<and> encodedTransitions info = raw \<and>
    info_blockNumber info = goInt (BlockNumber b) \<and>
    blockTree H (int (length (Transitions b))) raw (info_smt info) (info_db info) t"
proof -
  let ?ts = "Transitions b" and ?h = "int (length (Transitions b))"
  have nodes0: "nodes (mem_view NewDB) (Some NamespaceRollupBlockTrie) = (\<lambda>_. None)"
    by (simp add: nodes_def mem_view_def NewDB_def fun_eq_iff)
  have bound: "?h < 2 ^ 64" using len(2) size by simp
  have nc: "noCollision (nodes (mem_view NewDB) (Some NamespaceRollupBlockTrie)) (initWrites H ?h)"
    using fresh by (simp add: nodes0 blockInfoFresh_def)
  obtain tree d where new: "NewSparseMerkleTree mem_iface H NewDB (Some NamespaceRollupBlockTrie) None ?h False = (Ok tree, d)"
    "tree = \<lparr>dbNamespace = Some NamespaceRollupBlockTrie, root = mhash H (mfull (nat (?h - 1)) DefaultValue),
      height = ?h, hashKey = False\<rparr>"
    "represents (mem_view d) H tree (mfull (nat (?h - 1)) DefaultValue) (root tree)"
    using mem.NewSparseMerkleTree_fresh [OF H _ _ bound _ nc, of False] len by (auto simp: nodes0)
  have bt: "blockTree H ?h [] tree d (mfull (nat (?h - 1)) DefaultValue)"
    using new(2,3) by (simp add: blockTree_def)
  have "nat (?h - 1) = length ?ts - Suc 0" by linarith
  then have cap: "length ([] :: bytes list) + length ?ts \<le> 2 ^ nat (?h - 1)"
    using length_le_power [OF len(1)] by simp
  have fr: "blockFresh H ser ?ts (length ([] :: bytes list)) tree d"
    using fresh new(1) by (simp add: blockInfoFresh_def)
  have h: "nat (?h - 1) \<le> 8 * Size H" using len(2) by simp
  from blockLoop_ok [OF H ser h fits bt cap fr] new(1) show ?thesis
    by (auto simp: NewRollupBlockInfo_def)
qed

lemma GetIncludedTransition_ok:
  assumes H: "hasher_ok H" and size: "Size H \<le> 32" and bt: "blockTree H h raw (info_smt info) (info_db info) t"
    and raw: "encodedTransitions info = raw" and h: "nat (h - 1) \<le> 8 * Size H" "length raw \<le> 2 ^ nat (h - 1)"
    and i: "i < length raw"
  shows "\<exists>it. GetIncludedTransition H info (int i) = Ok it \<and> it_Transition it = raw ! i \<and>
    tip_BlockNumber (it_InclusionProof it) = info_blockNumber info \<and>
    tip_TransitionIndex (it_InclusionProof it) = int i \<and>
    proofRoot H h (padPath H (natBytes i)) (tip_Siblings (it_InclusionProof it)) (raw ! i) = root (info_smt info)"
proof -
  let ?tree = "info_smt info"
  have B: "represents (mem_view (info_db info)) H ?tree t (root ?tree)" "height ?tree = h" "\<not> hashKey ?tree"
    "mlookup t (leafPath H ?tree (natBytes i)) = raw ! i"
    using bt i by (auto simp: blockTree_def)
  have path: "getPath H ?tree (natBytes i) = Ok (padPath H (natBytes i))"
    using B h i by (intro getPath_block) simp_all
  obtain pf where pf: "ProveForRoot mem_iface H ?tree (info_db info) (natBytes i) (root ?tree) = Ok pf"
    using mem.ProveForRoot_msides [OF H B(1) path] by blast
  have "proofRoot H h (padPath H (natBytes i)) pf (raw ! i) = root ?tree"
    using mem.proofRoot_Prove(3) [OF H B(1) path pf] B(2,4) by (simp add: leafPath_def)
  moreover have "map (copyN (Size H)) (ConvertToInclusionProof pf) = map (copyN (Size H)) pf"
    using size by (simp add: ConvertToInclusionProof_def comp_def) (simp add: copyN_def min_def)
  ultimately show ?thesis
    using pf i raw
    by (simp add: GetIncludedTransition_def GetTransitionInclusionProof_def Prove_def bigBytes_int idxInt_def
        proofRoot_def)
qed

end
