(* ===== verification/Eth_Client.thy ===== *)
theory Eth_Client
  imports Rollup_Types
begin

text \<open>
  \<^verbatim>\<open>utils/\<close>: waiting for a transaction to be mined, and signatures. The JSON-RPC
  client, the context and the cryptographic primitives are parameters. A client answers the
  n-th request of a wait with \<open>TransactionReceipt n\<close> or \<open>HeaderByNumber n\<close>; the
  context says after how many requests it is done. The polls may go on forever, so the loops
  are \<open>partial_function (option)\<close> and \<open>None\<close> is a call that never returns.
\<close>

section \<open>Transactions and receipts\<close>

record transactOpts =
  From :: bytes
  GasLimit :: u64
  GasPrice :: "int option"

record ethTx =
  tx_Hash :: bytes

record receipt =
  Status :: u64
  GasUsed :: u64

record ethclient =
  TransactionReceipt :: "nat \<Rightarrow> bytes \<Rightarrow> receipt outcome"
  HeaderByNumber :: "nat \<Rightarrow> int outcome"

type_synonym ctx = "nat \<Rightarrow> error option"

definition Background :: ctx where
  "Background = (\<lambda>_. None)"

definition missingFieldErr :: string where
  "missingFieldErr = ''missing required field 'transactionHash' for Log''"

definition isPending :: "error \<Rightarrow> bool" where
  "isPending rerr = (rerr = ErrNotFound \<or> rerr = ErrExternal missingFieldErr)"

section \<open>Waiting\<close>

text \<open>The first loop of \<^verbatim>\<open>WaitMinedWithTxHash\<close>, with the number of requests made.\<close>

partial_function (option) waitReceipt ::
  "ctx \<Rightarrow> ethclient \<Rightarrow> bytes \<Rightarrow> nat \<Rightarrow> (receipt outcome \<times> nat) option" where
  "waitReceipt c ec h n =
     (case TransactionReceipt ec n h of
        Ok r \<Rightarrow> Some (Ok r, Suc n)
      | Panic p \<Rightarrow> Some (Panic p, Suc n)
      | Err rerr \<Rightarrow>
          if isPending rerr then
            (case c (Suc n) of Some e \<Rightarrow> Some (Err e, Suc n) | None \<Rightarrow> waitReceipt c ec h (Suc n))
          else Some (Err rerr, Suc n))"

partial_function (option) waitConfirmations ::
  "ctx \<Rightarrow> ethclient \<Rightarrow> bytes \<Rightarrow> int \<Rightarrow> nat \<Rightarrow> receipt outcome option" where
  "waitConfirmations c ec h ddl n =
     (case HeaderByNumber ec n of
        Panic p \<Rightarrow> Some (Panic p)
      | header \<Rightarrow>
          if (case header of Ok number \<Rightarrow> ddl < number | _ \<Rightarrow> False) then
            (case TransactionReceipt ec (Suc n) h of
               Ok r \<Rightarrow> Some (Ok r)
             | Panic p \<Rightarrow> Some (Panic p)
             | Err rerr \<Rightarrow> if isPending rerr then Some (Err ErrTxDropped) else Some (Err rerr))
          else (case c (Suc n) of
               Some e \<Rightarrow> Some (Err e)
             | None \<Rightarrow> waitConfirmations c ec h ddl (Suc n)))"

definition WaitMinedWithTxHash ::
  "ctx \<Rightarrow> ethclient option \<Rightarrow> bytes \<Rightarrow> u64 \<Rightarrow> receipt outcome option" where
  "WaitMinedWithTxHash c client txHash blockDelay =
     (case client of
        None \<Rightarrow> Some (Err ErrNilClient)
      | Some ec \<Rightarrow> (case waitReceipt c ec txHash 0 of
            None \<Rightarrow> None
          | Some (Ok r, n) \<Rightarrow>
              if blockDelay = 0 then Some (Ok r)
              else (case HeaderByNumber ec n of
                  Panic p \<Rightarrow> Some (Panic p)
                | header \<Rightarrow> waitConfirmations c ec txHash
                    (case header of Ok number \<Rightarrow> uint blockDelay + number | _ \<Rightarrow> 0) (Suc n))
          | Some (r, n) \<Rightarrow> Some r))"

definition WaitMined :: "ctx \<Rightarrow> ethclient option \<Rightarrow> ethTx \<Rightarrow> u64 \<Rightarrow> receipt outcome option" where
  "WaitMined c client tx blockDelay = WaitMinedWithTxHash c client (tx_Hash tx) blockDelay"

text \<open>
  The end of every contract call: wait without confirmations and turn a failed receipt into
  the caller's error.
\<close>

definition minedOr :: "ethclient option \<Rightarrow> ethTx \<Rightarrow> string \<Rightarrow> receipt outcome option" where
  "minedOr client tx msg =
     map_option (\<lambda>r. bindO r (\<lambda>rc. if Status rc \<noteq> 1 then Err (ErrTxFailed msg) else Ok rc))
       (WaitMined Background client tx 0)"

text \<open>A wait returns what the first answer says that is not \<^verbatim>\<open>pending\<close>.\<close>

definition pendingAt :: "ethclient \<Rightarrow> bytes \<Rightarrow> nat \<Rightarrow> bool" where
  "pendingAt ec h n = (case TransactionReceipt ec n h of Err e \<Rightarrow> isPending e | _ \<Rightarrow> False)"

lemma waitReceipt_pending:
  assumes "pendingAt ec h n" and "c (Suc n) = None"
  shows "waitReceipt c ec h n = waitReceipt c ec h (Suc n)"
  using assms by (simp add: waitReceipt.simps [of c ec h n] pendingAt_def split: outcome.splits)

lemma waitReceipt_settled:
  "\<not> pendingAt ec h n \<Longrightarrow> waitReceipt c ec h n = Some (TransactionReceipt ec n h, Suc n)"
  by (simp add: waitReceipt.simps [of c ec h n] pendingAt_def split: outcome.splits)

lemma waitReceipt_settles:
  assumes "\<not> pendingAt ec h (n + k)"
  shows "\<forall>i<k. pendingAt ec h (n + i) \<and> c (Suc (n + i)) = None \<Longrightarrow>
    waitReceipt c ec h n = Some (TransactionReceipt ec (n + k) h, Suc (n + k))"
  using assms
proof (induction k arbitrary: n)
  case 0
  then show ?case by (simp add: waitReceipt_settled)
next
  case (Suc k)
  from Suc.prems(1) have "pendingAt ec h n" "c (Suc n) = None" by force+
  moreover have "\<forall>i<k. pendingAt ec h (Suc n + i) \<and> c (Suc (Suc n + i)) = None"
    using Suc.prems(1) by (metis Suc_less_eq add_Suc add_Suc_right)
  ultimately show ?case
    using Suc.IH [of "Suc n"] Suc.prems(2) by (simp add: waitReceipt_pending)
qed

lemma waitReceipt_diverges:
  assumes "\<forall>n. pendingAt ec h n" and "\<forall>n. c n = None"
  shows "waitReceipt c ec h n = None"
proof (rule ccontr)
  assume "waitReceipt c ec h n \<noteq> None"
  then obtain y where y: "waitReceipt c ec h n = Some y" by blast
  have "c' = c \<longrightarrow> ec' = ec \<longrightarrow> h' = h \<longrightarrow> False" if "waitReceipt c' ec' h' n' = Some y'" for c' ec' h' n' y'
    using that
  proof (rule waitReceipt.raw_induct [of "\<lambda>c' ec' h' n' y'. c' = c \<longrightarrow> ec' = ec \<longrightarrow> h' = h \<longrightarrow> False", rotated])
    fix f c' ec' h' n' y'
    assume IH: "\<And>c' ec' h' n' y'. f c' ec' h' n' = Some y' \<Longrightarrow> c' = c \<longrightarrow> ec' = ec \<longrightarrow> h' = h \<longrightarrow> False"
      and step: "(case TransactionReceipt ec' n' h' of
          Ok r \<Rightarrow> Some (Ok r, Suc n') | Err rerr \<Rightarrow>
            if isPending rerr then
              (case c' (Suc n') of None \<Rightarrow> f c' ec' h' (Suc n') | Some e \<Rightarrow> Some (Err e, Suc n'))
            else Some (Err rerr, Suc n')
        | Panic p \<Rightarrow> Some (Panic p, Suc n')) = Some y'"
    show "c' = c \<longrightarrow> ec' = ec \<longrightarrow> h' = h \<longrightarrow> False"
    proof (intro impI)
      assume eq: "c' = c" "ec' = ec" "h' = h"
      have "pendingAt ec h n'" "c (Suc n') = None" using assms by auto
      with step eq have "f c ec h (Suc n') = Some y'" by (auto simp: pendingAt_def split: outcome.splits)
      from IH [OF this] show False by simp
    qed
  qed
  from this [OF y] show False by simp
qed

lemma WaitMined_settles:
  assumes "\<forall>i<k. pendingAt ec (tx_Hash tx) i" and "\<not> pendingAt ec (tx_Hash tx) k"
  shows "WaitMined Background (Some ec) tx 0 = Some (TransactionReceipt ec k (tx_Hash tx))"
  using assms waitReceipt_settles [of ec "tx_Hash tx" 0 k Background]
  by (auto simp: WaitMined_def WaitMinedWithTxHash_def Background_def split: outcome.splits)

lemma WaitMined_diverges:
  assumes "\<forall>i. pendingAt ec (tx_Hash tx) i"
  shows "WaitMined Background (Some ec) tx blockDelay = None"
  using waitReceipt_diverges [of ec "tx_Hash tx" Background 0] assms
  by (simp add: WaitMined_def WaitMinedWithTxHash_def Background_def)

section \<open>Signatures\<close>

record ('pk, 'sk) crypto =
  Keccak256 :: "bytes \<Rightarrow> bytes"
  SigToPub :: "bytes \<Rightarrow> bytes \<Rightarrow> 'pk outcome"
  PubkeyToAddress :: "'pk \<Rightarrow> bytes"
  Sign :: "bytes \<Rightarrow> 'sk \<Rightarrow> bytes outcome"
  SoliditySHA3 :: "string list \<Rightarrow> abi_val list \<Rightarrow> bytes"
  SoliditySHA3WithPrefix :: "bytes \<Rightarrow> bytes"

definition messagePrefix :: bytes where
  "messagePrefix = 25 # map (\<lambda>c. of_char c) ''Ethereum Signed Message:'' @ [10, 51, 50]"

definition generatePrefixedHash :: "('pk, 'sk) crypto \<Rightarrow> bytes \<Rightarrow> bytes" where
  "generatePrefixedHash C data = Keccak256 C (messagePrefix @ Keccak256 C data)"

definition RecoverSigner :: "('pk, 'sk) crypto \<Rightarrow> bytes \<Rightarrow> bytes \<Rightarrow> bytes outcome" where
  "RecoverSigner C data sig =
     (case SigToPub C (generatePrefixedHash C data) sig of
        Err _ \<Rightarrow> Ok (replicate 20 0)
      | Panic p \<Rightarrow> Panic p
      | Ok pubKey \<Rightarrow> Ok (PubkeyToAddress C pubKey))"

definition IsSignatureValid :: "('pk, 'sk) crypto \<Rightarrow> bytes \<Rightarrow> bytes \<Rightarrow> bytes \<Rightarrow> bool outcome" where
  "IsSignatureValid C signer data sig =
     bindO (RecoverSigner C data sig) (\<lambda>recoveredAddr. Ok (recoveredAddr = signer))"

text \<open>The recovery id, 0 or 1, becomes the 27 or 28 of the contracts.\<close>

definition SignHash :: "('pk, 'sk) crypto \<Rightarrow> 'sk \<Rightarrow> bytes \<Rightarrow> bytes outcome" where
  "SignHash C privateKey hash =
     bindO (Sign C (SoliditySHA3WithPrefix C hash) privateKey) (\<lambda>sig.
     bindO (idx sig 64) (\<lambda>v. setIdx sig 64 (v + 27)))"

definition SignData :: "('pk, 'sk) crypto \<Rightarrow> 'sk \<Rightarrow> bytes \<Rightarrow> bytes outcome" where
  "SignData C privateKey data = SignHash C privateKey (Keccak256 C data)"

definition SignPackedData :: "('pk, 'sk) crypto \<Rightarrow> 'sk \<Rightarrow> string list \<Rightarrow> abi_val list \<Rightarrow> bytes outcome" where
  "SignPackedData C privateKey types data = SignHash C privateKey (SoliditySHA3 C types data)"

text \<open>
  What go-ethereum documents: a signature has 65 bytes and ends in a recovery id of 0 or 1,
  recovery finds the signer's key and refuses an id of 4 or more; and solidity-sha3 prefixes
  the way \<^verbatim>\<open>generatePrefixedHash\<close> does.
\<close>

definition crypto_ok :: "('pk, 'sk) crypto \<Rightarrow> ('sk \<Rightarrow> 'pk) \<Rightarrow> bool" where
  "crypto_ok C pub \<longleftrightarrow>
     (\<forall>h. SoliditySHA3WithPrefix C h = Keccak256 C (messagePrefix @ h)) \<and>
     (\<forall>h sk. \<exists>sig. Sign C h sk = Ok sig \<and> length sig = 65 \<and> sig ! 64 \<in> {0, 1} \<and>
        SigToPub C h sig = Ok (pub sk)) \<and>
     (\<forall>h sig. length sig = 65 \<and> 4 \<le> sig ! 64 \<longrightarrow> (\<exists>e. SigToPub C h sig = Err e))"

lemma SignData_shape:
  assumes "crypto_ok C pub"
  shows "\<exists>sig v. Sign C (generatePrefixedHash C data) sk = Ok sig \<and> length sig = 65 \<and> sig ! 64 = v \<and>
    v \<in> {0, 1} \<and> SigToPub C (generatePrefixedHash C data) sig = Ok (pub sk) \<and>
    SignData C sk data = Ok (sig[64 := v + 27])"
proof -
  have pre: "SoliditySHA3WithPrefix C (Keccak256 C data) = generatePrefixedHash C data"
    using assms by (simp add: crypto_ok_def generatePrefixedHash_def)
  obtain sig where "Sign C (generatePrefixedHash C data) sk = Ok sig" "length sig = 65" "sig ! 64 \<in> {0, 1}"
    "SigToPub C (generatePrefixedHash C data) sig = Ok (pub sk)"
    using assms unfolding crypto_ok_def by blast
  then show ?thesis by (auto simp: SignData_def SignHash_def pre)
qed

lemma SignData_rejected:
  assumes "crypto_ok C pub" and "signer \<noteq> replicate 20 0" and "SignData C sk data = Ok sig"
  shows "IsSignatureValid C signer data sig = Ok False"
proof -
  obtain s v where s: "length s = 65" "v \<in> {0, 1}" "sig = s[64 := v + 27]"
    using SignData_shape [OF assms(1), of data sk] assms(3) by auto
  have "4 \<le> sig ! 64" "length sig = 65" using s by auto
  then obtain e where "SigToPub C (generatePrefixedHash C data) sig = Err e"
    using assms(1) unfolding crypto_ok_def by blast
  then show ?thesis using assms(2) by (simp add: IsSignatureValid_def RecoverSigner_def)
qed

lemma SignData_recovers:
  assumes "crypto_ok C pub" and "SignData C sk data = Ok sig"
  shows "IsSignatureValid C (PubkeyToAddress C (pub sk)) data (sig[64 := sig ! 64 - 27]) = Ok True"
proof -
  obtain s v where s: "length s = 65" "s ! 64 = v" "sig = s[64 := v + 27]"
    "SigToPub C (generatePrefixedHash C data) s = Ok (pub sk)"
    using SignData_shape [OF assms(1), of data sk] assms(2) by auto
  have "sig[64 := sig ! 64 - 27] = s" using s list_update_id [of s 64] by simp
  with s(4) show ?thesis by (simp add: IsSignatureValid_def RecoverSigner_def)
qed

section \<open>Keystores\<close>

record ('sk) keystore =
  ReadFile :: "string \<Rightarrow> bytes outcome"
  DecryptKey :: "bytes \<Rightarrow> string \<Rightarrow> 'sk outcome"
  NewKeyedTransactor :: "'sk \<Rightarrow> transactOpts"

definition GetPrivateKayFromKeystore :: "('sk) keystore \<Rightarrow> string \<Rightarrow> string \<Rightarrow> 'sk outcome" where
  "GetPrivateKayFromKeystore K path password =
     bindO (ReadFile K path) (\<lambda>ksBytes. DecryptKey K ksBytes password)"

definition GetAuthFromKeystore :: "('sk) keystore \<Rightarrow> string \<Rightarrow> string \<Rightarrow> transactOpts outcome" where
  "GetAuthFromKeystore K path password =
     bindO (GetPrivateKayFromKeystore K path password) (\<lambda>privateKey. Ok (NewKeyedTransactor K privateKey))"

end
