(* ===== verification/Validator.thy ===== *)
theory Validator
  imports State_Machine Block_Info Eth_Client
begin

text \<open>
  \<^verbatim>\<open>validator/validator.go\<close>: replays the transitions of a committed block on the
  validator's own state machine and builds a fraud proof when the roots differ. The
  validator's \<^verbatim>\<open>db\<close> is the database of its state machine (\<^verbatim>\<open>NewAggregator\<close> passes
  the same object to both), so the state holds it once. The contract binding and the chain
  behind it are parameters.
\<close>

section \<open>Contract structs\<close>

record IncludedStorageSlot =
  iss_SlotIndex :: int
  iss_Value :: AccountInfo
  iss_Siblings :: InclusionProof

record ContractFraudProof =
  PreStateIncludedTransition :: IncludedTransition
  InvalidIncludedTransition :: IncludedTransition
  TransitionStorageSlots :: "IncludedStorageSlot list"

record 'c rollupChain =
  CommitterAddress :: "'c \<Rightarrow> bytes outcome"
  Blocks :: "'c \<Rightarrow> int \<Rightarrow> (bytes \<times> int) outcome"
  CommitBlock :: "'c \<Rightarrow> transactOpts \<Rightarrow> int \<Rightarrow> bytes list \<Rightarrow> bytes list \<Rightarrow> ethTx outcome \<times> 'c"
  ProveTransitionInvalid :: "'c \<Rightarrow> transactOpts \<Rightarrow> IncludedTransition \<Rightarrow> IncludedTransition \<Rightarrow>
    IncludedStorageSlot list \<Rightarrow> ethTx outcome \<times> 'c"

record ('d, 'c) validator =
  v_sm :: "'d sm"
  v_auth :: transactOpts
  v_chain :: 'c

definition NewValidator :: "'d sm \<Rightarrow> transactOpts \<Rightarrow> 'c \<Rightarrow> ('d, 'c) validator" where
  "NewValidator stateMachine mainchainAuth chain =
     \<lparr>v_sm = stateMachine, v_auth = mainchainAuth, v_chain = chain\<rparr>"

section \<open>From a transition back to its transaction\<close>

text \<open>\<^verbatim>\<open>common.BytesToAddress\<close> keeps the last 20 bytes and pads on the left.\<close>

definition BytesToAddress :: "bytes \<Rightarrow> bytes" where
  "BytesToAddress b = replicate (20 - length b) 0 @ drop (length b - 20) b"

definition getInputStateSnapshots ::
  "('d, 't, 'b) DB \<Rightarrow> hasher \<Rightarrow> serializer \<Rightarrow> 'd sm \<Rightarrow> Transition \<Rightarrow> StateSnapshot option list outcome" where
  "getInputStateSnapshots I H ser sm transition =
     (case GetTransitionType transition of
        TransitionTypeCreateAndDeposit \<Rightarrow> Ok []
      | TransitionTypeDeposit \<Rightarrow>
          bindO (GetStateSnapshot I H ser sm (bigBytes (tr_AccountSlotIndex transition))) (\<lambda>snapshot.
          Ok [Some snapshot])
      | TransitionTypeWithdraw \<Rightarrow>
          bindO (GetStateSnapshot I H ser sm (bigBytes (tr_AccountSlotIndex transition))) (\<lambda>snapshot.
          Ok [Some snapshot])
      | TransitionTypeCreateAndTransfer \<Rightarrow>
          bindO (GetStateSnapshot I H ser sm (bigBytes (tr_SenderSlotIndex transition))) (\<lambda>senderSnapshot.
          Ok [Some senderSnapshot, None])
      | TransitionTypeTransfer \<Rightarrow>
          bindO (GetStateSnapshot I H ser sm (bigBytes (tr_SenderSlotIndex transition))) (\<lambda>senderSnapshot.
          bindO (GetStateSnapshot I H ser sm (bigBytes (tr_RecipientSlotIndex transition))) (\<lambda>recipientSnapshot.
          Ok [Some senderSnapshot, Some recipientSnapshot])))"

text \<open>\<^verbatim>\<open>snapshots[i].AccountInfo.Account\<close>.\<close>

definition snapshotAccount :: "StateSnapshot option list \<Rightarrow> nat \<Rightarrow> bytes outcome" where
  "snapshotAccount snapshots i =
     bindO (idx snapshots i) (\<lambda>s. case s of
       None \<Rightarrow> Panic NilDereference
     | Some snapshot \<Rightarrow> Ok (Account (snap_AccountInfo snapshot)))"

definition getToken :: "('d, 't, 'b) DB \<Rightarrow> 'd sm \<Rightarrow> int \<Rightarrow> bytes outcome" where
  "getToken I sm tokenIndex =
     bindO (db_Get I (smDb sm) (Some NamespaceTokenIndexToTokenAddress) (bigBytes tokenIndex)) (\<lambda>r. case r of
       None \<Rightarrow> Err ErrInvalidToken
     | Some tokenBytes \<Rightarrow> Ok (BytesToAddress tokenBytes))"

definition getTransactionFromTransitionAndSnapshots ::
  "('d, 't, 'b) DB \<Rightarrow> 'd sm \<Rightarrow> Transition \<Rightarrow> StateSnapshot option list \<Rightarrow> Transaction outcome" where
  "getTransactionFromTransitionAndSnapshots I sm transition snapshots =
     (case transition of
        CreateAndDepositTransition ty sr slot account tokenIndex amount signature \<Rightarrow>
          bindO (getToken I sm tokenIndex) (\<lambda>token.
          Ok (DepositTransaction account token amount signature))
      | DepositTransition ty sr slot tokenIndex amount signature \<Rightarrow>
          bindO (snapshotAccount snapshots 0) (\<lambda>account.
          bindO (getToken I sm tokenIndex) (\<lambda>token.
          Ok (DepositTransaction account token amount signature)))
      | WithdrawTransition ty sr slot tokenIndex amount nonce signature \<Rightarrow>
          bindO (snapshotAccount snapshots 0) (\<lambda>account.
          bindO (getToken I sm tokenIndex) (\<lambda>token.
          Ok (WithdrawTransaction account token amount nonce signature)))
      | CreateAndTransferTransition ty sr sndr rcpt recipient tokenIndex amount nonce signature \<Rightarrow>
          bindO (snapshotAccount snapshots 0) (\<lambda>sender.
          bindO (getToken I sm tokenIndex) (\<lambda>token.
          Ok (TransferTransaction sender recipient token amount nonce signature)))
      | TransferTransition ty sr sndr rcpt tokenIndex amount nonce signature \<Rightarrow>
          bindO (snapshotAccount snapshots 0) (\<lambda>sender.
          bindO (snapshotAccount snapshots 1) (\<lambda>recipient.
          bindO (getToken I sm tokenIndex) (\<lambda>token.
          Ok (TransferTransaction sender recipient token amount nonce signature)))))"

section \<open>Validation\<close>

definition validateTransition ::
  "('d, 't, 'b) DB \<Rightarrow> hasher \<Rightarrow> serializer \<Rightarrow> 'd sm \<Rightarrow> TransitionPosition \<Rightarrow> Transition \<Rightarrow>
     LocalFraudProof option outcome \<times> 'd sm" where
  "validateTransition I H ser sm transitionPosition transition =
     thenS (getInputStateSnapshots I H ser sm transition, sm) (\<lambda>snapshots sm.
     thenS (getTransactionFromTransitionAndSnapshots I sm transition snapshots, sm) (\<lambda>tx sm.
     let fraudProof = \<lparr>fp_Position = transitionPosition, fp_Inputs = snapshots, fp_Transition = transition\<rparr>
     in case ApplyTransaction I H ser sm tx of
          (Err _, sm') \<Rightarrow> (Ok (Some fraudProof), sm')
        | (Panic p, sm') \<Rightarrow> (Panic p, sm')
        | (Ok _, sm') \<Rightarrow>
            if GetStateRoot sm' \<noteq> tr_StateRoot transition then (Ok (Some fraudProof), sm')
            else (Ok None, sm')))"

section \<open>Fraud proofs\<close>

definition storageSlot :: "StateSnapshot option \<Rightarrow> IncludedStorageSlot outcome" where
  "storageSlot input =
     (case input of
        None \<Rightarrow> Panic NilDereference
      | Some snapshot \<Rightarrow> Ok \<lparr>iss_SlotIndex = snap_SlotIndex snapshot, iss_Value = snap_AccountInfo snapshot,
            iss_Siblings = snap_InclusionProof snapshot\<rparr>)"

text \<open>
  The included transition before the invalid one: of the same block, or the last one of the
  previous block. The block number is unsigned and its predecessor wraps around;
  \<^verbatim>\<open>Bytes()\<close> then drops the sign of the converted number.
\<close>

definition preStateTransition ::
  "('d, 't, 'b) DB \<Rightarrow> hasher \<Rightarrow> serializer \<Rightarrow> 'd sm \<Rightarrow> RollupBlockInfo \<Rightarrow> TransitionPosition \<Rightarrow>
     IncludedTransition outcome" where
  "preStateTransition I H ser sm blockInfo position =
     (if pos_TransitionIndex position = 0 then
        bindO (db_Get I (smDb sm) (Some NamespaceRollupBlockNumber)
          (bigBytes (goInt (pos_BlockNumber position - 1)))) (\<lambda>r. case r of
          None \<Rightarrow> Err ErrNonExistentBlock
        | Some previousBlockData \<Rightarrow>
            bindO (DeserializeRollupBlockFromData ser previousBlockData) (\<lambda>previousBlock.
            bindO (NewRollupBlockInfo H ser previousBlock) (\<lambda>previousBlockInfo.
            GetIncludedTransition H previousBlockInfo (GetNumTransitions previousBlockInfo - 1))))
      else GetIncludedTransition H blockInfo (goInt (pos_TransitionIndex position - 1)))"

definition generateContractFraudProof ::
  "('d, 't, 'b) DB \<Rightarrow> hasher \<Rightarrow> serializer \<Rightarrow> 'd sm \<Rightarrow> RollupBlock \<Rightarrow> LocalFraudProof \<Rightarrow>
     ContractFraudProof outcome" where
  "generateContractFraudProof I H ser sm block localFraudProof =
     bindO (mapO storageSlot (fp_Inputs localFraudProof)) (\<lambda>transitionStorageSlots.
     bindO (NewRollupBlockInfo H ser block) (\<lambda>blockInfo.
     let position = fp_Position localFraudProof
     in bindO (GetIncludedTransition H blockInfo (goInt (pos_TransitionIndex position)))
       (\<lambda>invalidIncludedTransition.
     bindO (preStateTransition I H ser sm blockInfo position) (\<lambda>preStateIncludedTransition.
     Ok \<lparr>PreStateIncludedTransition = preStateIncludedTransition,
         InvalidIncludedTransition = invalidIncludedTransition,
         TransitionStorageSlots = transitionStorageSlots\<rparr>))))"

definition submitContractFraudProof ::
  "'c rollupChain \<Rightarrow> ethclient option \<Rightarrow> ('d, 'c) validator \<Rightarrow> ContractFraudProof \<Rightarrow>
     (unit outcome \<times> ('d, 'c) validator) option" where
  "submitContractFraudProof R client v pf =
     (let auth = (v_auth v)\<lparr>GasLimit := 8000000, GasPrice := Some (10 ^ 10)\<rparr>; v1 = v\<lparr>v_auth := auth\<rparr>
      in case CommitterAddress R (v_chain v) of
           Err e \<Rightarrow> Some (Err e, v1)
         | Panic p \<Rightarrow> Some (Panic p, v1)
         | Ok committerAddress \<Rightarrow>
             if From auth = committerAddress then Some (Ok (), v1)
             else (case ProveTransitionInvalid R (v_chain v) auth (PreStateIncludedTransition pf)
                     (InvalidIncludedTransition pf) (TransitionStorageSlots pf) of
                 (Err e, ch) \<Rightarrow> Some (Err e, v1\<lparr>v_chain := ch\<rparr>)
               | (Panic p, ch) \<Rightarrow> Some (Panic p, v1\<lparr>v_chain := ch\<rparr>)
               | (Ok tx, ch) \<Rightarrow>
                   map_option (\<lambda>r. (bindO r (\<lambda>_. Ok ()), v1\<lparr>v_chain := ch\<rparr>))
                     (minedOr client tx ''Failed to submit fraud proof'')))"

section \<open>Blocks\<close>

text \<open>
  The loop of \<^verbatim>\<open>validateBlock\<close>. A validation error is logged and the loop goes on; an
  error of \<^verbatim>\<open>generateContractFraudProof\<close> ends it.
\<close>

fun validateLoop ::
  "('d, 't, 'b) DB \<Rightarrow> hasher \<Rightarrow> serializer \<Rightarrow> 'c rollupChain \<Rightarrow> ethclient option \<Rightarrow> RollupBlock \<Rightarrow>
     Transition list \<Rightarrow> nat \<Rightarrow> ('d, 'c) validator \<Rightarrow> (unit outcome \<times> ('d, 'c) validator) option" where
  "validateLoop I H ser R client block [] i v = Some (Ok (), v)"
| "validateLoop I H ser R client block (transition # transitions) i v =
     (case validateTransition I H ser (v_sm v)
        \<lparr>pos_BlockNumber = BlockNumber block, pos_TransitionIndex = word_of_nat i\<rparr> transition of
        (Panic p, sm') \<Rightarrow> Some (Panic p, v\<lparr>v_sm := sm'\<rparr>)
      | (Err e, sm') \<Rightarrow> validateLoop I H ser R client block transitions (Suc i) (v\<lparr>v_sm := sm'\<rparr>)
      | (Ok None, sm') \<Rightarrow> validateLoop I H ser R client block transitions (Suc i) (v\<lparr>v_sm := sm'\<rparr>)
      | (Ok (Some fraudProof), sm') \<Rightarrow>
          (case generateContractFraudProof I H ser sm' block fraudProof of
             Panic p \<Rightarrow> Some (Panic p, v\<lparr>v_sm := sm'\<rparr>)
           | Err e \<Rightarrow> Some (Ok (), v\<lparr>v_sm := sm'\<rparr>)
           | Ok contractFraudProof \<Rightarrow>
               (case submitContractFraudProof R client (v\<lparr>v_sm := sm'\<rparr>) contractFraudProof of
                  None \<Rightarrow> None
                | Some (Panic p, v') \<Rightarrow> Some (Panic p, v')
                | Some (_, v') \<Rightarrow> validateLoop I H ser R client block transitions (Suc i) v')))"

text \<open>An error of \<^verbatim>\<open>Serialize\<close> is logged and the nil block is stored.\<close>

definition storeBlock ::
  "('d, 't, 'b) DB \<Rightarrow> serializer \<Rightarrow> 'd \<Rightarrow> RollupBlock \<Rightarrow> unit outcome \<times> 'd" where
  "storeBlock I ser d block =
     (case SerializeRollupBlock ser block of
        Panic p \<Rightarrow> (Panic p, d)
      | serialized \<Rightarrow>
          db_Set I d (Some NamespaceRollupBlockNumber) (bigBytes (goInt (BlockNumber block)))
            (case serialized of Ok (_, serializedBlock) \<Rightarrow> serializedBlock | _ \<Rightarrow> []))"

definition validateBlock ::
  "('d, 't, 'b) DB \<Rightarrow> hasher \<Rightarrow> serializer \<Rightarrow> 'c rollupChain \<Rightarrow> ethclient option \<Rightarrow> ('d, 'c) validator \<Rightarrow>
     RollupBlock \<Rightarrow> (unit outcome \<times> ('d, 'c) validator) option" where
  "validateBlock I H ser R client v block =
     (case storeBlock I ser (smDb (v_sm v)) block of
        (Panic p, d) \<Rightarrow> Some (Panic p, v\<lparr>v_sm := (v_sm v)\<lparr>smDb := d\<rparr>\<rparr>)
      | (_, d) \<Rightarrow>
          validateLoop I H ser R client block (Transitions block) 0 (v\<lparr>v_sm := (v_sm v)\<lparr>smDb := d\<rparr>\<rparr>))"

text \<open>
  The watch loop over what arrives on its channels; it returns on a block that does not
  parse and on a subscription error, and is still running when the list ends.
\<close>

datatype blockEvent = RollupBlockCommitted int "bytes list" | SubscriptionErr error

fun watchRollupBlockCommitted ::
  "('d, 't, 'b) DB \<Rightarrow> hasher \<Rightarrow> serializer \<Rightarrow> 'c rollupChain \<Rightarrow> ethclient option \<Rightarrow> ('d, 'c) validator \<Rightarrow>
     blockEvent list \<Rightarrow> (unit outcome \<times> ('d, 'c) validator) option" where
  "watchRollupBlockCommitted I H ser R client v [] = Some (Ok (), v)"
| "watchRollupBlockCommitted I H ser R client v (SubscriptionErr e # events) = Some (Err e, v)"
| "watchRollupBlockCommitted I H ser R client v (RollupBlockCommitted blockNumber transitions # events) =
     (case DeserializeRollupBlockFromFields ser (bigUint64 blockNumber) transitions of
        Err e \<Rightarrow> Some (Err e, v)
      | Panic p \<Rightarrow> Some (Panic p, v)
      | Ok rollupBlock \<Rightarrow>
          (case validateBlock I H ser R client v rollupBlock of
             None \<Rightarrow> None
           | Some (Panic p, v') \<Rightarrow> Some (Panic p, v')
           | Some (_, v') \<Rightarrow> watchRollupBlockCommitted I H ser R client v' events))"

end
