(* ===== verification/Block_Submitter.thy ===== *)
theory Block_Submitter
  imports Validator
begin

text \<open>
  \<^verbatim>\<open>aggregator/block_submitter.go\<close>: proposing a block on the sidechain, signing another
  aggregator's proposal, committing an agreed block on the mainchain. The two chains behind
  the contract bindings are states of their own; the transactor options are shared pointers
  whose gas fields the calls overwrite, so they are part of the state too.
\<close>

record 's blockCommittee =
  CurrentProposer :: "'s \<Rightarrow> bytes outcome"
  ProposeBlock :: "'s \<Rightarrow> transactOpts \<Rightarrow> int \<Rightarrow> bytes list \<Rightarrow> bytes \<Rightarrow> ethTx outcome \<times> 's"
  SignBlock :: "'s \<Rightarrow> transactOpts \<Rightarrow> bytes \<Rightarrow> bytes \<Rightarrow> ethTx outcome \<times> 's"

record ('c, 's) submitter =
  mainchainAuth :: transactOpts
  sidechainAuth :: transactOpts
  mainchain :: 'c
  sidechain :: 's

definition NewBlockSubmitter :: "transactOpts \<Rightarrow> transactOpts \<Rightarrow> 'c \<Rightarrow> 's \<Rightarrow> ('c, 's) submitter" where
  "NewBlockSubmitter mauth sauth mc sc =
     \<lparr>mainchainAuth = mauth, sidechainAuth = sauth, mainchain = mc, sidechain = sc\<rparr>"

text \<open>
  The bindings, the clients, the key and the cryptography of a node; the fields of the struct
  that never change.
\<close>

record ('c, 's, 'pk, 'sk) chainEnv =
  rollupContract :: "'c rollupChain"
  committee :: "'s blockCommittee"
  mainchainClient :: "ethclient option"
  sidechainClient :: "ethclient option"
  cryptography :: "('pk, 'sk) crypto"
  sidechainKey :: 'sk

section \<open>Proposing and signing\<close>

text \<open>The error of \<^verbatim>\<open>SignData\<close> is overwritten before it is looked at.\<close>

definition proposeBlock ::
  "serializer \<Rightarrow> ('c, 's, 'pk, 'sk) chainEnv \<Rightarrow> ('c, 's) submitter \<Rightarrow> RollupBlock \<Rightarrow>
     (bool outcome \<times> ('c, 's) submitter) option" where
  "proposeBlock ser E bs pendingBlock =
     (case CurrentProposer (committee E) (sidechain bs) of
        Err e \<Rightarrow> Some (Err e, bs)
      | Panic p \<Rightarrow> Some (Panic p, bs)
      | Ok proposerAddress \<Rightarrow>
          if From (sidechainAuth bs) \<noteq> proposerAddress then Some (Ok False, bs)
          else (case SerializeRollupBlock ser pendingBlock of
            Err e \<Rightarrow> Some (Err e, bs)
          | Panic p \<Rightarrow> Some (Panic p, bs)
          | Ok (serializedTransitions, encodedBlock) \<Rightarrow>
              (case SignData (cryptography E) (sidechainKey E) encodedBlock of
                 Panic p \<Rightarrow> Some (Panic p, bs)
               | signResult \<Rightarrow>
                   let signature = (case signResult of Ok sig \<Rightarrow> sig | _ \<Rightarrow> []);
                       auth = (sidechainAuth bs)\<lparr>GasLimit := 8000000\<rparr>;
                       bs = bs\<lparr>sidechainAuth := auth\<rparr>
                   in case ProposeBlock (committee E) (sidechain bs) auth (uint (BlockNumber pendingBlock))
                        serializedTransitions signature of
                        (Err e, sc) \<Rightarrow> Some (Err e, bs\<lparr>sidechain := sc\<rparr>)
                      | (Panic p, sc) \<Rightarrow> Some (Panic p, bs\<lparr>sidechain := sc\<rparr>)
                      | (Ok tx, sc) \<Rightarrow>
                          map_option (\<lambda>r. (bindO r (\<lambda>_. Ok True), bs\<lparr>sidechain := sc\<rparr>))
                            (minedOr (sidechainClient E) tx ''Failed to propose block''))))"

definition submitSignature ::
  "serializer \<Rightarrow> ('c, 's, 'pk, 'sk) chainEnv \<Rightarrow> ('c, 's) submitter \<Rightarrow> int \<Rightarrow> bytes list \<Rightarrow>
     (unit outcome \<times> ('c, 's) submitter) option" where
  "submitSignature ser E bs blockNumber transitions =
     (case CurrentProposer (committee E) (sidechain bs) of
        Err e \<Rightarrow> Some (Err e, bs)
      | Panic p \<Rightarrow> Some (Panic p, bs)
      | Ok proposerAddress \<Rightarrow>
          if From (mainchainAuth bs) = proposerAddress then Some (Ok (), bs)
          else (case bindO (EncodeBlock ser blockNumber transitions)
                       (SignData (cryptography E) (sidechainKey E)) of
            Err e \<Rightarrow> Some (Err e, bs)
          | Panic p \<Rightarrow> Some (Panic p, bs)
          | Ok signature \<Rightarrow>
              let auth = (sidechainAuth bs)\<lparr>GasLimit := 8000000\<rparr>;
                  bs = bs\<lparr>sidechainAuth := auth\<rparr>
              in case SignBlock (committee E) (sidechain bs) auth (From auth) signature of
                   (Err e, sc) \<Rightarrow> Some (Err e, bs\<lparr>sidechain := sc\<rparr>)
                 | (Panic p, sc) \<Rightarrow> Some (Panic p, bs\<lparr>sidechain := sc\<rparr>)
                 | (Ok tx, sc) \<Rightarrow>
                     map_option (\<lambda>r. (bindO r (\<lambda>_. Ok ()), bs\<lparr>sidechain := sc\<rparr>))
                       (minedOr (sidechainClient E) tx ''Failed to submit block proposal signature'')))"

section \<open>Committing\<close>

text \<open>
  The tree built after a commit, for the log. Its height is the size of block 0, and the
  errors of the constructor and of the updates are dropped: a missing tree is a nil pointer.
\<close>

fun updateAll :: "hasher \<Rightarrow> bytes list \<Rightarrow> nat \<Rightarrow> smt \<Rightarrow> memdb \<Rightarrow> (smt \<times> memdb) outcome" where
  "updateAll H [] i tree d = Ok (tree, d)"
| "updateAll H (encodedTransition # transitions) i tree d =
     (case Update mem_iface H tree d (bigBytes (int i)) encodedTransition of
        (Panic p, _, _) \<Rightarrow> Panic p
      | (_, tree', d') \<Rightarrow> updateAll H transitions (Suc i) tree' d')"

definition localBlockRoot :: "hasher \<Rightarrow> (bytes \<times> int) outcome \<Rightarrow> bytes list \<Rightarrow> bytes outcome" where
  "localBlockRoot H block transitions =
     (case block of
        Err _ \<Rightarrow> Panic NilDereference
      | Panic p \<Rightarrow> Panic p
      | Ok (rootHash, blockSize) \<Rightarrow>
          (case NewSparseMerkleTree mem_iface H NewDB (Some NamespaceRollupBlockTrie) None
                  (goInt (bigUint64 blockSize)) False of
             (Err _, _) \<Rightarrow> Panic NilDereference
           | (Panic p, _) \<Rightarrow> Panic p
           | (Ok tree, d) \<Rightarrow> bindO (updateAll H transitions 0 tree d) (\<lambda>(tree, d). Ok (root tree))))"

definition commitBlock ::
  "hasher \<Rightarrow> ('c, 's, 'pk, 'sk) chainEnv \<Rightarrow> ('c, 's) submitter \<Rightarrow> int \<Rightarrow> bytes list \<Rightarrow> bytes list \<Rightarrow>
     (unit outcome \<times> ('c, 's) submitter) option" where
  "commitBlock H E bs blockNumber transitions signatures =
     (case CommitterAddress (rollupContract E) (mainchain bs) of
        Err e \<Rightarrow> Some (Err e, bs)
      | Panic p \<Rightarrow> Some (Panic p, bs)
      | Ok committerAddress \<Rightarrow>
          if From (mainchainAuth bs) \<noteq> committerAddress then Some (Ok (), bs)
          else
            let auth = (mainchainAuth bs)\<lparr>GasLimit := 2000000, GasPrice := Some (10 ^ 10)\<rparr>;
                bs = bs\<lparr>mainchainAuth := auth\<rparr>
            in case CommitBlock (rollupContract E) (mainchain bs) auth blockNumber transitions signatures of
                 (Err e, mc) \<Rightarrow> Some (Err e, bs\<lparr>mainchain := mc\<rparr>)
               | (Panic p, mc) \<Rightarrow> Some (Panic p, bs\<lparr>mainchain := mc\<rparr>)
               | (Ok tx, mc) \<Rightarrow>
                   map_option (\<lambda>r. (bindO r (\<lambda>_. bindO (localBlockRoot H (Blocks (rollupContract E) mc 0) transitions)
                        (\<lambda>_. Ok ())), bs\<lparr>mainchain := mc\<rparr>))
                     (minedOr (mainchainClient E) tx ''Failed to commit block''))"

section \<open>The watch loops\<close>

datatype committeeEvent =
    BlockProposed int "bytes list"
  | BlockProposedErr error
  | BlockConsensusReached int "bytes list" "bytes list"
  | BlockConsensusReachedErr error

text \<open>Errors of the handlers and of the subscriptions are dropped; each event runs under the lock.\<close>

fun watchBlockCommittee ::
  "hasher \<Rightarrow> serializer \<Rightarrow> ('c, 's, 'pk, 'sk) chainEnv \<Rightarrow> ('c, 's) submitter \<Rightarrow> committeeEvent list \<Rightarrow>
     (unit outcome \<times> ('c, 's) submitter) option" where
  "watchBlockCommittee H ser E bs [] = Some (Ok (), bs)"
| "watchBlockCommittee H ser E bs (event # events) =
     (case (case event of
              BlockProposed blockNumber transitions \<Rightarrow> submitSignature ser E bs blockNumber transitions
            | BlockConsensusReached blockNumber transitions signatures \<Rightarrow>
                commitBlock H E bs blockNumber transitions signatures
            | _ \<Rightarrow> Some (Ok (), bs)) of
        None \<Rightarrow> None
      | Some (Panic p, bs') \<Rightarrow> Some (Panic p, bs')
      | Some (_, bs') \<Rightarrow> watchBlockCommittee H ser E bs' events)"

text \<open>\<^verbatim>\<open>watchRollupBlockCommitted\<close> of the submitter stores committed blocks.\<close>

fun submitterWatchCommitted ::
  "('d, 't, 'b) DB \<Rightarrow> serializer \<Rightarrow> 'd \<Rightarrow> blockEvent list \<Rightarrow> unit outcome \<times> 'd" where
  "submitterWatchCommitted I ser d [] = (Ok (), d)"
| "submitterWatchCommitted I ser d (SubscriptionErr e # events) = (Err e, d)"
| "submitterWatchCommitted I ser d (RollupBlockCommitted blockNumber transitions # events) =
     (case DeserializeRollupBlockFromFields ser (bigUint64 blockNumber) transitions of
        Err e \<Rightarrow> (Err e, d)
      | Panic p \<Rightarrow> (Panic p, d)
      | Ok block \<Rightarrow>
          (case storeBlock I ser d block of
             (Panic p, d') \<Rightarrow> (Panic p, d')
           | (_, d') \<Rightarrow> submitterWatchCommitted I ser d' events))"

end
