(* ===== verification/Aggregator.thy ===== *)
theory Aggregator
  imports Block_Submitter
begin

text \<open>
  \<^verbatim>\<open>aggregator/transaction_generator.go\<close> and \<^verbatim>\<open>aggregator/aggregator.go\<close>: contract
  events become database entries and transactions on a bounded channel; the aggregator
  applies them one by one, turns each state update into a transition of the pending block and
  proposes the block when it is full.
\<close>

section \<open>The transaction generator\<close>

definition txQueueSize :: nat where
  "txQueueSize = 10"

text \<open>\<^verbatim>\<open>if err != nil { log.Err(err).Send() }\<close>.\<close>

definition logged :: "unit outcome \<times> 's \<Rightarrow> unit outcome \<times> 's" where
  "logged r = (case r of (Err e, s) \<Rightarrow> (Ok (), s) | _ \<Rightarrow> r)"

text \<open>A write into the aggregator's or the validator's database, the two databases being the state.\<close>

definition setAggregator ::
  "('d, 't, 'b) DB \<Rightarrow> bytes \<Rightarrow> bytes \<Rightarrow> bytes \<Rightarrow> 'd \<times> 'd \<Rightarrow> unit outcome \<times> 'd \<times> 'd" where
  "setAggregator I ns key value dbs = (case db_Set I (fst dbs) (Some ns) key value of (r, d) \<Rightarrow> (r, d, snd dbs))"

definition setValidator ::
  "('d, 't, 'b) DB \<Rightarrow> bytes \<Rightarrow> bytes \<Rightarrow> bytes \<Rightarrow> 'd \<times> 'd \<Rightarrow> unit outcome \<times> 'd \<times> 'd" where
  "setValidator I ns key value dbs = (case db_Set I (snd dbs) (Some ns) key value of (r, d) \<Rightarrow> (r, fst dbs, d))"

definition onTokenRegistered ::
  "('d, 't, 'b) DB \<Rightarrow> bytes \<Rightarrow> int \<Rightarrow> 'd \<times> 'd \<Rightarrow> unit outcome \<times> 'd \<times> 'd" where
  "onTokenRegistered I tokenAddress tokenIndex dbs =
     thenS (logged (setAggregator I NamespaceTokenAddressToTokenIndex tokenAddress (bigBytes tokenIndex) dbs)) (\<lambda>_ dbs.
     thenS (logged (setValidator I NamespaceTokenAddressToTokenIndex tokenAddress (bigBytes tokenIndex) dbs)) (\<lambda>_ dbs.
     thenS (logged (setAggregator I NamespaceTokenIndexToTokenAddress (bigBytes tokenIndex) tokenAddress dbs)) (\<lambda>_ dbs.
     logged (setValidator I NamespaceTokenIndexToTokenAddress (bigBytes tokenIndex) tokenAddress dbs))))"

datatype registryEvent = TokenRegistered bytes int | TokenRegistryErr error

fun watchTokenRegistry ::
  "('d, 't, 'b) DB \<Rightarrow> 'd \<times> 'd \<Rightarrow> registryEvent list \<Rightarrow> unit outcome \<times> 'd \<times> 'd" where
  "watchTokenRegistry I dbs [] = (Ok (), dbs)"
| "watchTokenRegistry I dbs (TokenRegistryErr e # events) = (Err e, dbs)"
| "watchTokenRegistry I dbs (TokenRegistered tokenAddress tokenIndex # events) =
     thenS (onTokenRegistered I tokenAddress tokenIndex dbs) (\<lambda>_ dbs. watchTokenRegistry I dbs events)"

text \<open>
  A mapped token is stored in both databases and gets a watcher of its own; the list holds
  the contracts that are watched. Binding the contract is a library call.
\<close>

datatype mapperEvent = TokenMapped (mainchainToken: bytes) (sidechainToken: bytes) | TokenMapperErr error

fun watchTokenMapper ::
  "('d, 't, 'b) DB \<Rightarrow> (bytes \<Rightarrow> 'k outcome) \<Rightarrow> 'd \<times> 'd \<Rightarrow> 'k list \<Rightarrow> mapperEvent list \<Rightarrow>
     'k list outcome \<times> 'd \<times> 'd" where
  "watchTokenMapper I newERC20 dbs watched [] = (Ok watched, dbs)"
| "watchTokenMapper I newERC20 dbs watched (TokenMapperErr e # events) = (Err e, dbs)"
| "watchTokenMapper I newERC20 dbs watched (TokenMapped mt st # events) =
     thenS (logged (setAggregator I NamespaceMainchainTokenAddressToSidechainTokenAddress mt st dbs)) (\<lambda>_ dbs.
     thenS (logged (setValidator I NamespaceMainchainTokenAddressToSidechainTokenAddress mt st dbs)) (\<lambda>_ dbs.
     thenS (newERC20 st, dbs) (\<lambda>erc20 dbs.
     watchTokenMapper I newERC20 dbs (watched @ [erc20]) events)))"

section \<open>The aggregator\<close>

record ('d, 'c, 's) aggregator =
  stateMachine :: "'d sm"
  pendingBlock :: RollupBlock
  blockSubmitter :: "('c, 's) submitter"

text \<open>The transition an applied transaction becomes; the database is the state machine's.\<close>

definition pendingTransition ::
  "('d, 't, 'b) DB \<Rightarrow> bool \<Rightarrow> 'd \<Rightarrow> StateUpdate option \<Rightarrow> Transaction \<Rightarrow> Transition outcome" where
  "pendingTransition I fraudTransfer d stateUpdate tx =
     (case stateUpdate of
        None \<Rightarrow> Panic NilDereference
      | Some su \<Rightarrow>
          let tokenIndexOfTx = bindO (db_Get I d (Some NamespaceTokenAddressToTokenIndex) (tx_Token tx)) (\<lambda>r.
                case r of None \<Rightarrow> Err ErrInvalidToken
                | Some tokenIndex \<Rightarrow> Ok (int (setBytes tokenIndex)))
          in (case GetTransactionType tx of
            TransactionTypeDeposit \<Rightarrow>
              bindO (idx (su_Entries su) 0) (\<lambda>entry.
              bindO tokenIndexOfTx (\<lambda>tokenIndex.
              Ok (if ent_NewAccount entry then
                    CreateAndDepositTransition (transitionCode TransitionTypeCreateAndDeposit) (su_StateRoot su)
                      (ent_SlotIndex entry) (Account (ent_AccountInfo entry)) tokenIndex (tx_Amount tx)
                      (tx_Signature tx)
                  else
                    DepositTransition (transitionCode TransitionTypeDeposit) (su_StateRoot su)
                      (ent_SlotIndex entry) tokenIndex (tx_Amount tx) (tx_Signature tx))))
          | TransactionTypeWithdraw \<Rightarrow>
              bindO (idx (su_Entries su) 0) (\<lambda>entry.
              bindO tokenIndexOfTx (\<lambda>tokenIndex.
              Ok (WithdrawTransition (transitionCode TransitionTypeWithdraw) (su_StateRoot su)
                    (ent_SlotIndex entry) tokenIndex (tx_Amount tx) (tx_Nonce tx) (tx_Signature tx))))
          | TransactionTypeTransfer \<Rightarrow>
              bindO tokenIndexOfTx (\<lambda>tokenIndex.
              let stateRoot = (if fraudTransfer then replicate 32 0 else su_StateRoot su)
              in bindO (idx (su_Entries su) 1) (\<lambda>recipientEntry.
              bindO (idx (su_Entries su) 0) (\<lambda>senderEntry.
              Ok (if ent_NewAccount recipientEntry then
                    CreateAndTransferTransition (transitionCode TransitionTypeCreateAndTransfer) stateRoot
                      (ent_SlotIndex senderEntry) (ent_SlotIndex recipientEntry)
                      (Account (ent_AccountInfo recipientEntry)) tokenIndex (tx_Amount tx) (tx_Nonce tx)
                      (tx_Signature tx)
                  else
                    TransferTransition (transitionCode TransitionTypeTransfer) stateRoot
                      (ent_SlotIndex senderEntry) (ent_SlotIndex recipientEntry) tokenIndex (tx_Amount tx)
                      (tx_Nonce tx) (tx_Signature tx)))))))"

definition addToPendingBlock ::
  "('d, 't, 'b) DB \<Rightarrow> bool \<Rightarrow> ('d, 'c, 's) aggregator \<Rightarrow> StateUpdate option \<Rightarrow> Transaction \<Rightarrow>
     unit outcome \<times> ('d, 'c, 's) aggregator" where
  "addToPendingBlock I fraudTransfer a stateUpdate tx =
     thenS (pendingTransition I fraudTransfer (smDb (stateMachine a)) stateUpdate tx, a) (\<lambda>transition a.
     (Ok (), a\<lparr>pendingBlock := (pendingBlock a)\<lparr>Transitions := Transitions (pendingBlock a) @ [transition]\<rparr>\<rparr>))"

text \<open>
  \<^verbatim>\<open>applyTransaction\<close>: a proposal of another aggregator's turn returns \<^verbatim>\<open>false, nil\<close> and
  the pending block starts anew; after an error it keeps growing.
\<close>

definition applyTransaction ::
  "('d, 't, 'b) DB \<Rightarrow> hasher \<Rightarrow> serializer \<Rightarrow> ('c, 's, 'pk, 'sk) chainEnv \<Rightarrow> int \<Rightarrow> bool \<Rightarrow>
     ('d, 'c, 's) aggregator \<Rightarrow> Transaction \<Rightarrow> (unit outcome \<times> ('d, 'c, 's) aggregator) option" where
  "applyTransaction I H ser E numTransitionsInBlock fraudTransfer a tx =
     (case ApplyTransaction I H ser (stateMachine a) tx of
        (Err e, sm) \<Rightarrow> Some (Err e, a\<lparr>stateMachine := sm\<rparr>)
      | (Panic p, sm) \<Rightarrow> Some (Panic p, a\<lparr>stateMachine := sm\<rparr>)
      | (Ok stateUpdate, sm) \<Rightarrow>
          (case addToPendingBlock I fraudTransfer (a\<lparr>stateMachine := sm\<rparr>) stateUpdate tx of
             (Err e, a) \<Rightarrow> Some (Err e, a)
           | (Panic p, a) \<Rightarrow> Some (Panic p, a)
           | (Ok _, a) \<Rightarrow>
               if int (length (Transitions (pendingBlock a))) \<ge> numTransitionsInBlock then
                 (case proposeBlock ser E (blockSubmitter a) (pendingBlock a) of
                    None \<Rightarrow> None
                  | Some (Err proposeErr, bs) \<Rightarrow> Some (Err proposeErr, a\<lparr>blockSubmitter := bs\<rparr>)
                  | Some (Panic p, bs) \<Rightarrow> Some (Panic p, a\<lparr>blockSubmitter := bs\<rparr>)
                  | Some (Ok _, bs) \<Rightarrow>
                      Some (Ok (), a\<lparr>blockSubmitter := bs,
                        pendingBlock := NewRollupBlock (BlockNumber (pendingBlock a) + 1)\<rparr>))
               else Some (Ok (), a)))"

text \<open>
  \<^verbatim>\<open>processTransactions\<close> over what it receives from the queue. Errors are ignored; a panic
  ends the process.
\<close>

fun processTransactions ::
  "('d, 't, 'b) DB \<Rightarrow> hasher \<Rightarrow> serializer \<Rightarrow> ('c, 's, 'pk, 'sk) chainEnv \<Rightarrow> int \<Rightarrow> bool \<Rightarrow>
     ('d, 'c, 's) aggregator \<Rightarrow> Transaction list \<Rightarrow> (unit outcome \<times> ('d, 'c, 's) aggregator) option" where
  "processTransactions I H ser E num fraud a [] = Some (Ok (), a)"
| "processTransactions I H ser E num fraud a (tx # txs) =
     (case applyTransaction I H ser E num fraud a tx of
        None \<Rightarrow> None
      | Some (Panic p, a') \<Rightarrow> Some (Panic p, a')
      | Some (_, a') \<Rightarrow> processTransactions I H ser E num fraud a' txs)"

lemma processTransactions_append:
  assumes "processTransactions I H ser E num fraud a txs = Some (Ok (), a')"
  shows "processTransactions I H ser E num fraud a (txs @ txs') = processTransactions I H ser E num fraud a' txs'"
  using assms
  by (induction txs arbitrary: a) (auto split: option.splits prod.splits outcome.splits)

end
