(* ===== verification/Replay.thy ===== *)
theory Replay
  imports Root_Determinism Aggregator
begin

text \<open>
  Aggregator and validator together: a transition the aggregator puts into its block is read
  back by a validator in the same state as the transaction it came from, and its replay
  reaches the aggregator's root. An honest transition raises no fraud proof, one with a wrong
  root does.
\<close>

section \<open>Token tables\<close>

text \<open>
  What \<open>onTokenRegistered\<close> leaves behind for a token: its index under the address at the
  aggregator, and both directions at the validator.
\<close>

definition token_tables :: "(bytes \<rightharpoonup> bytes) \<Rightarrow> (bytes \<rightharpoonup> bytes) \<Rightarrow> bytes \<Rightarrow> nat \<Rightarrow> bool" where
  "token_tables ma mv tok i \<longleftrightarrow>
     length tok = 20 \<and> tokenAt ma tok = Some (natBytes i) \<and> tokenAt mv tok = Some (natBytes i) \<and>
     mv (dbKey (Some NamespaceTokenIndexToTokenAddress) (natBytes i)) = Some tok"

lemma BytesToAddress_20 [simp]: "length b = 20 \<Longrightarrow> BytesToAddress b = b"
  by (simp add: BytesToAddress_def)

lemma token_tables_index:
  "token_tables ma mv tok i \<Longrightarrow> tokenIndexOf ma tok = Ok (bigUint64 (int i)) \<and> tokenIndexOf mv tok = tokenIndexOf ma tok"
  by (simp add: token_tables_def tokenIndexOf_def)

lemma ledgerApply_token:
  "T (tx_Token tx) = T' (tx_Token tx) \<Longrightarrow> ledgerApply T L tx = ledgerApply T' L tx"
  by (simp add: ledgerApply_def)

lemma slotsAfter_token:
  "T (tx_Token tx) = T' (tx_Token tx) \<Longrightarrow> slotsAfter T L tx s = slotsAfter T' L tx s"
  by (simp add: slotsAfter_def)

section \<open>The accounts of an applied transaction\<close>

text \<open>Accounts that exist keep their slots.\<close>

lemma slotsAfter_old:
  "L a \<noteq> None \<Longrightarrow> snd (slotsAfter T L tx s) a = snd s a"
  by (auto simp: slotsAfter_def openSlot_def split: outcome.splits TransactionType.splits)

text \<open>Which accounts a successful transaction returns, and which of them existed before.\<close>

lemma ledgerDeposit_Ok:
  assumes "fst (ledgerDeposit ti L tx) = Ok us" and "\<And>a info. L a = Some info \<Longrightarrow> Account info = a"
  shows "\<exists>u. us = [u] \<and> Account (upd_Info u) = tx_Account tx \<and> (upd_NewAccount u \<longleftrightarrow> L (tx_Account tx) = None)"
  using assms by (auto simp: ledgerDeposit_def ledgerOpen_def Let_def split: option.splits if_splits)

lemma ledgerWithdraw_Ok:
  assumes "fst (ledgerWithdraw ti L tx) = Ok us" and "\<And>a info. L a = Some info \<Longrightarrow> Account info = a"
  shows "\<exists>u. us = [u] \<and> Account (upd_Info u) = tx_Account tx \<and> L (tx_Account tx) \<noteq> None"
  using assms by (auto simp: ledgerWithdraw_def Let_def split: option.splits if_splits)

lemma ledgerTransfer_Ok:
  assumes "fst (ledgerTransfer ti L tx) = Ok us" and "\<And>a info. L a = Some info \<Longrightarrow> Account info = a"
    and "tx_Sender tx \<noteq> tx_Recipient tx"
  shows "\<exists>u v. us = [u, v] \<and> Account (upd_Info u) = tx_Sender tx \<and> Account (upd_Info v) = tx_Recipient tx \<and>
    L (tx_Sender tx) \<noteq> None \<and> (upd_NewAccount v \<longleftrightarrow> L (tx_Recipient tx) = None)"
  using assms
  by (auto simp: ledgerTransfer_def ledgerOpen_def Let_def split: option.splits if_splits prod.splits)

text \<open>A transfer to oneself is left out: a validator cannot read one to a new account back.\<close>

definition distinctParties :: "Transaction \<Rightarrow> bool" where
  "distinctParties tx \<longleftrightarrow>
     (GetTransactionType tx = TransactionTypeTransfer \<longrightarrow> tx_Sender tx \<noteq> tx_Recipient tx)"

definition isTransfer :: "Transaction \<Rightarrow> bool" where
  "isTransfer tx \<longleftrightarrow> GetTransactionType tx = TransactionTypeTransfer"

text \<open>The snapshots of a fraud proof, checked against the root they were taken under.\<close>

definition snapshots_ok :: "serializer \<Rightarrow> hasher \<Rightarrow> 'd sm \<Rightarrow> StateSnapshot option list \<Rightarrow> bool" where
  "snapshots_ok ser H sm snaps \<longleftrightarrow>
     (\<forall>s. Some s \<in> set snaps \<longrightarrow> proves ser H (height (smTree sm)) (root (smTree sm)) (snap_SlotIndex s)
        (snap_InclusionProof s) (snap_AccountInfo s))"

context kv_db
begin

lemma snapshot_at:
  assumes H: "hasher_ok H" and size: "Size H \<le> 32" and ser: "serializer_ok ser" and st: "stands ser H sm sl L"
    and L: "L a \<noteq> None" and k: "snd sl a = Some k"
  shows "\<exists>snap. GetStateSnapshot I H ser sm (bigBytes (int (setBytes k))) = Ok snap \<and>
    L a = Some (snap_AccountInfo snap) \<and> Account (snap_AccountInfo snap) = a \<and>
    proves ser H (height (smTree sm)) (root (smTree sm)) (snap_SlotIndex snap) (snap_InclusionProof snap)
      (snap_AccountInfo snap)"
proof -
  obtain info where info: "L a = Some info" using L by blast
  obtain t where wf: "sm_wf ser H (view (smDb sm)) (smTree sm) (fst sl) t" and K: "snd sl = accKey (view (smDb sm))"
    using implementsE [OF st [unfolded stands_def]] by metis
  obtain j where j: "k = natBytes j" using sm_wfD(4) [OF wf] k K by metis
  have "bigBytes (int (setBytes k)) = k" by (simp add: j bigBytes_int)
  moreover have "accKey (view (smDb sm)) a = Some k" using k K by simp
  ultimately show ?thesis
    using GetStateSnapshot_account [OF H size ser st info] implements_Some(3) [OF st [unfolded stands_def] info] info
    by (auto simp: Get accKey_def GetStateRoot_def)
qed

lemma getToken_tables:
  "token_tables ma (view (smDb sm)) tok i \<Longrightarrow> getToken I sm (int i) = Ok tok"
  by (simp add: getToken_def token_tables_def Get bigBytes_int)

text \<open>Reading the pending transition back gives the transaction, and snapshots with good proofs.\<close>

lemma pending_read_back:
  assumes H: "hasher_ok H" and size: "Size H \<le> 32" and ser: "serializer_ok ser"
    and sv: "stands ser H smv sl L"
    and tok: "token_tables ma (view (smDb smv)) (tx_Token tx) i"
    and db: "view da (dbKey (Some NamespaceTokenAddressToTokenIndex) (tx_Token tx)) = Some (natBytes i)"
    and A: "fst (ledgerApply (tokenIndexOf ma) L tx) = Ok us" and dp: "distinctParties tx"
    and es: "list_all2 (\<lambda>u e. ent_AccountInfo e = upd_Info u \<and> ent_NewAccount e = upd_NewAccount u \<and>
        (\<exists>k. snd (slotsAfter (tokenIndexOf ma) L tx sl) (Account (upd_Info u)) = Some k \<and>
          ent_SlotIndex e = int (setBytes k))) us (su_Entries su)"
    and pend: "pendingTransition I fraud da (Some su) tx = Ok t"
  shows "\<exists>snaps. getInputStateSnapshots I H ser smv t = Ok snaps \<and> snapshots_ok ser H smv snaps \<and>
    getTransactionFromTransitionAndSnapshots I smv t snaps = Ok tx"
proof -
  have acc: "\<And>a info. L a = Some info \<Longrightarrow> Account info = a"
    using implements_Some(3) [OF sv [unfolded stands_def]] .
  have T: "tokenIndexOf ma (tx_Token tx) = Ok (bigUint64 (int i))" using token_tables_index [OF tok] by simp
  have gt: "getToken I smv (int i) = Ok (tx_Token tx)" by (rule getToken_tables [OF tok])
  have snap: "\<exists>snap. GetStateSnapshot I H ser smv (bigBytes (int (setBytes k))) = Ok snap \<and>
      Account (snap_AccountInfo snap) = a \<and>
      proves ser H (height (smTree smv)) (root (smTree smv)) (snap_SlotIndex snap) (snap_InclusionProof snap)
        (snap_AccountInfo snap)"
    if "L a \<noteq> None" "snd (slotsAfter (tokenIndexOf ma) L tx sl) a = Some k" for a k
    using snapshot_at [OF H size ser sv that(1), of k] slotsAfter_old [of L a "tokenIndexOf ma" tx sl] that by auto
  show ?thesis
  proof (cases tx)
    case (DepositTransaction a token amount sig)
    then obtain u e k where u: "us = [u]" "Account (upd_Info u) = a" "upd_NewAccount u \<longleftrightarrow> L a = None"
      "su_Entries su = [e]" "ent_AccountInfo e = upd_Info u" "ent_NewAccount e = upd_NewAccount u"
      "snd (slotsAfter (tokenIndexOf ma) L tx sl) a = Some k" "ent_SlotIndex e = int (setBytes k)"
      using A T es ledgerDeposit_Ok [of "bigUint64 (int i)" L tx us] acc
      by (auto simp: ledgerApply_def list_all2_Cons1)
    show ?thesis
    proof (cases "L a = None")
      case True
      then show ?thesis
        using pend u DepositTransaction gt db
        by (auto simp: pendingTransition_def Get getInputStateSnapshots_def snapshots_ok_def
            getTransactionFromTransitionAndSnapshots_def)
    next
      case False
      then show ?thesis
        using pend u DepositTransaction gt db snap [OF False u(7)]
        by (auto simp: pendingTransition_def Get getInputStateSnapshots_def snapshots_ok_def
            getTransactionFromTransitionAndSnapshots_def snapshotAccount_def)
    qed
  next
    case (WithdrawTransaction a token amount nonce sig)
    then obtain u e k where u: "us = [u]" "Account (upd_Info u) = a" "L a \<noteq> None"
      "su_Entries su = [e]" "ent_AccountInfo e = upd_Info u"
      "snd (slotsAfter (tokenIndexOf ma) L tx sl) a = Some k" "ent_SlotIndex e = int (setBytes k)"
      using A T es ledgerWithdraw_Ok [of "bigUint64 (int i)" L tx us] acc
      by (auto simp: ledgerApply_def list_all2_Cons1)
    then show ?thesis
      using pend WithdrawTransaction gt db snap [OF u(3,6)]
      by (auto simp: pendingTransition_def Get getInputStateSnapshots_def snapshots_ok_def
          getTransactionFromTransitionAndSnapshots_def snapshotAccount_def)
  next
    case (TransferTransaction s r token amount nonce sig)
    then obtain u v e f k k' where u: "us = [u, v]" "Account (upd_Info u) = s" "Account (upd_Info v) = r" "L s \<noteq> None"
      "upd_NewAccount v \<longleftrightarrow> L r = None" "su_Entries su = [e, f]" "ent_AccountInfo f = upd_Info v"
      "ent_NewAccount f = upd_NewAccount v"
      "snd (slotsAfter (tokenIndexOf ma) L tx sl) s = Some k" "ent_SlotIndex e = int (setBytes k)"
      "snd (slotsAfter (tokenIndexOf ma) L tx sl) r = Some k'" "ent_SlotIndex f = int (setBytes k')"
      using A T es dp ledgerTransfer_Ok [of "bigUint64 (int i)" L tx us] acc
      by (auto simp: ledgerApply_def list_all2_Cons1 distinctParties_def)
    show ?thesis
    proof (cases "L r = None")
      case True
      then show ?thesis
        using pend u TransferTransaction gt db snap [OF u(4,9)]
        by (auto simp: pendingTransition_def Get getInputStateSnapshots_def snapshots_ok_def Let_def
            getTransactionFromTransitionAndSnapshots_def snapshotAccount_def)
    next
      case False
      then show ?thesis
        using pend u TransferTransaction gt db snap [OF u(4,9)] snap [OF False u(11)]
        by (auto simp: pendingTransition_def Get getInputStateSnapshots_def snapshots_ok_def Let_def
            getTransactionFromTransitionAndSnapshots_def snapshotAccount_def)
    qed
  qed
qed

text \<open>The pending transition of an applied transaction exists and carries its root.\<close>

lemma pendingTransition_ok:
  assumes A: "fst (ledgerApply T L tx) = Ok us" and acc: "\<And>a info. L a = Some info \<Longrightarrow> Account info = a"
    and T: "T (tx_Token tx) = Ok ti" and dp: "distinctParties tx" and es: "length (su_Entries su) = length us"
    and db: "view d (dbKey (Some NamespaceTokenAddressToTokenIndex) (tx_Token tx)) = Some tokenBytes"
  shows "\<exists>t. pendingTransition I fraud d (Some su) tx = Ok t \<and>
    tr_StateRoot t = (if fraud \<and> isTransfer tx then replicate 32 0 else su_StateRoot su)"
proof (cases tx)
  case (DepositTransaction a token amount sig)
  then have "length us = 1" using A T ledgerDeposit_Ok [of ti L tx us] acc by (auto simp: ledgerApply_def)
  then show ?thesis
    using DepositTransaction db es by (auto simp: pendingTransition_def Get isTransfer_def)
next
  case (WithdrawTransaction a token amount nonce sig)
  then have "length us = 1" using A T ledgerWithdraw_Ok [of ti L tx us] acc by (auto simp: ledgerApply_def)
  then show ?thesis
    using WithdrawTransaction db es by (auto simp: pendingTransition_def Get isTransfer_def)
next
  case (TransferTransaction s r token amount nonce sig)
  then have "length us = 2"
    using A T ledgerTransfer_Ok [of ti L tx us] acc dp by (auto simp: ledgerApply_def distinctParties_def)
  then show ?thesis
    using TransferTransaction db es by (auto simp: pendingTransition_def Get isTransfer_def Let_def)
qed

lemma stands_root_length:
  assumes "hasher_ok H" and "stands ser H sm sl L"
  shows "length (root (smTree sm)) = Size H"
proof -
  obtain t where "sm_wf ser H (view (smDb sm)) (smTree sm) (fst sl) t"
    using implementsE [OF assms(2) [unfolded stands_def]] by metis
  then show ?thesis
    using tree_wfD(1) [OF sm_wfD(1)] assms(1) by (fastforce simp: represents_def)
qed

theorem validate_replay:
  assumes H: "hasher_ok H" and size: "Size H = 32" and ser: "serializer_ok ser"
    and sa: "stands ser H sma sl L" and sv: "stands ser H smv sl L" and h: "height (smTree sma) = height (smTree smv)"
    and tok: "token_tables (view (smDb sma)) (view (smDb smv)) (tx_Token tx) i" and i: "i < maxSliceLen"
    and len: "list_all (\<lambda>a. length a = 20) (tx_addresses tx)" and dp: "distinctParties tx"
    and room: "fst sl < 2 ^ nat (height (smTree sma) - 1)"
    and fits: "updates_fit (fst (ledgerApply (tokenIndexOf (view (smDb sma))) L tx))"
    and fresh: "applyFresh I H ser sma tx" "applyFresh I H ser smv tx"
    and run: "ApplyTransaction I H ser sma tx = (Ok (Some su), sma')"
  defines "T \<equiv> tokenIndexOf (view (smDb sma))"
  shows "\<exists>t snaps smv'. pendingTransition I fraud (smDb sma') (Some su) tx = Ok t \<and>
    tr_StateRoot t = (if fraud \<and> isTransfer tx then replicate 32 0 else GetStateRoot sma') \<and>
    validateTransition I H ser smv pos t =
      (Ok (if GetStateRoot sma' = tr_StateRoot t then None
           else Some \<lparr>fp_Position = pos, fp_Inputs = snaps, fp_Transition = t\<rparr>), smv') \<and>
    snapshots_ok ser H smv snaps \<and>
    stands ser H sma' (slotsAfter T L tx sl) (snd (ledgerApply T L tx)) \<and>
    stands ser H smv' (slotsAfter T L tx sl) (snd (ledgerApply T L tx)) \<and>
    smv' = snd (ApplyTransaction I H ser smv tx) \<and> GetStateRoot smv' = GetStateRoot sma'"
proof -
  have le: "Size H \<le> 32" using size by simp
  let ?Tv = "tokenIndexOf (view (smDb smv))"
  have Ti: "T (tx_Token tx) = Ok (bigUint64 (int i))" "?Tv (tx_Token tx) = T (tx_Token tx)"
    using token_tables_index [OF tok] by (simp_all add: T_def)
  have "unat (bigUint64 (int i)) = i"
    using i by (simp add: bigUint64_def maxSliceLen_def unat_of_nat take_bit_nat_eq_self_iff)
  then have tf: "token_fits (T (tx_Token tx))" "token_fits (?Tv (tx_Token tx))"
    using i by (simp_all add: Ti token_fits_def)
  have LA: "ledgerApply ?Tv L tx = ledgerApply T L tx" "slotsAfter ?Tv L tx sl = slotsAfter T L tx sl"
    using Ti(2) by (auto intro: ledgerApply_token slotsAfter_token)
  from ApplyTransaction_refines [OF H le ser sa tf(1) [unfolded T_def] len room fits fresh(1)] run
  obtain us where us: "stands ser H sma' (slotsAfter T L tx sl) (snd (ledgerApply T L tx))"
    "tokenEntries (view (smDb sma')) = tokenEntries (view (smDb sma))" "height (smTree sma') = height (smTree sma)"
    "fst (ledgerApply T L tx) = Ok us" "su_StateRoot su = copyN 32 (root (smTree sma'))"
    "list_all2 (entry_matches ser H (view (smDb sma')) (smTree sma') (snd (ledgerApply T L tx))) us (su_Entries su)"
    unfolding T_def [symmetric] by (auto split: outcome.splits)
  have acc: "\<And>a info. L a = Some info \<Longrightarrow> Account info = a"
    using implements_Some(3) [OF sa [unfolded stands_def]] .
  have keys: "accKey (view (smDb sma')) = snd (slotsAfter T L tx sl)"
    using us(1) by (simp add: stands_def implements_def)
  have es: "list_all2 (\<lambda>u e. ent_AccountInfo e = upd_Info u \<and> ent_NewAccount e = upd_NewAccount u \<and>
        (\<exists>k. snd (slotsAfter T L tx sl) (Account (upd_Info u)) = Some k \<and>
          ent_SlotIndex e = int (setBytes k))) us (su_Entries su)"
    using us(6) by (rule list_all2_mono) (auto simp: entry_matches_def keys split: option.splits)
  have db: "view (smDb sma') (dbKey (Some NamespaceTokenAddressToTokenIndex) (tx_Token tx)) = Some (natBytes i)"
    using fun_cong [OF tokenEntries_cong(1) [OF us(2)], of "tx_Token tx"] tok by (simp add: tokenAt_def token_tables_def)
  have root: "su_StateRoot su = GetStateRoot sma'"
    using us(5) stands_root_length [OF H us(1)] size by (simp add: GetStateRoot_def)
  obtain t where t: "pendingTransition I fraud (smDb sma') (Some su) tx = Ok t"
    "tr_StateRoot t = (if fraud \<and> isTransfer tx then replicate 32 0 else GetStateRoot sma')"
    using pendingTransition_ok [OF us(4) acc Ti(1) dp list_all2_lengthD [OF us(6), symmetric] db, of fraud]
    unfolding root by blast
  obtain snaps where snaps: "getInputStateSnapshots I H ser smv t = Ok snaps" "snapshots_ok ser H smv snaps"
    "getTransactionFromTransitionAndSnapshots I smv t snaps = Ok tx"
    using pending_read_back [OF H le ser sv tok db us(4) [unfolded T_def] dp es [unfolded T_def] t(1)] by blast
  obtain r smv' where v: "ApplyTransaction I H ser smv tx = (r, smv')"
    "stands ser H smv' (slotsAfter T L tx sl) (snd (ledgerApply T L tx))"
    "height (smTree smv') = height (smTree smv)" "\<exists>su'. r = Ok (Some su')"
    using ApplyTransaction_refines [OF H le ser sv tf(2) len _ _ fresh(2)] room h fits us(4) LA
    unfolding T_def [symmetric] by (auto simp: T_def)
  have same: "GetStateRoot smv' = GetStateRoot sma'"
    unfolding GetStateRoot_def
    by (rule implements_root [OF v(2) [unfolded stands_def] us(1) [unfolded stands_def]]) (simp add: v(3) us(3) h)
  then have "validateTransition I H ser smv pos t =
      (Ok (if GetStateRoot sma' = tr_StateRoot t then None
           else Some \<lparr>fp_Position = pos, fp_Inputs = snaps, fp_Transition = t\<rparr>), smv')"
    using snaps v(1,4) by (auto simp: validateTransition_def)
  moreover have "smv' = snd (ApplyTransaction I H ser smv tx)" by (simp add: v(1))
  ultimately show ?thesis using t snaps(2) us(1) v(2) same by blast
qed

end

end
