(* ===== verification/Sample_States.thy ===== *)
theory Sample_States
  imports Sample_Parameters Replay
begin

text \<open>
  A small state machine for the witnesses: a tree of two leaves, one token, and the states
  after a first deposit and after a transfer to a new account.
\<close>

definition sampleAddress :: "byte \<Rightarrow> bytes" where
  "sampleAddress x = replicate 19 0 @ [x]"

definition sampleToken :: bytes where
  "sampleToken = sampleAddress 9"

definition sampleLeaf :: bytes where
  "sampleLeaf = Digest sampleHasher DefaultValue"

definition sampleStart :: "memdb sm" where
  "sampleStart =
     \<lparr>smDb = \<lparr>db =
        [(dbKey (Some NamespaceTokenAddressToTokenIndex) sampleToken, natBytes 0),
         (dbKey (Some NamespaceTokenIndexToTokenAddress) (natBytes 0), sampleToken),
         (dbKey (Some NamespaceStateTrie) (Digest sampleHasher (sampleLeaf @ sampleLeaf)), sampleLeaf @ sampleLeaf),
         (dbKey (Some NamespaceStateTrie) sampleLeaf, DefaultValue)]\<rparr>,
      smTree = \<lparr>dbNamespace = Some NamespaceStateTrie, root = Digest sampleHasher (sampleLeaf @ sampleLeaf),
        height = 2, hashKey = False\<rparr>\<rparr>"

definition sampleDeposit :: Transaction where
  "sampleDeposit = DepositTransaction (sampleAddress 1) sampleToken 5 []"

definition sampleTransfer :: Transaction where
  "sampleTransfer = TransferTransaction (sampleAddress 1) (sampleAddress 2) sampleToken 2 0 []"

definition sampleWithdraw :: Transaction where
  "sampleWithdraw = WithdrawTransaction (sampleAddress 1) sampleToken 3 0 []"

lemma length_sampleAddress [simp]: "length (sampleAddress x) = 20"
  by (simp add: sampleAddress_def)

lemma length_sampleLeaf [simp]: "length sampleLeaf = 32"
  by (simp add: sampleLeaf_def)

section \<open>The empty state\<close>

lemma sampleRoot_neq: "Digest sampleHasher (sampleLeaf @ sampleLeaf) \<noteq> sampleLeaf"
  by code_simp

lemma sampleStart_views [simp]:
  "accKey (mem_view (smDb sampleStart)) = (\<lambda>_. None)" "lastKeyAt (mem_view (smDb sampleStart)) = None"
  by (simp_all add: accKey_def lastKeyAt_def mem_view_def sampleStart_def fun_eq_iff)

lemma sampleStart_height [simp]: "height (smTree sampleStart) = 2"
  by (simp add: sampleStart_def)

lemma sampleStart_ledger [simp]: "ledgerOf sampleSerializer (mem_view (smDb sampleStart)) = Map.empty"
  by (simp add: ledgerOf_def lookupAccount_def fun_eq_iff)

lemma sampleStart_tree: "tree_wf sampleHasher (mem_view (smDb sampleStart)) (smTree sampleStart) 0 (mfull 1 DefaultValue)"
  using sampleRoot_neq
  by (simp add: tree_wf_def represents_def sampleStart_def nodes_def mem_view_def sampleLeaf_def [symmetric])

lemma sampleStart_wf: "sm_wf sampleSerializer sampleHasher (mem_view (smDb sampleStart)) (smTree sampleStart) 0 (mfull 1 DefaultValue)"
  by (rule sm_wfI [OF sampleStart_tree]) (auto simp: mlookup_mfull simp del: mfull.simps One_nat_def)

lemma sampleStart_implements:
  "implements sampleSerializer sampleHasher (mem_view (smDb sampleStart)) (smTree sampleStart) (0, Map.empty) Map.empty"
  using sampleStart_wf by (auto simp: implements_def)

lemma sampleStart_tokens:
  "token_tables (mem_view (smDb sampleStart)) (mem_view (smDb sampleStart)) sampleToken 0"
  by (simp add: token_tables_def tokenAt_def mem_view_def sampleStart_def sampleToken_def)

lemma sampleStart_token [simp]: "tokenIndexOf (mem_view (smDb sampleStart)) sampleToken = Ok 0"
  using token_tables_index [OF sampleStart_tokens] by (simp add: bigUint64_def)

lemma sampleStart_fresh: "applyFresh mem_iface sampleHasher sampleSerializer sampleStart sampleDeposit"
  by code_simp

section \<open>After a first deposit\<close>

definition sampleOpened :: "memdb sm" where
  "sampleOpened = snd (ApplyTransaction mem_iface sampleHasher sampleSerializer sampleStart sampleDeposit)"

definition sampleNode :: "byte \<Rightarrow> bytes" where
  "sampleNode x = replicate 31 0 @ [x]"

text \<open>The state written out, so that later evaluations start from it.\<close>

lemma sampleOpened_eval [code]:
  "sampleOpened =
     \<lparr>smDb = \<lparr>db =
        [(dbKey (Some NamespaceTokenAddressToTokenIndex) sampleToken, []),
         (dbKey (Some NamespaceTokenIndexToTokenAddress) [], sampleToken),
         (dbKey (Some NamespaceStateTrie) (sampleNode 0), sampleNode 32 @ sampleNode 32),
         (dbKey (Some NamespaceStateTrie) (sampleNode 32), DefaultValue),
         (dbKey (Some NamespaceLastKey) EmptyKey, []),
         (dbKey (Some NamespaceAccountAddressToKey) (sampleAddress 1), []),
         (dbKey (Some NamespaceKeyToAccountInfo) [], sampleAddress 1 @ [1, 1, 5, 0, 0, 1, 0, 0, 1, 0, 0]),
         (dbKey (Some NamespaceStateTrie) (sampleNode 105), sampleAddress 1 @ [1, 0, 0, 1, 0, 0, 1, 0, 0]),
         (dbKey (Some NamespaceStateTrie) (sampleNode 109), sampleNode 105 @ sampleNode 32),
         (dbKey (Some NamespaceStateTrie) (sampleNode 189), sampleAddress 1 @ [1, 1, 5, 0, 0, 1, 0, 0, 1, 0, 0]),
         (dbKey (Some NamespaceStateTrie) (sampleNode 17), sampleNode 189 @ sampleNode 32)]\<rparr>,
      smTree = \<lparr>dbNamespace = Some NamespaceStateTrie, root = sampleNode 17, height = 2, hashKey = False\<rparr>\<rparr>"
  by code_simp

lemma sampleStart_deposit:
  "ledgerApply (tokenIndexOf (mem_view (smDb sampleStart))) Map.empty sampleDeposit =
     (Ok [\<lparr>upd_Info = \<lparr>Account = sampleAddress 1, Balances = [5], TransferNonces = [0], WithdrawNonces = [0]\<rparr>,
           upd_NewAccount = True\<rparr>],
      [sampleAddress 1 \<mapsto> \<lparr>Account = sampleAddress 1, Balances = [5], TransferNonces = [0], WithdrawNonces = [0]\<rparr>])"
  by (simp add: ledger_eval sampleDeposit_def Let_def)

lemma sampleStart_fits:
  "token_fits (tokenIndexOf (mem_view (smDb sampleStart)) (tx_Token sampleDeposit))"
  "list_all (\<lambda>a. length a = 20) (tx_addresses sampleDeposit)"
  "updates_fit (fst (ledgerApply (tokenIndexOf (mem_view (smDb sampleStart))) Map.empty sampleDeposit))"
  unfolding sampleStart_deposit
  by (simp_all add: sampleDeposit_def size_conditions)

lemma sampleStart_slots:
  "slotsAfter (tokenIndexOf (mem_view (smDb sampleStart))) Map.empty sampleDeposit (0, Map.empty) =
     (1, [sampleAddress 1 \<mapsto> natBytes 0])"
  by (simp add: slotsAfter_def sampleDeposit_def openSlot_def)

abbreviation sampleAccount :: AccountInfo where
  "sampleAccount \<equiv> \<lparr>Account = sampleAddress 1, Balances = [5], TransferNonces = [0], WithdrawNonces = [0]\<rparr>"

lemma sampleOpened_implements:
  "implements sampleSerializer sampleHasher (mem_view (smDb sampleOpened)) (smTree sampleOpened)
     (1, [sampleAddress 1 \<mapsto> natBytes 0]) [sampleAddress 1 \<mapsto> sampleAccount]"
  using mem.ApplyTransaction_refines [OF sampleHasher_ok(1) _ sampleSerializer_ok
      sampleStart_implements [folded mem.stands_def] sampleStart_fits(1,2) _ sampleStart_fits(3) sampleStart_fresh]
  by (auto simp: sampleOpened_def sampleStart_deposit sampleStart_slots mem.stands_def)

end
