(* ===== verification/State_Contract.thy ===== *)
theory State_Contract
  imports Sample_States
begin

text \<open>
  The state machine over the in-memory database, with what is carried over from the
  ledger by the refinement. \<open>well_posed\<close> collects what a transaction has to meet: a
  well-formed state, room for one more account, numbers that fit, and no hash collision on
  the nodes it writes.
\<close>

definition well_posed ::
  "serializer \<Rightarrow> hasher \<Rightarrow> memdb sm \<Rightarrow> slots \<Rightarrow> ledger \<Rightarrow> Transaction \<Rightarrow> bool" where
  "well_posed ser H sm sl L tx \<longleftrightarrow>
     hasher_ok H \<and> Size H \<le> 32 \<and> serializer_ok ser \<and>
     implements ser H (mem_view (smDb sm)) (smTree sm) sl L \<and>
     token_fits (tokenIndexOf (mem_view (smDb sm)) (tx_Token tx)) \<and>
     list_all (\<lambda>a. length a = 20) (tx_addresses tx) \<and>
     fst sl < 2 ^ nat (height (smTree sm) - 1) \<and>
     updates_fit (fst (ledgerApply (tokenIndexOf (mem_view (smDb sm))) L tx)) \<and>
     applyFresh mem_iface H ser sm tx"

text \<open>The balance of an account as the code reads it; a missing account has none.\<close>

definition balanceAt :: "serializer \<Rightarrow> memdb sm \<Rightarrow> bytes \<Rightarrow> nat \<Rightarrow> int" where
  "balanceAt ser sm a i =
     (case getAccountInfo mem_iface ser sm a of Ok info \<Rightarrow> balanceOf info i | _ \<Rightarrow> 0)"

section \<open>From the ledger to the state machine\<close>

abbreviation tokens :: "memdb sm \<Rightarrow> bytes \<Rightarrow> u64 outcome" where
  "tokens sm \<equiv> tokenIndexOf (mem_view (smDb sm))"

lemma well_posed_refines:
  assumes "well_posed ser H sm sl L tx"
  obtains r sm' where "ApplyTransaction mem_iface H ser sm tx = (r, sm')"
    and "implements ser H (mem_view (smDb sm')) (smTree sm') (slotsAfter (tokens sm) L tx sl)
      (snd (ledgerApply (tokens sm) L tx))"
    and "tokens sm' = tokens sm" and "height (smTree sm') = height (smTree sm)"
    and "tokenEntries (mem_view (smDb sm')) = tokenEntries (mem_view (smDb sm))"
    and "case fst (ledgerApply (tokens sm) L tx) of
       Err e \<Rightarrow> r = Err e
     | Panic p \<Rightarrow> r = Panic p
     | Ok us \<Rightarrow> (\<exists>es. r = Ok (Some \<lparr>su_Transaction = tx, su_StateRoot = copyN 32 (root (smTree sm')),
           su_Entries = es\<rparr>) \<and>
         list_all2 (entry_matches ser H (mem_view (smDb sm')) (smTree sm') (snd (ledgerApply (tokens sm) L tx))) us es)"
proof -
  have W: "hasher_ok H" "Size H \<le> 32" "serializer_ok ser" "mem.stands ser H sm sl L"
    "token_fits (tokens sm (tx_Token tx))" "list_all (\<lambda>a. length a = 20) (tx_addresses tx)"
    "fst sl < 2 ^ nat (height (smTree sm) - 1)" "updates_fit (fst (ledgerApply (tokens sm) L tx))"
    "applyFresh mem_iface H ser sm tx"
    using assms by (simp_all add: well_posed_def mem.stands_def)
  from mem.ApplyTransaction_refines [OF W] that show ?thesis
    by (auto simp: mem.stands_def dest: tokenEntries_cong(2))
qed

lemma getAccountInfo_ledger:
  "implements ser H (mem_view (smDb sm)) (smTree sm) sl L \<Longrightarrow>
    getAccountInfo mem_iface ser sm a = (case L a of None \<Rightarrow> Err ErrAccountNotFound | Some info \<Rightarrow> Ok info)"
  by (rule mem.getAccountInfo_stands) (simp add: mem.stands_def)

lemma balanceAt_ledger:
  "implements ser H (mem_view (smDb sm)) (smTree sm) sl L \<Longrightarrow> balanceAt ser sm a i = balanceIn L a i"
  by (simp add: balanceAt_def getAccountInfo_ledger balanceIn_def split: option.splits)

lemma well_posed_implements:
  "well_posed ser H sm sl L tx \<Longrightarrow> implements ser H (mem_view (smDb sm)) (smTree sm) sl L"
  by (simp add: well_posed_def)

lemma well_posed_wf:
  assumes "well_posed ser H sm sl L tx" and "L a = Some info"
  shows "account_wf info" and "Account info = a"
  using implements_Some(2,3) [OF well_posed_implements [OF assms(1)] assms(2)] .

text \<open>A successful run is a successful transaction of the ledger, and the other way round.\<close>

lemma well_posed_Ok:
  assumes "well_posed ser H sm sl L tx" and "ApplyTransaction mem_iface H ser sm tx = (Ok ups, sm')"
  obtains ti us where "tokens sm (tx_Token tx) = Ok ti" and "fst (ledgerApply (tokens sm) L tx) = Ok us"
    and "implements ser H (mem_view (smDb sm')) (smTree sm') (slotsAfter (tokens sm) L tx sl)
      (snd (ledgerApply (tokens sm) L tx))" and "tokens sm' = tokens sm"
proof (rule well_posed_refines [OF assms(1)])
  fix r sm''
  assume R: "ApplyTransaction mem_iface H ser sm tx = (r, sm'')"
    "implements ser H (mem_view (smDb sm'')) (smTree sm'') (slotsAfter (tokens sm) L tx sl)
      (snd (ledgerApply (tokens sm) L tx))" "tokens sm'' = tokens sm"
    "case fst (ledgerApply (tokens sm) L tx) of
       Err e \<Rightarrow> r = Err e
     | Panic p \<Rightarrow> r = Panic p
     | Ok us \<Rightarrow> (\<exists>es. r = Ok (Some \<lparr>su_Transaction = tx, su_StateRoot = copyN 32 (root (smTree sm'')),
           su_Entries = es\<rparr>) \<and>
         list_all2 (entry_matches ser H (mem_view (smDb sm'')) (smTree sm'') (snd (ledgerApply (tokens sm) L tx))) us es)"
  then obtain us where us: "fst (ledgerApply (tokens sm) L tx) = Ok us"
    using assms(2) by (auto split: outcome.splits)
  then obtain ti where "tokens sm (tx_Token tx) = Ok ti"
    by (auto simp: ledgerApply_def split: outcome.splits)
  with us R assms(2) that show ?thesis by simp
qed

section \<open>Examples\<close>

lemma sampleDeposit_posed:
  "well_posed sampleSerializer sampleHasher sampleStart (0, Map.empty) Map.empty sampleDeposit"
  using sampleStart_implements sampleStart_fits sampleStart_fresh by (simp add: well_posed_def)

lemma sampleOpened_tokens [simp]: "tokenAt (mem_view (smDb sampleOpened)) sampleToken = Some []"
  "height (smTree sampleOpened) = 2"
  by (simp_all add: tokenAt_def mem_view_def sampleOpened_eval)

lemma sampleOpened_token [simp]: "tokens sampleOpened sampleToken = Ok 0"
  by (simp add: tokenIndexOf_def bigUint64_def)

abbreviation openedLedger :: ledger where
  "openedLedger \<equiv> [sampleAddress 1 \<mapsto> sampleAccount]"

abbreviation openedSlots :: slots where
  "openedSlots \<equiv> (1, [sampleAddress 1 \<mapsto> natBytes 0])"

lemma sampleOpened_transfer:
  "ledgerApply (tokens sampleOpened) openedLedger sampleTransfer =
     (Ok [\<lparr>upd_Info = \<lparr>Account = sampleAddress 1, Balances = [3], TransferNonces = [1], WithdrawNonces = [0]\<rparr>,
           upd_NewAccount = False\<rparr>,
          \<lparr>upd_Info = \<lparr>Account = sampleAddress 2, Balances = [2], TransferNonces = [0], WithdrawNonces = [0]\<rparr>,
           upd_NewAccount = True\<rparr>],
      [sampleAddress 1 \<mapsto> \<lparr>Account = sampleAddress 1, Balances = [3], TransferNonces = [1], WithdrawNonces = [0]\<rparr>,
       sampleAddress 2 \<mapsto> \<lparr>Account = sampleAddress 2, Balances = [2], TransferNonces = [0], WithdrawNonces = [0]\<rparr>])"
  by (simp add: ledger_eval sampleTransfer_def sampleAddress_def Let_def fun_upd_twist)

lemma sampleOpened_withdraw:
  "ledgerApply (tokens sampleOpened) openedLedger sampleWithdraw =
     (Ok [\<lparr>upd_Info = \<lparr>Account = sampleAddress 1, Balances = [2], TransferNonces = [0], WithdrawNonces = [1]\<rparr>,
           upd_NewAccount = False\<rparr>],
      [sampleAddress 1 \<mapsto> \<lparr>Account = sampleAddress 1, Balances = [2], TransferNonces = [0], WithdrawNonces = [1]\<rparr>])"
  by (simp add: ledger_eval sampleWithdraw_def Let_def)

lemma sampleTransfer_fresh: "applyFresh mem_iface sampleHasher sampleSerializer sampleOpened sampleTransfer"
  by code_simp

lemma sampleWithdraw_fresh: "applyFresh mem_iface sampleHasher sampleSerializer sampleOpened sampleWithdraw"
  by code_simp

lemma sampleTransfer_posed:
  "well_posed sampleSerializer sampleHasher sampleOpened openedSlots openedLedger sampleTransfer"
  unfolding well_posed_def sampleOpened_transfer
  using sampleOpened_implements sampleTransfer_fresh
  by (simp add: sampleTransfer_def size_conditions)

lemma sampleWithdraw_posed:
  "well_posed sampleSerializer sampleHasher sampleOpened openedSlots openedLedger sampleWithdraw"
  unfolding well_posed_def sampleOpened_withdraw
  using sampleOpened_implements sampleWithdraw_fresh
  by (simp add: sampleWithdraw_def size_conditions)

section \<open>More examples\<close>

definition sampleWithdrawn :: "memdb sm" where
  "sampleWithdrawn = snd (ApplyTransaction mem_iface sampleHasher sampleSerializer sampleOpened sampleWithdraw)"

definition sampleBadDeposit :: Transaction where
  "sampleBadDeposit = DepositTransaction (sampleAddress 2) sampleToken (-1) []"

definition sampleSelf :: Transaction where
  "sampleSelf = TransferTransaction (sampleAddress 1) (sampleAddress 1) sampleToken 2 0 []"

lemma sampleMore_fresh:
  "applyFresh mem_iface sampleHasher sampleSerializer sampleWithdrawn sampleWithdraw"
  "applyFresh mem_iface sampleHasher sampleSerializer sampleOpened sampleBadDeposit"
  "applyFresh mem_iface sampleHasher sampleSerializer sampleOpened sampleSelf"
  by code_simp+

abbreviation withdrawnLedger :: ledger where
  "withdrawnLedger \<equiv> [sampleAddress 1 \<mapsto>
     \<lparr>Account = sampleAddress 1, Balances = [2], TransferNonces = [0], WithdrawNonces = [1]\<rparr>]"

lemma sampleWithdrawn_state:
  "implements sampleSerializer sampleHasher (mem_view (smDb sampleWithdrawn)) (smTree sampleWithdrawn) openedSlots
     withdrawnLedger"
  "tokens sampleWithdrawn = tokens sampleOpened" "height (smTree sampleWithdrawn) = 2"
  by (rule well_posed_refines [OF sampleWithdraw_posed];
      simp add: sampleWithdrawn_def sampleOpened_withdraw; simp add: slotsAfter_def sampleWithdraw_def)+

lemma sampleWithdrawn_posed:
  "well_posed sampleSerializer sampleHasher sampleWithdrawn openedSlots withdrawnLedger sampleWithdraw"
  using sampleWithdrawn_state sampleMore_fresh(1)
  by (simp add: well_posed_def sampleWithdraw_def size_conditions ledger_eval Let_def)

lemma sampleBadDeposit_posed:
  "well_posed sampleSerializer sampleHasher sampleOpened openedSlots openedLedger sampleBadDeposit"
  using sampleOpened_implements sampleMore_fresh(2)
  by (simp add: well_posed_def sampleBadDeposit_def size_conditions ledger_eval Let_def case_prod_unfold)

lemma sampleSelf_posed:
  "well_posed sampleSerializer sampleHasher sampleOpened openedSlots openedLedger sampleSelf"
  using sampleOpened_implements sampleMore_fresh(3)
  by (simp add: well_posed_def sampleSelf_def size_conditions ledger_eval Let_def)

text \<open>Writes outside the state machine's namespaces, such as a new token, leave the ledger alone.\<close>

lemma implements_frame:
  assumes "unchangedExcept S m m'" and "S \<inter> {NamespaceStateTrie, NamespaceAccountAddressToKey,
      NamespaceKeyToAccountInfo, NamespaceLastKey} = {}" and "implements ser H m tr sl L"
  shows "implements ser H m' tr sl L"
proof -
  obtain t where wf: "sm_wf ser H m tr (fst sl) t" using assms(3) by (auto simp: implements_def)
  have v: "accKey m' = accKey m" "infoAt m' = infoAt m" "lastKeyAt m' = lastKeyAt m"
    using unchangedExceptD [OF assms(1)] assms(2) by auto
  note D = tree_wfD [OF sm_wfD(1) [OF wf]]
  have "represents m' H tr t (root tr)"
    using represents_unchanged [OF assms(1) D(2)] assms(2) D(1) by auto
  then have "tree_wf H m' tr (fst sl) t" using sm_wfD(1) [OF wf] by (simp add: tree_wf_def)
  then have "sm_wf ser H m' tr (fst sl) t" using wf by (simp add: sm_wf_def v account_stored_def)
  moreover have "ledgerOf ser m' = ledgerOf ser m" by (rule ext) (simp add: ledgerOf_def lookupAccount_def v split: option.splits)
  ultimately show ?thesis using assms(3) v by (auto simp: implements_def)
qed

definition sampleToken2 :: bytes where
  "sampleToken2 = sampleAddress 8"

text \<open>The opened state with a second token, whose index is one past the account's balances.\<close>

definition sampleTwoTokens :: "memdb sm" where
  "sampleTwoTokens = sampleOpened\<lparr>smDb :=
     snd (mem_Set (smDb sampleOpened) (Some NamespaceTokenAddressToTokenIndex) sampleToken2 [1])\<rparr>"

definition sampleEdge :: Transaction where
  "sampleEdge = TransferTransaction (sampleAddress 1) (sampleAddress 1) sampleToken2 0 0 []"

lemma sampleEdge_posed:
  "well_posed sampleSerializer sampleHasher sampleTwoTokens openedSlots openedLedger sampleEdge"
proof -
  have tok: "tokens sampleTwoTokens sampleToken2 = Ok 1"
    by (simp add: tokenIndexOf_def tokenAt_def sampleTwoTokens_def mem_view_def mem_Set_def update_conv'
        bigUint64_def setBytes_def)
  have "unchangedExcept {NamespaceTokenAddressToTokenIndex} (mem_view (smDb sampleOpened)) (mem_view (smDb sampleTwoTokens))"
    by (auto simp: unchangedExcept_def sampleTwoTokens_def mem_view_def mem_Set_def update_conv')
  from implements_frame [OF this _ sampleOpened_implements]
  have "implements sampleSerializer sampleHasher (mem_view (smDb sampleTwoTokens)) (smTree sampleOpened)
      openedSlots openedLedger" by simp
  moreover have "smTree sampleTwoTokens = smTree sampleOpened" by (simp add: sampleTwoTokens_def)
  moreover have "applyFresh mem_iface sampleHasher sampleSerializer sampleTwoTokens sampleEdge" by code_simp
  ultimately show ?thesis
    using tok by (simp add: well_posed_def sampleEdge_def size_conditions ledger_eval Let_def)
qed

end
