(* ===== verification/State_Properties.thy ===== *)
theory State_Properties
  imports State_Contract
begin

text \<open>
  The properties of the state machine on the in-memory database. Each one rests on the
  refinement of the ledger (\<open>well_posed_refines\<close>) and on facts of \<open>Ledger_Facts\<close>.
\<close>

section \<open>Refinement\<close>

text \<open>
  C1: the state machine implements the ledger. For every well-posed transaction
  \<^verbatim>\<open>ApplyTransaction\<close> returns the ledger's error (or panic) or, on success, a state
  update with one entry per changed account; the state reached is well formed and stands for
  the ledger's result, also after an error; and each entry has the account's slot, and an
  inclusion proof that leads from its serialised record to the new state root.
\<close>

theorem apply_transaction_refines_ledger:
  assumes "well_posed ser H sm sl L tx"
  shows "case ApplyTransaction mem_iface H ser sm tx of (r, sm') \<Rightarrow>
    implements ser H (mem_view (smDb sm')) (smTree sm')
      (slotsAfter (tokenIndexOf (mem_view (smDb sm))) L tx sl)
      (snd (ledgerApply (tokenIndexOf (mem_view (smDb sm))) L tx)) \<and>
    (case fst (ledgerApply (tokenIndexOf (mem_view (smDb sm))) L tx) of
       Err e \<Rightarrow> r = Err e
     | Panic p \<Rightarrow> r = Panic p
     | Ok us \<Rightarrow> (\<exists>es. r = Ok (Some \<lparr>su_Transaction = tx, su_StateRoot = copyN 32 (root (smTree sm')),
           su_Entries = es\<rparr>) \<and>
         list_all2 (entry_matches ser H (mem_view (smDb sm')) (smTree sm')
           (snd (ledgerApply (tokenIndexOf (mem_view (smDb sm))) L tx))) us es))"
  by (rule well_posed_refines [OF assms]) simp

theorem apply_transaction_refines_ledger_witness:
  "implements sampleSerializer sampleHasher
     (mem_view (smDb (snd (ApplyTransaction mem_iface sampleHasher sampleSerializer sampleStart sampleDeposit))))
     (smTree (snd (ApplyTransaction mem_iface sampleHasher sampleSerializer sampleStart sampleDeposit)))
     (1, [sampleAddress 1 \<mapsto> natBytes 0]) [sampleAddress 1 \<mapsto> sampleAccount]"
  using apply_transaction_refines_ledger [OF sampleDeposit_posed]
  by (simp add: sampleStart_deposit sampleStart_slots case_prod_unfold)

section \<open>What the three transactions do\<close>

text \<open>
  C11: a successful transfer between two accounts moves the amount. It was covered by the
  sender's balance, the sender loses it and the recipient gains it in that token, every
  other balance of every account stays, so the total over any set of accounts with both
  parties stays too.
\<close>

theorem transfer_moves_amount:
  assumes "well_posed ser H sm sl L (TransferTransaction s r tok amount nonce sig)" and "s \<noteq> r"
    and "ApplyTransaction mem_iface H ser sm (TransferTransaction s r tok amount nonce sig) = (Ok ups, sm')"
    and "getTokenIndex mem_iface sm tok = Ok ti"
  shows "0 \<le> amount \<and> amount \<le> balanceAt ser sm s (unat ti) \<and>
    (\<forall>b j. balanceAt ser sm' b j = balanceAt ser sm b j
       - (if b = s \<and> j = unat ti then amount else 0) + (if b = r \<and> j = unat ti then amount else 0)) \<and>
    (\<forall>A j. finite A \<and> s \<in> A \<and> r \<in> A \<longrightarrow> (\<Sum>b\<in>A. balanceAt ser sm' b j) = (\<Sum>b\<in>A. balanceAt ser sm b j))"
proof (rule well_posed_Ok [OF assms(1,3)])
  let ?tx = "TransferTransaction s r tok amount nonce sig"
  fix ti' us
  assume R: "tokens sm (tx_Token ?tx) = Ok ti'" "fst (ledgerApply (tokens sm) L ?tx) = Ok us"
    "implements ser H (mem_view (smDb sm')) (smTree sm') (slotsAfter (tokens sm) L ?tx sl)
      (snd (ledgerApply (tokens sm) L ?tx))"
  have [simp]: "ti' = ti" using R(1) assms(4) by (simp add: mem.getTokenIndex_view)
  note B = balanceAt_ledger [OF well_posed_implements [OF assms(1)]] balanceAt_ledger [OF R(3)]
  have ok: "fst (ledgerTransfer ti L ?tx) = Ok us" using R(1,2) by (simp add: ledgerApply_def)
  have eff: "0 \<le> amount \<and> amount \<le> balanceAt ser sm s (unat ti) \<and> balanceAt ser sm' b j = balanceAt ser sm b j
       - (if b = s \<and> j = unat ti then amount else 0) + (if b = r \<and> j = unat ti then amount else 0)" for b j
    using ledgerTransfer_balance [OF ok, of b j] assms(2) R(1) unfolding B by (simp add: ledgerApply_def)
  have "(\<Sum>b\<in>A. balanceAt ser sm' b j) = (\<Sum>b\<in>A. balanceAt ser sm b j)" if A: "finite A" "s \<in> A" "r \<in> A" for A j
  proof -
    have eq: "balanceAt ser sm' b j = balanceAt ser sm b j
       - (if b = s then (if j = unat ti then amount else 0) else 0)
       + (if b = r then (if j = unat ti then amount else 0) else 0)" for b
      using eff [of b j] by simp
    show ?thesis using A by (simp only: eq) (simp add: sum.distrib sum_subtractf)
  qed
  with eff show ?thesis by blast
qed

lemma sampleTransfer_run:
  "\<exists>ups sm'. ApplyTransaction mem_iface sampleHasher sampleSerializer sampleOpened sampleTransfer = (Ok ups, sm')"
  by (rule well_posed_refines [OF sampleTransfer_posed]) (auto simp: sampleOpened_transfer)

theorem transfer_moves_amount_witness:
  "\<exists>ups sm'. ApplyTransaction mem_iface sampleHasher sampleSerializer sampleOpened sampleTransfer = (Ok ups, sm') \<and>
     balanceAt sampleSerializer sm' (sampleAddress 1) 0 = balanceAt sampleSerializer sampleOpened (sampleAddress 1) 0 - 2 \<and>
     balanceAt sampleSerializer sm' (sampleAddress 2) 0 = balanceAt sampleSerializer sampleOpened (sampleAddress 2) 0 + 2"
proof -
  obtain ups sm' where run: "ApplyTransaction mem_iface sampleHasher sampleSerializer sampleOpened sampleTransfer = (Ok ups, sm')"
    using sampleTransfer_run by blast
  have ne: "sampleAddress 1 \<noteq> sampleAddress 2" by (simp add: sampleAddress_def)
  have ti: "getTokenIndex mem_iface sampleOpened sampleToken = Ok 0" by (simp add: mem.getTokenIndex_view)
  from transfer_moves_amount [OF sampleTransfer_posed [unfolded sampleTransfer_def] ne run [unfolded sampleTransfer_def] ti]
  show ?thesis using run ne by auto
qed

text \<open>
  C12: a successful withdrawal takes the amount, which the balance covered, from that account
  and token only, carries the account's next withdraw nonce and advances it.
\<close>

theorem withdraw_takes_amount:
  assumes "well_posed ser H sm sl L (WithdrawTransaction a tok amount nonce sig)"
    and "ApplyTransaction mem_iface H ser sm (WithdrawTransaction a tok amount nonce sig) = (Ok ups, sm')"
    and "getTokenIndex mem_iface sm tok = Ok ti"
  shows "0 \<le> amount \<and> amount \<le> balanceAt ser sm a (unat ti) \<and>
    (\<forall>b j. balanceAt ser sm' b j = balanceAt ser sm b j - (if b = a \<and> j = unat ti then amount else 0)) \<and>
    (\<exists>old new. getAccountInfo mem_iface ser sm a = Ok old \<and> WithdrawNonces old ! unat ti = nonce \<and>
       getAccountInfo mem_iface ser sm' a = Ok new \<and>
       WithdrawNonces new = (WithdrawNonces old)[unat ti := nonce + 1])"
proof (rule well_posed_Ok [OF assms(1,2)])
  let ?tx = "WithdrawTransaction a tok amount nonce sig"
  fix ti' us
  assume R: "tokens sm (tx_Token ?tx) = Ok ti'" "fst (ledgerApply (tokens sm) L ?tx) = Ok us"
    "implements ser H (mem_view (smDb sm')) (smTree sm') (slotsAfter (tokens sm) L ?tx sl)
      (snd (ledgerApply (tokens sm) L ?tx))"
  have [simp]: "ti' = ti" using R(1) assms(3) by (simp add: mem.getTokenIndex_view)
  note B = balanceAt_ledger [OF well_posed_implements [OF assms(1)]] balanceAt_ledger [OF R(3)]
  note G = getAccountInfo_ledger [OF well_posed_implements [OF assms(1)]] getAccountInfo_ledger [OF R(3)]
  have ok: "fst (ledgerWithdraw ti L ?tx) = Ok us" "snd (ledgerApply (tokens sm) L ?tx) = snd (ledgerWithdraw ti L ?tx)"
    using R(1,2) by (simp_all add: ledgerApply_def)
  have eff: "0 \<le> amount \<and> amount \<le> balanceAt ser sm a (unat ti) \<and>
      balanceAt ser sm' b j = balanceAt ser sm b j - (if b = a \<and> j = unat ti then amount else 0)" for b j
    using ledgerWithdraw_balance [OF ok(1), of b j] unfolding B ok(2) by simp
  from ok(1) show ?thesis
    by (rule ledgerWithdraw_info) (use eff in \<open>simp add: G ok(2) debit_def nextWithdraw_def\<close>)
qed

lemma sampleWithdraw_run:
  "\<exists>ups sm'. ApplyTransaction mem_iface sampleHasher sampleSerializer sampleOpened sampleWithdraw = (Ok ups, sm')"
  by (rule well_posed_refines [OF sampleWithdraw_posed]) (auto simp: sampleOpened_withdraw)

theorem withdraw_takes_amount_witness:
  "\<exists>ups sm'. ApplyTransaction mem_iface sampleHasher sampleSerializer sampleOpened sampleWithdraw = (Ok ups, sm') \<and>
     balanceAt sampleSerializer sm' (sampleAddress 1) 0 = balanceAt sampleSerializer sampleOpened (sampleAddress 1) 0 - 3"
proof -
  obtain ups sm' where run: "ApplyTransaction mem_iface sampleHasher sampleSerializer sampleOpened sampleWithdraw = (Ok ups, sm')"
    using sampleWithdraw_run by blast
  have ti: "getTokenIndex mem_iface sampleOpened sampleToken = Ok 0" by (simp add: mem.getTokenIndex_view)
  from withdraw_takes_amount [OF sampleWithdraw_posed [unfolded sampleWithdraw_def] run [unfolded sampleWithdraw_def] ti]
  show ?thesis using run by auto
qed

text \<open>
  C13: a successful deposit adds the amount, which is not negative, to that account and token
  only; the update says whether the account is new, and afterwards the account exists.
\<close>

theorem deposit_adds_amount:
  assumes "well_posed ser H sm sl L (DepositTransaction a tok amount sig)"
    and "ApplyTransaction mem_iface H ser sm (DepositTransaction a tok amount sig) = (Ok (Some su), sm')"
    and "getTokenIndex mem_iface sm tok = Ok ti"
  shows "0 \<le> amount \<and>
    (\<forall>b j. balanceAt ser sm' b j = balanceAt ser sm b j + (if b = a \<and> j = unat ti then amount else 0)) \<and>
    (\<exists>e. su_Entries su = [e] \<and> getAccountInfo mem_iface ser sm' a = Ok (ent_AccountInfo e) \<and>
       (ent_NewAccount e \<longleftrightarrow> getAccountInfo mem_iface ser sm a = Err ErrAccountNotFound))"
proof (rule well_posed_refines [OF assms(1)])
  let ?tx = "DepositTransaction a tok amount sig"
  fix r sm''
  assume R: "ApplyTransaction mem_iface H ser sm ?tx = (r, sm'')"
    "implements ser H (mem_view (smDb sm'')) (smTree sm'') (slotsAfter (tokens sm) L ?tx sl)
      (snd (ledgerApply (tokens sm) L ?tx))"
    "case fst (ledgerApply (tokens sm) L ?tx) of
       Err e \<Rightarrow> r = Err e
     | Panic p \<Rightarrow> r = Panic p
     | Ok us \<Rightarrow> (\<exists>es. r = Ok (Some \<lparr>su_Transaction = ?tx, su_StateRoot = copyN 32 (root (smTree sm'')),
           su_Entries = es\<rparr>) \<and>
         list_all2 (entry_matches ser H (mem_view (smDb sm'')) (smTree sm'') (snd (ledgerApply (tokens sm) L ?tx))) us es)"
  have eq [simp]: "sm'' = sm'" "r = Ok (Some su)" using R(1) assms(2) by simp_all
  have T: "tokens sm tok = Ok ti" using assms(3) by (simp add: mem.getTokenIndex_view)
  then have A: "ledgerApply (tokens sm) L ?tx = ledgerDeposit ti L ?tx" by (simp add: ledgerApply_def)
  note B = balanceAt_ledger [OF well_posed_implements [OF assms(1)]] balanceAt_ledger [OF R(2) [unfolded eq]]
  note G = getAccountInfo_ledger [OF well_posed_implements [OF assms(1)]] getAccountInfo_ledger [OF R(2) [unfolded eq]]
  from R(3) obtain us where ok: "fst (ledgerDeposit ti L ?tx) = Ok us"
    "list_all2 (entry_matches ser H (mem_view (smDb sm')) (smTree sm') (snd (ledgerDeposit ti L ?tx))) us (su_Entries su)"
    unfolding A by (auto split: outcome.splits)
  have eff: "0 \<le> amount \<and> balanceAt ser sm' b j = balanceAt ser sm b j + (if b = a \<and> j = unat ti then amount else 0)"
    for b j using ledgerDeposit_balance [OF ok(1), of b j] unfolding B A by simp
  obtain info new L1 where op: "ledgerOpen L a ti = ((info, new), L1)" by (metis prod.collapse)
  then have new: "new \<longleftrightarrow> L a = None" by (auto simp: ledgerOpen_def split: option.splits)
  from ok(1) op have us: "us = [\<lparr>upd_Info = credit (unat ti) amount info, upd_NewAccount = new\<rparr>]"
    "snd (ledgerDeposit ti L ?tx) a = Some (credit (unat ti) amount info)"
    by (auto simp: ledgerDeposit_def Let_def split: if_splits)
  then obtain e where "su_Entries su = [e]" "ent_AccountInfo e = credit (unat ti) amount info" "ent_NewAccount e = new"
    using ok(2) by (auto simp: list_all2_Cons1 entry_matches_def)
  with eff us(2) new show ?thesis by (auto simp: G A split: option.splits)
qed

theorem deposit_adds_amount_witness:
  "\<exists>su sm'. ApplyTransaction mem_iface sampleHasher sampleSerializer sampleStart sampleDeposit = (Ok (Some su), sm') \<and>
     balanceAt sampleSerializer sm' (sampleAddress 1) 0 = balanceAt sampleSerializer sampleStart (sampleAddress 1) 0 + 5"
proof -
  obtain su sm' where run: "ApplyTransaction mem_iface sampleHasher sampleSerializer sampleStart sampleDeposit = (Ok (Some su), sm')"
    by (rule well_posed_refines [OF sampleDeposit_posed]) (auto simp: sampleStart_deposit)
  have ti: "getTokenIndex mem_iface sampleStart sampleToken = Ok 0" by (simp add: mem.getTokenIndex_view)
  from deposit_adds_amount [OF sampleDeposit_posed [unfolded sampleDeposit_def] run [unfolded sampleDeposit_def] ti]
  show ?thesis using run by auto
qed

section \<open>Rejections\<close>

text \<open>
  C14: a rejected transaction changes no balance and no existing account; all it may leave
  behind is one new account without balances.
\<close>

theorem rejected_changes_no_balance:
  assumes "well_posed ser H sm sl L tx" and "ApplyTransaction mem_iface H ser sm tx = (Err e, sm')"
  shows "balanceAt ser sm' b j = balanceAt ser sm b j \<and>
    (\<forall>info. getAccountInfo mem_iface ser sm b = Ok info \<longrightarrow> getAccountInfo mem_iface ser sm' b = Ok info)"
proof (rule well_posed_refines [OF assms(1)])
  fix r sm''
  assume R: "ApplyTransaction mem_iface H ser sm tx = (r, sm'')"
    "implements ser H (mem_view (smDb sm'')) (smTree sm'') (slotsAfter (tokens sm) L tx sl)
      (snd (ledgerApply (tokens sm) L tx))"
    "case fst (ledgerApply (tokens sm) L tx) of
       Err e \<Rightarrow> r = Err e
     | Panic p \<Rightarrow> r = Panic p
     | Ok us \<Rightarrow> (\<exists>es. r = Ok (Some \<lparr>su_Transaction = tx, su_StateRoot = copyN 32 (root (smTree sm'')),
           su_Entries = es\<rparr>) \<and>
         list_all2 (entry_matches ser H (mem_view (smDb sm'')) (smTree sm'') (snd (ledgerApply (tokens sm) L tx))) us es)"
  have eq [simp]: "sm'' = sm'" "r = Err e" using R(1) assms(2) by simp_all
  note B = balanceAt_ledger [OF well_posed_implements [OF assms(1)]] balanceAt_ledger [OF R(2) [unfolded eq]]
  note G = getAccountInfo_ledger [OF well_posed_implements [OF assms(1)]] getAccountInfo_ledger [OF R(2) [unfolded eq]]
  have "\<not> is_Ok (fst (ledgerApply (tokens sm) L tx))"
    using R(3) by (cases "fst (ledgerApply (tokens sm) L tx)") auto
  from ledgerApply_rejected [OF this]
  have "balanceIn (snd (ledgerApply (tokens sm) L tx)) b j = balanceIn L b j"
    "L b \<noteq> None \<Longrightarrow> snd (ledgerApply (tokens sm) L tx) b = L b"
    using ledgerOpen_old [of L b] by auto
  then show ?thesis unfolding B by (auto simp: G split: option.splits)
qed

lemma sampleBadDeposit_run:
  "\<exists>sm'. ApplyTransaction mem_iface sampleHasher sampleSerializer sampleOpened sampleBadDeposit = (Err ErrInvalidAmount, sm')"
  by (rule well_posed_refines [OF sampleBadDeposit_posed])
    (auto simp: sampleBadDeposit_def ledgerApply_def ledgerDeposit_def Let_def case_prod_unfold)

theorem rejected_changes_no_balance_witness:
  "\<exists>e sm'. ApplyTransaction mem_iface sampleHasher sampleSerializer sampleOpened sampleBadDeposit = (Err e, sm') \<and>
     balanceAt sampleSerializer sm' (sampleAddress 1) 0 = balanceAt sampleSerializer sampleOpened (sampleAddress 1) 0"
proof -
  obtain sm' where run: "ApplyTransaction mem_iface sampleHasher sampleSerializer sampleOpened sampleBadDeposit =
      (Err ErrInvalidAmount, sm')" using sampleBadDeposit_run by blast
  from rejected_changes_no_balance [OF sampleBadDeposit_posed run] run show ?thesis by auto
qed

section \<open>Snapshots and the initial state\<close>

text \<open>
  C15: the snapshot of an existing account, taken by the key of its slot, has the account's
  record, the current root, and a proof that leads from the record to that root.
\<close>

theorem state_snapshot_proves:
  assumes "hasher_ok H" and "Size H \<le> 32" and "serializer_ok ser"
    and "implements ser H (mem_view (smDb sm)) (smTree sm) sl L"
    and "getAccountInfo mem_iface ser sm a = Ok info"
  shows "\<exists>k snap. snd sl a = Some k \<and> GetStateSnapshot mem_iface H ser sm k = Ok snap \<and>
    snap_AccountInfo snap = info \<and> snap_SlotIndex snap = int (setBytes k) \<and> snap_StateRoot snap = GetStateRoot sm \<and>
    proves ser H (height (smTree sm)) (GetStateRoot sm) (snap_SlotIndex snap) (snap_InclusionProof snap) info"
proof -
  have L: "L a = Some info" using assms(5) by (simp add: getAccountInfo_ledger [OF assms(4)] split: option.splits)
  have keys: "snd sl = accKey (mem_view (smDb sm))" using assms(4) by (simp add: implements_def)
  have "db_Get mem_iface (smDb sm) (Some NamespaceAccountAddressToKey) a = Ok (snd sl a)"
    by (simp add: mem.Get keys accKey_def)
  with mem.GetStateSnapshot_account [OF assms(1,2,3) assms(4) [folded mem.stands_def] L] show ?thesis
    by auto
qed

theorem state_snapshot_proves_witness:
  "\<exists>snap. GetStateSnapshot mem_iface sampleHasher sampleSerializer sampleOpened (natBytes 0) = Ok snap \<and>
     snap_AccountInfo snap = sampleAccount"
proof -
  have "getAccountInfo mem_iface sampleSerializer sampleOpened (sampleAddress 1) = Ok sampleAccount"
    by (simp add: getAccountInfo_ledger [OF sampleOpened_implements])
  from state_snapshot_proves [OF sampleHasher_ok(1) _ sampleSerializer_ok sampleOpened_implements this]
  show ?thesis by auto
qed

text \<open>
  C16: a new state machine on an empty database is well formed and has no accounts: every
  lookup fails with \<^verbatim>\<open>ErrAccountNotFound\<close> and the first account will get slot 0.
\<close>

theorem new_state_machine_empty:
  assumes "hasher_ok H" and "160 \<le> 8 * Size H" and "noCollision (\<lambda>_. None) (initWrites H stateTreeHeight)"
  shows "\<exists>sm d'. NewStateMachine mem_iface H NewDB = (Ok sm, d') \<and>
    implements ser H (mem_view (smDb sm)) (smTree sm) (0, Map.empty) Map.empty \<and>
    (\<forall>a. getAccountInfo mem_iface ser sm a = Err ErrAccountNotFound)"
proof -
  have e: "accKey (mem_view NewDB) = Map.empty" "lastKeyAt (mem_view NewDB) = None"
    "nodes (mem_view NewDB) (Some NamespaceStateTrie) = Map.empty"
    by (simp_all add: accKey_def lastKeyAt_def nodes_def mem_view_def NewDB_def fun_eq_iff)
  have "nodes (mem_view NewDB) (Some NamespaceStateTrie) initMarker = None"
    "noCollision (nodes (mem_view NewDB) (Some NamespaceStateTrie)) (initWrites H stateTreeHeight)"
    using assms(3) e(3) by simp_all
  from mem.NewStateMachine_stands [OF assms(1,2) e(1,2) this, of ser] show ?thesis
    by (auto simp: mem.stands_def getAccountInfo_ledger)
qed

theorem new_state_machine_empty_witness:
  "\<exists>sm d'. NewStateMachine mem_iface chainHasher NewDB = (Ok sm, d') \<and>
     (\<forall>a. getAccountInfo mem_iface sampleSerializer sm a = Err ErrAccountNotFound)"
proof -
  have "noCollision (\<lambda>_. None) (initWrites chainHasher stateTreeHeight)"
    using chainHasher_fresh by (simp add: stateTreeHeight_def)
  from new_state_machine_empty [OF chainHasher_ok(1) _ this, of sampleSerializer] show ?thesis by auto
qed

section \<open>Three behaviours that surprise\<close>

text \<open>
  A transfer to oneself that is accepted mints its amount: the recipient's record, built
  from the copy read first, is written last, so the debit and the nonce step are lost. The
  same transaction can then be accepted again.
\<close>

theorem self_transfer_mints:
  assumes "well_posed ser H sm sl L (TransferTransaction s s tok amount nonce sig)"
    and "ApplyTransaction mem_iface H ser sm (TransferTransaction s s tok amount nonce sig) = (Ok ups, sm')"
    and "getTokenIndex mem_iface sm tok = Ok ti" and "getAccountInfo mem_iface ser sm s = Ok old"
  shows "balanceAt ser sm' s (unat ti) = balanceAt ser sm s (unat ti) + amount \<and>
    (\<exists>new. getAccountInfo mem_iface ser sm' s = Ok new \<and> TransferNonces new ! unat ti = nonce)"
proof (rule well_posed_Ok [OF assms(1,2)])
  let ?tx = "TransferTransaction s s tok amount nonce sig"
  fix ti' us
  assume R: "tokens sm (tx_Token ?tx) = Ok ti'" "fst (ledgerApply (tokens sm) L ?tx) = Ok us"
    "implements ser H (mem_view (smDb sm')) (smTree sm') (slotsAfter (tokens sm) L ?tx sl)
      (snd (ledgerApply (tokens sm) L ?tx))"
  have [simp]: "ti' = ti" using R(1) assms(3) by (simp add: mem.getTokenIndex_view)
  note G = getAccountInfo_ledger [OF well_posed_implements [OF assms(1)]] getAccountInfo_ledger [OF R(3)]
  note B = balanceAt_ledger [OF well_posed_implements [OF assms(1)]] balanceAt_ledger [OF R(3)]
  have L: "L s = Some old" using assms(4) by (simp add: G split: option.splits)
  have ok: "fst (ledgerTransfer ti L ?tx) = Ok us" "snd (ledgerApply (tokens sm) L ?tx) = snd (ledgerTransfer ti L ?tx)"
    using R(1,2) by (simp_all add: ledgerApply_def)
  have self: "snd (ledgerTransfer ti L ?tx) = L(s \<mapsto> credit (unat ti) amount old)"
    using ledgerTransfer_self [OF ok(1)] L by simp
  have "unat ti < length (Balances old) \<and> TransferNonces old ! unat ti = nonce"
    using ok(1) by (rule ledgerTransfer_info) (use L in \<open>simp add: ledgerOpen_def\<close>)
  moreover have "length (TransferNonces old) = length (Balances old)"
    using well_posed_wf(1) [OF assms(1) L] by (simp add: account_wf_def)
  ultimately have "TransferNonces (credit (unat ti) amount old) ! unat ti = nonce"
    by (simp add: credit_def expand_def Let_def nth_padTo)
  then show ?thesis
    unfolding B by (simp add: G ok(2) self balanceIn_update balanceIn_def L balanceOf_credit)
qed

theorem self_transfer_mints_witness:
  "\<exists>ups sm'. ApplyTransaction mem_iface sampleHasher sampleSerializer sampleOpened sampleSelf = (Ok ups, sm') \<and>
     balanceAt sampleSerializer sm' (sampleAddress 1) 0 = balanceAt sampleSerializer sampleOpened (sampleAddress 1) 0 + 2"
proof -
  obtain ups sm' where run: "ApplyTransaction mem_iface sampleHasher sampleSerializer sampleOpened sampleSelf = (Ok ups, sm')"
    by (rule well_posed_refines [OF sampleSelf_posed])
      (auto simp: sampleSelf_def ledgerApply_def ledgerTransfer_def ledgerOpen_def Let_def)
  have ti: "getTokenIndex mem_iface sampleOpened sampleToken = Ok 0" by (simp add: mem.getTokenIndex_view)
  have old: "getAccountInfo mem_iface sampleSerializer sampleOpened (sampleAddress 1) = Ok sampleAccount"
    by (simp add: getAccountInfo_ledger [OF sampleOpened_implements])
  from self_transfer_mints [OF sampleSelf_posed [unfolded sampleSelf_def] run [unfolded sampleSelf_def] ti old]
  show ?thesis using run by auto
qed

text \<open>
  A deposit of a negative amount is refused, but only after the account it names has been
  opened: the error leaves a new account, and a state root over it, behind.
\<close>

theorem failed_deposit_opens_account:
  assumes "well_posed ser H sm sl L (DepositTransaction a tok amount sig)" and "amount < 0"
    and "getTokenIndex mem_iface sm tok = Ok ti" and "getAccountInfo mem_iface ser sm a = Err ErrAccountNotFound"
  shows "\<exists>sm'. ApplyTransaction mem_iface H ser sm (DepositTransaction a tok amount sig) = (Err ErrInvalidAmount, sm') \<and>
    getAccountInfo mem_iface ser sm' a = Ok (emptyAccount a (ti + 1))"
proof (rule well_posed_refines [OF assms(1)])
  let ?tx = "DepositTransaction a tok amount sig"
  fix r sm'
  assume R: "ApplyTransaction mem_iface H ser sm ?tx = (r, sm')"
    "implements ser H (mem_view (smDb sm')) (smTree sm') (slotsAfter (tokens sm) L ?tx sl)
      (snd (ledgerApply (tokens sm) L ?tx))"
    "case fst (ledgerApply (tokens sm) L ?tx) of
       Err e \<Rightarrow> r = Err e
     | Panic p \<Rightarrow> r = Panic p
     | Ok us \<Rightarrow> (\<exists>es. r = Ok (Some \<lparr>su_Transaction = ?tx, su_StateRoot = copyN 32 (root (smTree sm')),
           su_Entries = es\<rparr>) \<and>
         list_all2 (entry_matches ser H (mem_view (smDb sm')) (smTree sm') (snd (ledgerApply (tokens sm) L ?tx))) us es)"
  note G = getAccountInfo_ledger [OF well_posed_implements [OF assms(1)]] getAccountInfo_ledger [OF R(2)]
  have T: "tokens sm tok = Ok ti" using assms(3) by (simp add: mem.getTokenIndex_view)
  have "L a = None" using assms(4) by (simp add: G split: option.splits)
  then have A: "ledgerApply (tokens sm) L ?tx = (Err ErrInvalidAmount, L(a \<mapsto> emptyAccount a (ti + 1)))"
    using T assms(2) by (simp add: ledgerApply_def ledgerDeposit_def ledgerOpen_def Let_def)
  then show ?thesis using R(1,3) by (simp add: G)
qed

theorem failed_deposit_opens_account_witness:
  "\<exists>sm'. ApplyTransaction mem_iface sampleHasher sampleSerializer sampleOpened sampleBadDeposit = (Err ErrInvalidAmount, sm') \<and>
     getAccountInfo mem_iface sampleSerializer sm' (sampleAddress 2) = Ok (emptyAccount (sampleAddress 2) 1)"
proof -
  have ti: "getTokenIndex mem_iface sampleOpened sampleToken = Ok 0" by (simp add: mem.getTokenIndex_view)
  have new: "getAccountInfo mem_iface sampleSerializer sampleOpened (sampleAddress 2) = Err ErrAccountNotFound"
    by (simp add: getAccountInfo_ledger [OF sampleOpened_implements] sampleAddress_def)
  from failed_deposit_opens_account [OF sampleBadDeposit_posed [unfolded sampleBadDeposit_def] _ ti new]
  show ?thesis by (simp add: sampleBadDeposit_def)
qed

text \<open>
  A sender whose balances end just before the token's index is not refused: the guard
  compares with \<^verbatim>\<open>>\<close> instead of \<^verbatim>\<open>>=\<close> and the index expression after it panics.
\<close>

theorem transfer_index_at_length_panics:
  assumes "well_posed ser H sm sl L (TransferTransaction s r tok amount nonce sig)" and "0 \<le> amount"
    and "getTokenIndex mem_iface sm tok = Ok ti" and "getAccountInfo mem_iface ser sm s = Ok sinfo"
    and "length (Balances sinfo) = unat ti"
  shows "fst (ApplyTransaction mem_iface H ser sm (TransferTransaction s r tok amount nonce sig)) = Panic IndexOutOfRange"
proof (rule well_posed_refines [OF assms(1)])
  let ?tx = "TransferTransaction s r tok amount nonce sig"
  fix r' sm'
  assume R: "ApplyTransaction mem_iface H ser sm ?tx = (r', sm')"
    "case fst (ledgerApply (tokens sm) L ?tx) of
       Err e \<Rightarrow> r' = Err e
     | Panic p \<Rightarrow> r' = Panic p
     | Ok us \<Rightarrow> (\<exists>es. r' = Ok (Some \<lparr>su_Transaction = ?tx, su_StateRoot = copyN 32 (root (smTree sm')),
           su_Entries = es\<rparr>) \<and>
         list_all2 (entry_matches ser H (mem_view (smDb sm')) (smTree sm') (snd (ledgerApply (tokens sm) L ?tx))) us es)"
  have T: "tokens sm tok = Ok ti" using assms(3) by (simp add: mem.getTokenIndex_view)
  have "L s = Some sinfo"
    using assms(4) by (simp add: getAccountInfo_ledger [OF well_posed_implements [OF assms(1)]] split: option.splits)
  then have "snd (ledgerOpen L r ti) s = Some sinfo" using ledgerOpen_old [of L s r ti] by simp
  then have "fst (ledgerApply (tokens sm) L ?tx) = Panic IndexOutOfRange"
    using T assms(2,5) by (simp add: ledgerApply_def ledgerTransfer_def Let_def case_prod_unfold)
  then show ?thesis using R by simp
qed

theorem transfer_index_at_length_panics_witness:
  "fst (ApplyTransaction mem_iface sampleHasher sampleSerializer sampleTwoTokens sampleEdge) = Panic IndexOutOfRange"
proof -
  have "tokenAt (mem_view (smDb sampleTwoTokens)) sampleToken2 = Some [1]"
    by (simp add: tokenAt_def sampleTwoTokens_def mem_view_def mem_Set_def update_conv')
  then have ti: "getTokenIndex mem_iface sampleTwoTokens sampleToken2 = Ok 1"
    by (simp add: mem.getTokenIndex_view tokenIndexOf_def bigUint64_def setBytes_def)
  have s: "getAccountInfo mem_iface sampleSerializer sampleTwoTokens (sampleAddress 1) = Ok sampleAccount"
    by (simp add: getAccountInfo_ledger [OF well_posed_implements [OF sampleEdge_posed]])
  show ?thesis
    unfolding sampleEdge_def
    by (rule transfer_index_at_length_panics [OF sampleEdge_posed [unfolded sampleEdge_def] _ ti s]) simp_all
qed

end
