(* ===== verification/Ledger_Runs.thy ===== *)
theory Ledger_Runs
  imports Ledger_Facts Replay
begin

text \<open>
  What one transaction does to two sums of the ledger: the supply of a token, over all
  accounts, and the number of nonces an account has used.
\<close>

section \<open>Supply\<close>

definition ledgerSupply :: "ledger \<Rightarrow> nat \<Rightarrow> int" where
  "ledgerSupply L i = (\<Sum>a\<in>dom L. balanceIn L a i)"

text \<open>
  What an accepted transaction adds to the supply of the token with index \<open>i\<close>: the amount of
  a deposit, the negated amount of a withdrawal, nothing for a transfer.
\<close>

definition issued :: "(bytes \<Rightarrow> u64 outcome) \<Rightarrow> nat \<Rightarrow> Transaction \<times> bool \<Rightarrow> int" where
  "issued T i = (\<lambda>(tx, accepted).
     case T (tx_Token tx) of
       Ok ti \<Rightarrow>
         if accepted \<and> unat ti = i
         then (case GetTransactionType tx of
             TransactionTypeDeposit \<Rightarrow> tx_Amount tx
           | TransactionTypeWithdraw \<Rightarrow> - tx_Amount tx
           | TransactionTypeTransfer \<Rightarrow> 0)
         else 0
     | _ \<Rightarrow> 0)"

lemma ledgerSupply_superset: "finite S \<Longrightarrow> dom L \<subseteq> S \<Longrightarrow> ledgerSupply L i = (\<Sum>a\<in>S. balanceIn L a i)"
  unfolding ledgerSupply_def by (rule sum.mono_neutral_left) (auto simp: balanceIn_def split: option.splits)

lemma dom_ledgerOpen [simp]: "dom (snd (ledgerOpen L a ti)) = insert a (dom L)"
  by (auto simp: ledgerOpen_def split: option.splits)

lemma dom_ledgerApply: "dom (snd (ledgerApply T L tx)) \<subseteq> set (tx_addresses tx) \<union> dom L"
proof (cases "T (tx_Token tx)")
  case (Ok ti)
  have D: "dom (snd (ledgerDeposit ti L tx)) \<subseteq> insert (tx_Account tx) (dom L)"
    using dom_ledgerOpen [of L "tx_Account tx" ti]
    by (auto simp: ledgerDeposit_def Let_def case_prod_unfold simp del: dom_ledgerOpen split: if_splits)
  have W: "dom (snd (ledgerWithdraw ti L tx)) \<subseteq> insert (tx_Account tx) (dom L)"
    by (auto simp: ledgerWithdraw_def Let_def split: option.splits if_splits)
  have F: "dom (snd (ledgerTransfer ti L tx)) \<subseteq> insert (tx_Recipient tx) (dom L)"
    using dom_ledgerOpen [of L "tx_Recipient tx" ti]
    by (auto simp: ledgerTransfer_def Let_def case_prod_unfold simp del: dom_ledgerOpen split: option.splits if_splits)
  show ?thesis
    using D W F Ok by (cases "GetTransactionType tx") (simp_all add: ledgerApply_def tx_addresses_def)
qed (auto simp: ledgerApply_def)

lemma finite_ledgerApply: "finite (dom L) \<Longrightarrow> finite (dom (snd (ledgerApply T L tx)))"
  using dom_ledgerApply by (rule finite_subset) simp

text \<open>An accepted deposit, withdrawal or transfer between two parties, balance by balance.\<close>

definition balanceChange :: "Transaction \<Rightarrow> bytes \<Rightarrow> int" where
  "balanceChange tx a = (case tx of
     DepositTransaction b tok amount sig \<Rightarrow> (if a = b then amount else 0)
   | WithdrawTransaction b tok amount nonce sig \<Rightarrow> (if a = b then - amount else 0)
   | TransferTransaction s r tok amount nonce sig \<Rightarrow> (if a = r then amount else 0) - (if a = s then amount else 0))"

lemma ledgerApply_change:
  assumes "T (tx_Token tx) = Ok ti" and "fst (ledgerApply T L tx) = Ok us" and "distinctParties tx"
  shows "balanceIn (snd (ledgerApply T L tx)) a i = balanceIn L a i + (if i = unat ti then balanceChange tx a else 0)"
proof (cases tx)
  case (DepositTransaction b tok amount sig)
  then show ?thesis
    using ledgerDeposit_balance [of ti L tx us a i] assms by (simp add: ledgerApply_def balanceChange_def)
next
  case (WithdrawTransaction b tok amount nonce sig)
  then show ?thesis
    using ledgerWithdraw_balance [of ti L tx us a i] assms by (simp add: ledgerApply_def balanceChange_def)
next
  case (TransferTransaction s r tok amount nonce sig)
  then show ?thesis
    using ledgerTransfer_balance [of ti L tx us a i] assms
    by (simp add: ledgerApply_def balanceChange_def distinctParties_def)
qed

lemma ledgerApply_rejected_balance:
  assumes "\<not> is_Ok (fst (ledgerApply T L tx))"
  shows "balanceIn (snd (ledgerApply T L tx)) a i = balanceIn L a i"
  using ledgerApply_rejected [OF assms] by auto

text \<open>The parties of an accepted transaction have accounts afterwards.\<close>

lemma ledgerApply_supply:
  assumes "finite (dom L)" and "distinctParties tx"
  shows "ledgerSupply (snd (ledgerApply T L tx)) i = ledgerSupply L i + issued T i (tx, is_Ok (fst (ledgerApply T L tx)))"
proof (cases "is_Ok (fst (ledgerApply T L tx))")
  case True
  then obtain us where us: "fst (ledgerApply T L tx) = Ok us" by (auto simp: is_Ok_iff)
  then obtain ti where ti: "T (tx_Token tx) = Ok ti" by (auto simp: ledgerApply_def split: outcome.splits)
  define P where "P = (case tx of TransferTransaction s r _ _ _ _ \<Rightarrow> {s, r} | _ \<Rightarrow> {tx_Account tx})"
  define S where "S = P \<union> (set (tx_addresses tx) \<union> dom L)"
  have P: "finite P" "P \<subseteq> S" by (auto simp: P_def S_def split: Transaction.splits)
  have S: "finite S" "dom L \<subseteq> S" "dom (snd (ledgerApply T L tx)) \<subseteq> S"
    using assms(1) P dom_ledgerApply [of T L tx] by (auto simp: S_def)
  have sum: "(\<Sum>a\<in>S. balanceChange tx a) =
      (case tx of DepositTransaction _ _ amount _ \<Rightarrow> amount | WithdrawTransaction _ _ amount _ _ \<Rightarrow> - amount | _ \<Rightarrow> 0)"
    using S(1) P(2) by (cases tx) (simp_all add: balanceChange_def P_def sum_subtractf)
  have "ledgerSupply (snd (ledgerApply T L tx)) i =
      (\<Sum>a\<in>S. balanceIn L a i + (if i = unat ti then balanceChange tx a else 0))"
    using S by (simp add: ledgerSupply_superset ledgerApply_change [OF ti us assms(2)])
  also have "\<dots> = ledgerSupply L i + (if i = unat ti then \<Sum>a\<in>S. balanceChange tx a else 0)"
    using S by (simp add: ledgerSupply_superset sum.distrib)
  finally show ?thesis using True ti sum by (cases tx) (auto simp: issued_def)
next
  case False
  let ?L = "snd (ledgerApply T L tx)"
  have S: "finite (dom ?L \<union> dom L)" using assms(1) finite_ledgerApply by simp
  then have "ledgerSupply ?L i = (\<Sum>a\<in>dom ?L \<union> dom L. balanceIn L a i)"
    by (simp add: ledgerSupply_superset [of "dom ?L \<union> dom L"] ledgerApply_rejected_balance [OF False])
  also have "\<dots> = ledgerSupply L i" using S by (simp add: ledgerSupply_superset [symmetric])
  finally show ?thesis using False by (simp add: issued_def split: outcome.splits)
qed

section \<open>Nonces\<close>

text \<open>The nonce an account has to use next, for transfers or for withdrawals, and who uses it.\<close>

definition nonceOf :: "TransactionType \<Rightarrow> AccountInfo \<Rightarrow> nat \<Rightarrow> int" where
  "nonceOf k info i =
     (let ns = (if k = TransactionTypeWithdraw then WithdrawNonces info else TransferNonces info)
      in if i < length ns then ns ! i else 0)"

definition nonceIn :: "TransactionType \<Rightarrow> ledger \<Rightarrow> bytes \<Rightarrow> nat \<Rightarrow> int" where
  "nonceIn k L a i = (case L a of None \<Rightarrow> 0 | Some info \<Rightarrow> nonceOf k info i)"

definition spender :: "Transaction \<Rightarrow> bytes" where
  "spender tx = (case GetTransactionType tx of TransactionTypeTransfer \<Rightarrow> tx_Sender tx | _ \<Rightarrow> tx_Account tx)"

definition spends ::
  "(bytes \<Rightarrow> u64 outcome) \<Rightarrow> TransactionType \<Rightarrow> bytes \<Rightarrow> nat \<Rightarrow> Transaction \<times> bool \<Rightarrow> bool" where
  "spends T k a i = (\<lambda>(tx, accepted).
     accepted \<and> GetTransactionType tx = k \<and> spender tx = a \<and>
     (case T (tx_Token tx) of Ok ti \<Rightarrow> unat ti = i | _ \<Rightarrow> False))"

lemma nonceIn_update: "nonceIn k (L(a \<mapsto> info)) b i = (if b = a then nonceOf k info i else nonceIn k L b i)"
  by (simp add: nonceIn_def)

lemma nonceOf_emptyAccount [simp]: "nonceOf k (emptyAccount a n) i = 0"
  by (simp add: nonceOf_def emptyAccount_def)

lemma nonceIn_open [simp]: "nonceIn k (snd (ledgerOpen L a ti)) b i = nonceIn k L b i"
  by (simp add: ledgerOpen_def nonceIn_def split: option.splits)

lemma nonceOf_opened: "nonceOf k (fst (fst (ledgerOpen L a ti))) i = nonceIn k L a i"
  by (simp add: ledgerOpen_def nonceIn_def split: option.splits)

lemma nonceOf_credit [simp]: "nonceOf k (credit i amount info) j = nonceOf k info j"
  by (auto simp: nonceOf_def credit_def expand_def Let_def padTo_def nth_append)

lemma nonceOf_debit [simp]: "nonceOf k (debit i amount info) j = nonceOf k info j"
  by (simp add: nonceOf_def debit_def)

lemma nonceOf_next:
  assumes "account_wf info" and "i < length (Balances info)"
  shows "nonceOf k (nextTransfer i info) j =
      nonceOf k info j + (if k \<noteq> TransactionTypeWithdraw \<and> j = i then 1 else 0)"
    and "nonceOf k (nextWithdraw i info) j =
      nonceOf k info j + (if k = TransactionTypeWithdraw \<and> j = i then 1 else 0)"
  using assms by (auto simp: nonceOf_def nextTransfer_def nextWithdraw_def account_wf_def nth_list_update)

text \<open>
  An accepted transfer or withdrawal carries the nonce that is next, and moves it on by one;
  nothing else does.
\<close>

lemma ledgerDeposit_nonce: "nonceIn k (snd (ledgerDeposit ti L tx)) a i = nonceIn k L a i"
proof -
  obtain info new L1 where op: "ledgerOpen L (tx_Account tx) ti = ((info, new), L1)" by (metis prod.collapse)
  then have "nonceIn k L1 a i = nonceIn k L a i" "nonceOf k info i = nonceIn k L (tx_Account tx) i"
    using nonceIn_open [of k L "tx_Account tx" ti a i] nonceOf_opened [of k L "tx_Account tx" ti i] by simp_all
  then show ?thesis by (auto simp: ledgerDeposit_def op Let_def nonceIn_update)
qed

lemma ledgerWithdraw_nonce:
  assumes "fst (ledgerWithdraw ti L tx) = Ok us" and "\<And>a info. L a = Some info \<Longrightarrow> account_wf info"
  shows "tx_Nonce tx = nonceIn TransactionTypeWithdraw L (tx_Account tx) (unat ti) \<and>
    nonceIn k (snd (ledgerWithdraw ti L tx)) a i = nonceIn k L a i +
      (if k = TransactionTypeWithdraw \<and> a = tx_Account tx \<and> i = unat ti then 1 else 0)"
  using assms(1)
proof (rule ledgerWithdraw_info)
  fix info
  assume S: "L (tx_Account tx) = Some info" "unat ti < length (Balances info)" "WithdrawNonces info ! unat ti = tx_Nonce tx"
    "snd (ledgerWithdraw ti L tx) = L(tx_Account tx \<mapsto> debit (unat ti) (tx_Amount tx) (nextWithdraw (unat ti) info))"
  have wf: "account_wf info" using assms(2) S(1) by blast
  then have "nonceOf TransactionTypeWithdraw info (unat ti) = tx_Nonce tx"
    using S(2,3) by (simp add: nonceOf_def account_wf_def)
  then show ?thesis using S(1,4) nonceOf_next(2) [OF wf S(2)] by (simp add: nonceIn_update) (simp add: nonceIn_def)
qed

lemma ledgerTransfer_nonce:
  assumes "fst (ledgerTransfer ti L tx) = Ok us" and "tx_Sender tx \<noteq> tx_Recipient tx"
    and "\<And>a info. L a = Some info \<Longrightarrow> account_wf info"
  shows "tx_Nonce tx = nonceIn TransactionTypeTransfer L (tx_Sender tx) (unat ti) \<and>
    nonceIn k (snd (ledgerTransfer ti L tx)) a i = nonceIn k L a i +
      (if k \<noteq> TransactionTypeWithdraw \<and> a = tx_Sender tx \<and> i = unat ti then 1 else 0)"
  using assms(1)
proof (rule ledgerTransfer_info)
  fix info
  assume S: "snd (ledgerOpen L (tx_Recipient tx) ti) (tx_Sender tx) = Some info"
    "unat ti < length (Balances info)" "TransferNonces info ! unat ti = tx_Nonce tx"
    "snd (ledgerTransfer ti L tx) = (snd (ledgerOpen L (tx_Recipient tx) ti))
      (tx_Sender tx \<mapsto> debit (unat ti) (tx_Amount tx) (nextTransfer (unat ti) info),
       tx_Recipient tx \<mapsto> credit (unat ti) (tx_Amount tx) (fst (fst (ledgerOpen L (tx_Recipient tx) ti))))"
  have L: "L (tx_Sender tx) = Some info"
    using S(1) assms(2) by (auto simp: ledgerOpen_def split: option.splits)
  then have wf: "account_wf info" using assms(3) by blast
  then have "nonceOf TransactionTypeTransfer info (unat ti) = tx_Nonce tx"
    using S(2,3) by (simp add: nonceOf_def account_wf_def)
  then show ?thesis
    using S(4) L assms(2) nonceOf_next(1) [OF wf S(2)]
    by (simp add: nonceIn_update nonceOf_opened) (simp add: nonceIn_def)
qed

lemma ledgerApply_rejected_nonce:
  assumes "\<not> is_Ok (fst (ledgerApply T L tx))"
  shows "nonceIn k (snd (ledgerApply T L tx)) a i = nonceIn k L a i"
  using ledgerApply_rejected [OF assms] by auto

lemma ledgerApply_nonce:
  assumes "distinctParties tx" and "\<And>a info. L a = Some info \<Longrightarrow> account_wf info" and "k \<noteq> TransactionTypeDeposit"
  shows "nonceIn k (snd (ledgerApply T L tx)) a i =
      nonceIn k L a i + (if spends T k a i (tx, is_Ok (fst (ledgerApply T L tx))) then 1 else 0)"
    and "spends T k a i (tx, is_Ok (fst (ledgerApply T L tx))) \<Longrightarrow> tx_Nonce tx = nonceIn k L a i"
proof -
  have "nonceIn k (snd (ledgerApply T L tx)) a i =
      nonceIn k L a i + (if spends T k a i (tx, is_Ok (fst (ledgerApply T L tx))) then 1 else 0) \<and>
    (spends T k a i (tx, is_Ok (fst (ledgerApply T L tx))) \<longrightarrow> tx_Nonce tx = nonceIn k L a i)"
  proof (cases "is_Ok (fst (ledgerApply T L tx))")
    case True
    then obtain us where us: "fst (ledgerApply T L tx) = Ok us" by (auto simp: is_Ok_iff)
    then obtain ti where ti: "T (tx_Token tx) = Ok ti" by (auto simp: ledgerApply_def split: outcome.splits)
    show ?thesis
    proof (cases "GetTransactionType tx")
      case TransactionTypeDeposit
      then show ?thesis
        using ti assms(3) ledgerDeposit_nonce [of k ti L tx a i] by (auto simp: ledgerApply_def spends_def)
    next
      case TransactionTypeWithdraw
      then have "fst (ledgerWithdraw ti L tx) = Ok us" using us ti by (simp add: ledgerApply_def)
      from ledgerWithdraw_nonce [OF this assms(2), where k = k and a = a and i = i] show ?thesis
        using ti TransactionTypeWithdraw us by (auto simp: ledgerApply_def spends_def spender_def)
    next
      case TransactionTypeTransfer
      then have "fst (ledgerTransfer ti L tx) = Ok us" using us ti by (simp add: ledgerApply_def)
      moreover have "tx_Sender tx \<noteq> tx_Recipient tx"
        using assms(1) TransactionTypeTransfer by (simp add: distinctParties_def)
      ultimately show ?thesis
        using ledgerTransfer_nonce [of ti L tx us k a i] assms(2,3) ti TransactionTypeTransfer us
        by (cases k) (auto simp: ledgerApply_def spends_def spender_def)
    qed
  qed (simp add: ledgerApply_rejected_nonce spends_def)
  then show "nonceIn k (snd (ledgerApply T L tx)) a i =
      nonceIn k L a i + (if spends T k a i (tx, is_Ok (fst (ledgerApply T L tx))) then 1 else 0)"
    and "spends T k a i (tx, is_Ok (fst (ledgerApply T L tx))) \<Longrightarrow> tx_Nonce tx = nonceIn k L a i"
    by blast+
qed

end
