(* ===== verification/Ledger_Bounds.thy ===== *)
theory Ledger_Bounds
  imports Ledger_Runs
begin

text \<open>
  Why nothing overflows. The code has no check on the size of a balance or of a nonce, and the
  ABI encoding of a record needs every number to fit into 256 bits. What keeps them small is
  the supply: no balance exceeds it, and only deposits add to it.
\<close>

definition ledger_wf :: "ledger \<Rightarrow> bool" where
  "ledger_wf L \<longleftrightarrow> finite (dom L) \<and> (\<forall>a info. L a = Some info \<longrightarrow> account_wf info \<and> Account info = a)"

lemma ledger_wfD:
  assumes "ledger_wf L"
  shows "finite (dom L)" and "L a = Some info \<Longrightarrow> account_wf info" and "L a = Some info \<Longrightarrow> Account info = a"
  using assms by (simp_all add: ledger_wf_def)

lemma ledger_wf_length: "ledger_wf L \<Longrightarrow> a \<in> dom L \<Longrightarrow> length a = 20"
  by (auto simp: ledger_wf_def account_wf_def account_fits_def)

lemma nth_of_fits: "list_all uint256 xs \<Longrightarrow> i < length xs \<Longrightarrow> 0 \<le> xs ! i"
  by (simp add: list_all_length uint256_def)

lemma ledger_wf_nonneg:
  assumes "ledger_wf L"
  shows "0 \<le> balanceIn L a i" and "0 \<le> nonceIn k L a i"
  using ledger_wfD(2) [OF assms, of a]
  by (auto simp: balanceIn_def balanceOf_def nonceIn_def nonceOf_def account_wf_def account_fits_def
      intro: nth_of_fits split: option.splits)

section \<open>Balances stay between zero and the supply\<close>

lemma ledgerApply_Ok_token:
  assumes "fst (ledgerApply T L tx) = Ok us"
  obtains ti where "T (tx_Token tx) = Ok ti"
  using assms by (auto simp: ledgerApply_def split: outcome.splits)

lemma ledgerApply_nonneg:
  assumes "\<And>a i. 0 \<le> balanceIn L a i" and "distinctParties tx"
  shows "0 \<le> balanceIn (snd (ledgerApply T L tx)) a i"
proof (cases "is_Ok (fst (ledgerApply T L tx))")
  case True
  then obtain us where us: "fst (ledgerApply T L tx) = Ok us" by (auto simp: is_Ok_iff)
  then obtain ti where ti: "T (tx_Token tx) = Ok ti" by (rule ledgerApply_Ok_token)
  show ?thesis
  proof (cases tx)
    case (DepositTransaction b tok amount sig)
    then show ?thesis
      using ledgerDeposit_balance [of ti L tx us a i] us ti assms(1) [of a i] by (simp add: ledgerApply_def)
  next
    case (WithdrawTransaction b tok amount nonce sig)
    then show ?thesis
      using ledgerWithdraw_balance [of ti L tx us a i] us ti assms(1) [of a i] by (auto simp: ledgerApply_def)
  next
    case (TransferTransaction s r tok amount nonce sig)
    then show ?thesis
      using ledgerTransfer_balance [of ti L tx us a i] us ti assms(1) [of a i] assms(2)
      by (auto simp: ledgerApply_def distinctParties_def)
  qed
qed (simp add: ledgerApply_rejected_balance assms(1))

lemma balanceIn_le_supply:
  assumes "finite (dom L)" and "\<And>a. 0 \<le> balanceIn L a i"
  shows "balanceIn L a i \<le> ledgerSupply L i"
proof (cases "a \<in> dom L")
  case True
  with member_le_sum [OF True, of "\<lambda>a. balanceIn L a i"] assms show ?thesis by (simp add: ledgerSupply_def)
next
  case False
  then show ?thesis using assms(2) by (auto simp: balanceIn_def ledgerSupply_def sum_nonneg split: option.splits)
qed

text \<open>What a transaction may add to the supply, whether it is accepted or not.\<close>

definition offered :: "(bytes \<Rightarrow> u64 outcome) \<Rightarrow> nat \<Rightarrow> Transaction \<Rightarrow> int" where
  "offered T i tx =
     (case (T (tx_Token tx), GetTransactionType tx) of
        (Ok ti, TransactionTypeDeposit) \<Rightarrow> if unat ti = i then max 0 (tx_Amount tx) else 0
      | _ \<Rightarrow> 0)"

lemma offered_nonneg: "0 \<le> offered T i tx"
  by (simp add: offered_def split: outcome.splits TransactionType.splits)

lemma issued_le_offered:
  assumes "accepted \<longrightarrow> is_Ok (fst (ledgerApply T L tx))"
  shows "issued T i (tx, accepted) \<le> offered T i tx"
proof (cases accepted)
  case True
  then obtain us where us: "fst (ledgerApply T L tx) = Ok us" using assms by (auto simp: is_Ok_iff)
  then obtain ti where ti: "T (tx_Token tx) = Ok ti" by (rule ledgerApply_Ok_token)
  then show ?thesis
    using us ledgerWithdraw_balance [of ti L tx us] by (cases tx) (auto simp: issued_def offered_def ledgerApply_def)
qed (simp add: issued_def offered_nonneg split: outcome.splits)

section \<open>The records written\<close>

lemma ledgerApply_records:
  assumes "fst (ledgerApply T L tx) = Ok us" and "ledger_wf L" and "distinctParties tx" and "u \<in> set us"
  shows "snd (ledgerApply T L tx) (Account (upd_Info u)) = Some (upd_Info u)"
proof -
  obtain ti where ti: "T (tx_Token tx) = Ok ti" using assms(1) by (rule ledgerApply_Ok_token)
  have acc: "\<And>a info. L a = Some info \<Longrightarrow> Account info = a" by (rule ledger_wfD(3) [OF assms(2)])
  show ?thesis
  proof (cases tx)
    case (DepositTransaction b tok amount sig)
    with assms(1) ti have ok: "fst (ledgerDeposit ti L tx) = Ok us" by (simp add: ledgerApply_def)
    with assms(4) have "Account (upd_Info u) = tx_Account tx" using ledgerDeposit_Ok [OF ok acc] by auto
    moreover have "snd (ledgerDeposit ti L tx) (tx_Account tx) = Some (upd_Info u)"
      using ok assms(4) by (auto simp: ledgerDeposit_def Let_def case_prod_unfold split: if_splits)
    ultimately show ?thesis using DepositTransaction ti by (simp add: ledgerApply_def)
  next
    case (WithdrawTransaction b tok amount nonce sig)
    with assms(1) ti have ok: "fst (ledgerWithdraw ti L tx) = Ok us" by (simp add: ledgerApply_def)
    with assms(4) have "Account (upd_Info u) = tx_Account tx" using ledgerWithdraw_Ok [OF ok acc] by auto
    moreover have "snd (ledgerWithdraw ti L tx) (tx_Account tx) = Some (upd_Info u)"
      using ok assms(4) by (auto simp: ledgerWithdraw_def Let_def split: option.splits if_splits)
    ultimately show ?thesis using WithdrawTransaction ti by (simp add: ledgerApply_def)
  next
    case (TransferTransaction s r tok amount nonce sig)
    with assms(1) ti have ok: "fst (ledgerTransfer ti L tx) = Ok us" by (simp add: ledgerApply_def)
    have parties: "tx_Sender tx \<noteq> tx_Recipient tx" using assms(3) TransferTransaction by (simp add: distinctParties_def)
    from ledgerTransfer_Ok [OF ok acc parties] obtain v w where
      us: "us = [v, w]" "Account (upd_Info v) = tx_Sender tx" "Account (upd_Info w) = tx_Recipient tx" by blast
    have "snd (ledgerTransfer ti L tx) (tx_Sender tx) = Some (upd_Info v)"
      "snd (ledgerTransfer ti L tx) (tx_Recipient tx) = Some (upd_Info w)"
      using ok us(1) parties
      by (auto simp: ledgerTransfer_def Let_def case_prod_unfold split: option.splits if_splits)
    then show ?thesis using us assms(4) TransferTransaction ti by (auto simp: ledgerApply_def)
  qed
qed

text \<open>What the coming transactions leave room for.\<close>

definition ledger_bounded :: "(bytes \<Rightarrow> u64 outcome) \<Rightarrow> ledger \<Rightarrow> Transaction list \<Rightarrow> bool" where
  "ledger_bounded T L txs \<longleftrightarrow>
     (\<forall>i. ledgerSupply L i + sum_list (map (offered T i) txs) < 2 ^ 256) \<and>
     (\<forall>k a i. k \<noteq> TransactionTypeDeposit \<longrightarrow> nonceIn k L a i + int (length txs) < 2 ^ 256)"

lemma sum_offered_nonneg: "0 \<le> sum_list (map (offered T i) txs)"
  by (rule sum_list_nonneg) (auto simp: offered_nonneg)

lemma ledger_bounded_step:
  assumes "ledger_wf L" and "distinctParties tx" and "ledger_bounded T L (tx # txs)"
  shows "ledger_bounded T (snd (ledgerApply T L tx)) txs"
proof -
  let ?L = "snd (ledgerApply T L tx)" and ?ok = "is_Ok (fst (ledgerApply T L tx))"
  have "ledgerSupply ?L i + sum_list (map (offered T i) txs) < 2 ^ 256" for i
  proof -
    have "ledgerSupply ?L i = ledgerSupply L i + issued T i (tx, ?ok)"
      by (rule ledgerApply_supply [OF ledger_wfD(1) [OF assms(1)] assms(2)])
    moreover have "issued T i (tx, ?ok) \<le> offered T i tx" by (rule issued_le_offered [of _ T L]) simp
    moreover have "ledgerSupply L i + (offered T i tx + sum_list (map (offered T i) txs)) < 2 ^ 256"
      using assms(3) by (simp add: ledger_bounded_def)
    ultimately show ?thesis by linarith
  qed
  moreover have "nonceIn k ?L a i + int (length txs) < 2 ^ 256" if k: "k \<noteq> TransactionTypeDeposit" for k a i
  proof -
    have "nonceIn k ?L a i \<le> nonceIn k L a i + 1"
      using ledgerApply_nonce(1) [of tx L k T a i] ledger_wfD(2) [OF assms(1)] assms(2) k by simp
    moreover have "nonceIn k L a i + int (length (tx # txs)) < 2 ^ 256"
      using assms(3) k by (simp add: ledger_bounded_def)
    ultimately show ?thesis by simp
  qed
  ultimately show ?thesis by (simp add: ledger_bounded_def)
qed

text \<open>A ledger whose sums leave room has records that fit.\<close>

lemma bounded_fits:
  assumes "\<And>a i. 0 \<le> balanceIn L a i" and "\<And>k a i. k \<noteq> TransactionTypeDeposit \<Longrightarrow> 0 \<le> nonceIn k L a i"
    and "finite (dom L)" and "ledger_bounded T L txs" and "L a = Some info" and "length (Account info) = 20"
  shows "account_fits info"
proof -
  have B: "uint256 (balanceIn L a i)" for i
  proof -
    have "balanceIn L a i \<le> ledgerSupply L i" by (rule balanceIn_le_supply) (use assms in auto)
    moreover have "ledgerSupply L i + sum_list (map (offered T i) txs) < 2 ^ 256"
      using assms(4) unfolding ledger_bounded_def by blast
    ultimately show ?thesis using assms(1) [of a i] sum_offered_nonneg [of T i txs] by (simp add: uint256_def)
  qed
  have N: "uint256 (nonceIn k L a i)" if "k \<noteq> TransactionTypeDeposit" for k i
  proof -
    have "nonceIn k L a i + int (length txs) < 2 ^ 256" using assms(4) that unfolding ledger_bounded_def by blast
    then show ?thesis using assms(2) [OF that, of a i] by (simp add: uint256_def)
  qed
  have "uint256 (Balances info ! i)" if "i < length (Balances info)" for i
    using B [of i] assms(5) that by (simp add: balanceIn_def balanceOf_def)
  moreover have "uint256 (TransferNonces info ! i)" if "i < length (TransferNonces info)" for i
    using N [of TransactionTypeTransfer i] assms(5) that by (simp add: nonceIn_def nonceOf_def)
  moreover have "uint256 (WithdrawNonces info ! i)" if "i < length (WithdrawNonces info)" for i
    using N [of TransactionTypeWithdraw i] assms(5) that by (simp add: nonceIn_def nonceOf_def)
  ultimately show ?thesis using assms(6) by (simp add: account_fits_def list_all_length)
qed

lemma bounded_updates_fit:
  assumes "ledger_wf L" and "distinctParties tx" and "ledger_bounded T L (tx # txs)"
    and "list_all (\<lambda>a. length a = 20) (tx_addresses tx)"
  shows "updates_fit (fst (ledgerApply T L tx))"
proof (cases "fst (ledgerApply T L tx)")
  case (Ok us)
  let ?L = "snd (ledgerApply T L tx)"
  have "account_fits (upd_Info u)" if u: "u \<in> set us" for u
  proof (rule bounded_fits)
    note rec = ledgerApply_records [OF Ok assms(1,2) u]
    show "?L (Account (upd_Info u)) = Some (upd_Info u)" by (rule rec)
    then have "Account (upd_Info u) \<in> set (tx_addresses tx) \<union> dom L" using dom_ledgerApply [of T L tx] by blast
    then show "length (Account (upd_Info u)) = 20"
      using assms(4) ledger_wf_length [OF assms(1)] by (auto simp: list_all_iff)
    show "ledger_bounded T ?L txs" by (rule ledger_bounded_step [OF assms(1-3)])
    show "finite (dom ?L)" by (rule finite_ledgerApply [OF ledger_wfD(1) [OF assms(1)]])
    show "0 \<le> balanceIn ?L a i" for a i
      by (rule ledgerApply_nonneg [OF ledger_wf_nonneg(1) [OF assms(1)] assms(2)])
    show "0 \<le> nonceIn k ?L a i" if "k \<noteq> TransactionTypeDeposit" for k a i
      using ledgerApply_nonce(1) [of tx L k T a i] ledger_wfD(2) [OF assms(1)] assms(2) that
        ledger_wf_nonneg(2) [OF assms(1), of k a i] by simp
  qed
  then show ?thesis by (simp add: updates_fit_def Ok list_all_iff)
qed (simp_all add: updates_fit_def)

end
