(* ===== verification/Runs.thy ===== *)
theory Runs
  imports Main
begin

text \<open>
  Runs of a labelled step relation, and the two ways invariants of runs are proved here: a
  predicate every step keeps (\<open>invariant_run\<close>), and a number every step changes by an
  amount that its label determines (\<open>counted_run\<close>).
\<close>

inductive steps :: "('s \<Rightarrow> 'e \<Rightarrow> 's \<Rightarrow> bool) \<Rightarrow> 's \<Rightarrow> 'e list \<Rightarrow> 's \<Rightarrow> bool"
  for step :: "'s \<Rightarrow> 'e \<Rightarrow> 's \<Rightarrow> bool" where
  steps_Nil: "steps step s [] s"
| steps_Cons: "step s e s' \<Longrightarrow> steps step s' es s'' \<Longrightarrow> steps step s (e # es) s''"

inductive_simps steps_Nil_iff [simp]: "steps step s [] s'"
inductive_simps steps_Cons_iff [simp]: "steps step s (e # es) s''"

lemma steps_append: "steps step s (es @ fs) s'' \<longleftrightarrow> (\<exists>s'. steps step s es s' \<and> steps step s' fs s'')"
  by (induction es arbitrary: s) auto

lemma steps_nth:
  assumes "steps step s es s'" and "i < length es"
  obtains u v where "steps step s (take i es) u" and "step u (es ! i) v" and "steps step v (drop (Suc i) es) s'"
proof -
  have "steps step s (take i es @ es ! i # drop (Suc i) es) s'"
    using assms by (simp add: id_take_nth_drop [symmetric])
  with that show ?thesis by (auto simp: steps_append)
qed

lemma sum_list_take_less:
  fixes d :: "'e \<Rightarrow> int"
  assumes "p < q" and "q \<le> length es" and "\<And>e. 0 \<le> d e"
  shows "sum_list (map d (take p es)) + d (es ! p) \<le> sum_list (map d (take q es))"
proof -
  have "take q es = take (Suc p) es @ take (q - Suc p) (drop (Suc p) es)"
    using take_add [of "Suc p" "q - Suc p" es] assms(1) by simp
  then have "sum_list (map d (take q es)) =
      sum_list (map d (take p es)) + d (es ! p) + sum_list (map d (take (q - Suc p) (drop (Suc p) es)))"
    using assms(1,2) by (simp add: take_Suc_conv_app_nth)
  moreover have "0 \<le> sum_list (map d (take (q - Suc p) (drop (Suc p) es)))"
    by (rule sum_list_nonneg) (auto simp: assms(3))
  ultimately show ?thesis by simp
qed

locale invariant_run =
  fixes step :: "'s \<Rightarrow> 'e \<Rightarrow> 's \<Rightarrow> bool" and I :: "'s \<Rightarrow> bool"
  assumes keeps: "I s \<Longrightarrow> step s e s' \<Longrightarrow> I s'"
begin

lemma keeps_steps: "steps step s es s' \<Longrightarrow> I s \<Longrightarrow> I s'"
  by (induction rule: steps.induct) (auto intro: keeps)

end

text \<open>Only steps with a label in \<open>ok\<close> count; a run counts if all its labels do.\<close>

locale counted_run = invariant_run step I for step :: "'s \<Rightarrow> 'e \<Rightarrow> 's \<Rightarrow> bool" and I +
  fixes ok :: "'e \<Rightarrow> bool" and f :: "'s \<Rightarrow> int" and d :: "'e \<Rightarrow> int"
  assumes counts: "I s \<Longrightarrow> step s e s' \<Longrightarrow> ok e \<Longrightarrow> f s' = f s + d e"
begin

lemma counts_steps:
  "steps step s es s' \<Longrightarrow> I s \<Longrightarrow> list_all ok es \<Longrightarrow> f s' = f s + sum_list (map d es)"
proof (induction rule: steps.induct)
  case (steps_Cons s e s' es s'')
  then have "I s'" "f s' = f s + d e" by (auto intro: keeps counts)
  with steps_Cons show ?case by simp
qed simp

text \<open>What a step finds: the start, and what the labels before it have added.\<close>

lemma counts_before:
  assumes "steps step s es s'" and "I s" and "list_all ok es" and "i < length es"
  obtains u v where "I u" and "step u (es ! i) v" and "f u = f s + sum_list (map d (take i es))"
  using assms(1,4)
proof (rule steps_nth)
  fix u v
  assume R: "steps step s (take i es) u" "step u (es ! i) v"
  have "list_all ok (take i es)" using assms(3) by (auto simp: list_all_iff dest: in_set_takeD)
  with R that show ?thesis using keeps_steps [OF R(1) assms(2)] counts_steps [OF R(1) assms(2)] by blast
qed

end

end
