(* ===== verification/Run_Properties.thy ===== *)
theory Run_Properties
  imports Ledger_Bounds Runs State_Contract
begin

text \<open>
  Sequences of transactions, accepted and rejected ones, applied to the state machine one
  after the other: what they keep (\<open>sound\<close>), what they do to the supply of a token, and in
  which order they use nonces. \<open>admissible\<close> has the side conditions of one transaction that
  no earlier transaction can establish: sizes, room in the tree, no hash collision.
\<close>

section \<open>The step relation\<close>

definition nextSlot :: "(bytes \<rightharpoonup> bytes) \<Rightarrow> nat" where
  "nextSlot m = (case lastKeyAt m of None \<Rightarrow> 0 | Some bs \<Rightarrow> Suc (setBytes bs))"

abbreviation ledgerAt :: "serializer \<Rightarrow> memdb sm \<Rightarrow> ledger" where
  "ledgerAt ser sm \<equiv> ledgerOf ser (mem_view (smDb sm))"

definition sound :: "serializer \<Rightarrow> hasher \<Rightarrow> memdb sm \<Rightarrow> bool" where
  "sound ser H sm \<longleftrightarrow> hasher_ok H \<and> Size H \<le> 32 \<and> serializer_ok ser \<and>
     implements ser H (mem_view (smDb sm)) (smTree sm)
       (nextSlot (mem_view (smDb sm)), accKey (mem_view (smDb sm))) (ledgerAt ser sm)"

definition admissible :: "serializer \<Rightarrow> hasher \<Rightarrow> memdb sm \<Rightarrow> Transaction \<Rightarrow> bool" where
  "admissible ser H sm tx \<longleftrightarrow>
     token_fits (tokens sm (tx_Token tx)) \<and> list_all (\<lambda>a. length a = 20) (tx_addresses tx) \<and>
     nextSlot (mem_view (smDb sm)) < 2 ^ nat (height (smTree sm) - 1) \<and>
     updates_fit (fst (ledgerApply (tokens sm) (ledgerAt ser sm) tx)) \<and> applyFresh mem_iface H ser sm tx"

text \<open>A step carries its transaction and whether \<^verbatim>\<open>ApplyTransaction\<close> accepted it.\<close>

inductive sm_step :: "serializer \<Rightarrow> hasher \<Rightarrow> memdb sm \<Rightarrow> Transaction \<times> bool \<Rightarrow> memdb sm \<Rightarrow> bool"
  for ser :: serializer and H :: hasher where
  sm_step: "admissible ser H sm tx \<Longrightarrow> ApplyTransaction mem_iface H ser sm tx = (r, sm') \<Longrightarrow>
     sm_step ser H sm (tx, is_Ok r) sm'"

inductive_cases sm_stepE: "sm_step ser H sm e sm'"

lemma implements_slots:
  assumes "implements ser H m tr sl L"
  shows "sl = (nextSlot m, accKey m)" and "L = ledgerOf ser m"
proof -
  obtain t where t: "sm_wf ser H m tr (fst sl) t" "snd sl = accKey m" "L = ledgerOf ser m"
    using assms by (rule implementsE)
  then show "sl = (nextSlot m, accKey m)" "L = ledgerOf ser m"
    using sm_wfD(2) [OF t(1)] by (cases sl; auto simp: nextSlot_def)+
qed

text \<open>\<open>sound\<close> and \<open>admissible\<close> are \<open>well_posed\<close> taken apart.\<close>

lemma well_posed_iff:
  "well_posed ser H sm sl L tx \<longleftrightarrow>
     sound ser H sm \<and> admissible ser H sm tx \<and>
     sl = (nextSlot (mem_view (smDb sm)), accKey (mem_view (smDb sm))) \<and> L = ledgerAt ser sm"
  using implements_slots [of ser H "mem_view (smDb sm)" "smTree sm" sl L]
  by (auto simp: well_posed_def sound_def admissible_def)

lemma sm_step_ledger:
  assumes "sm_step ser H sm e sm'" and "sound ser H sm"
  obtains tx where "e = (tx, is_Ok (fst (ledgerApply (tokens sm) (ledgerAt ser sm) tx)))"
    and "sound ser H sm'" and "tokens sm' = tokens sm"
    and "ledgerAt ser sm' = snd (ledgerApply (tokens sm) (ledgerAt ser sm) tx)"
proof -
  obtain tx r where e: "e = (tx, is_Ok r)" "admissible ser H sm tx" "ApplyTransaction mem_iface H ser sm tx = (r, sm')"
    using assms(1) by (rule sm_stepE) auto
  have P: "well_posed ser H sm (nextSlot (mem_view (smDb sm)), accKey (mem_view (smDb sm))) (ledgerAt ser sm) tx"
    using assms(2) e(2) by (simp add: well_posed_iff)
  show ?thesis
  proof (rule well_posed_refines [OF P])
    fix r' sm''
    assume R: "ApplyTransaction mem_iface H ser sm tx = (r', sm'')"
      "implements ser H (mem_view (smDb sm'')) (smTree sm'')
        (slotsAfter (tokens sm) (ledgerAt ser sm) tx (nextSlot (mem_view (smDb sm)), accKey (mem_view (smDb sm))))
        (snd (ledgerApply (tokens sm) (ledgerAt ser sm) tx))" "tokens sm'' = tokens sm"
      "case fst (ledgerApply (tokens sm) (ledgerAt ser sm) tx) of
         Err e \<Rightarrow> r' = Err e
       | Panic p \<Rightarrow> r' = Panic p
       | Ok us \<Rightarrow> (\<exists>es. r' = Ok (Some \<lparr>su_Transaction = tx, su_StateRoot = copyN 32 (root (smTree sm'')),
             su_Entries = es\<rparr>) \<and>
           list_all2 (entry_matches ser H (mem_view (smDb sm'')) (smTree sm'')
             (snd (ledgerApply (tokens sm) (ledgerAt ser sm) tx))) us es)"
    have [simp]: "sm'' = sm'" "r' = r" using R(1) e(3) by simp_all
    have "sound ser H sm'" "ledgerAt ser sm' = snd (ledgerApply (tokens sm) (ledgerAt ser sm) tx)"
      using assms(2) R(2) implements_slots [OF R(2)] by (simp_all add: sound_def)
    moreover have "is_Ok r = is_Ok (fst (ledgerApply (tokens sm) (ledgerAt ser sm) tx))"
      using R(4) by (auto split: outcome.splits)
    ultimately show ?thesis using that R(3) e(1) by simp
  qed
qed

lemma sound_account:
  "sound ser H sm \<Longrightarrow> getAccountInfo mem_iface ser sm a =
     (case ledgerAt ser sm a of None \<Rightarrow> Err ErrAccountNotFound | Some info \<Rightarrow> Ok info)"
  by (auto simp: sound_def dest: getAccountInfo_ledger)

lemma sound_balance: "sound ser H sm \<Longrightarrow> balanceAt ser sm a i = balanceIn (ledgerAt ser sm) a i"
  by (auto simp: sound_def dest: balanceAt_ledger)

lemma sound_wf:
  assumes "sound ser H sm" and "ledgerAt ser sm a = Some info"
  shows "account_wf info" and "Account info = a"
  using assms implements_Some(2,3) by (auto simp: sound_def)

text \<open>There are finitely many accounts: each has a key of its own below the next one.\<close>

lemma sound_finite:
  assumes "sound ser H sm"
  shows "finite (dom (ledgerAt ser sm))"
proof -
  obtain t where t: "sm_wf ser H (mem_view (smDb sm)) (smTree sm) (nextSlot (mem_view (smDb sm))) t"
    using assms by (auto simp: sound_def elim: implementsE)
  let ?K = "accKey (mem_view (smDb sm))"
  have "ran ?K \<subseteq> natBytes ` {..<nextSlot (mem_view (smDb sm))}"
    using sm_wfD(4) [OF t] by (fastforce simp: ran_def)
  then have "finite (ran ?K)" by (rule finite_subset) simp
  moreover have "inj_on (\<lambda>a. the (?K a)) (dom ?K)"
    by (auto simp: inj_on_def intro: sm_wfD(6) [OF t])
  ultimately have "finite (dom ?K)"
    by (rule_tac finite_imageD [rotated]) (auto elim!: finite_subset [rotated] simp: ran_def)
  moreover have "dom (ledgerAt ser sm) \<subseteq> dom ?K"
    by (auto simp: ledgerOf_def lookupAccount_def split: option.splits)
  ultimately show ?thesis by (rule rev_finite_subset)
qed

section \<open>The sums of a run\<close>

interpretation sm_run: invariant_run "sm_step ser H" "\<lambda>sm. sound ser H sm \<and> tokens sm = T" for ser H T
  by unfold_locales (auto elim: sm_step_ledger)

interpretation supply_run:
  counted_run "sm_step ser H" "\<lambda>sm. sound ser H sm \<and> tokens sm = T" "\<lambda>e. distinctParties (fst e)"
    "\<lambda>sm. ledgerSupply (ledgerAt ser sm) i" "issued T i" for ser H T i
  by unfold_locales (auto elim!: sm_step_ledger simp: ledgerApply_supply sound_finite)

interpretation nonce_run:
  counted_run "sm_step ser H" "\<lambda>sm. sound ser H sm \<and> tokens sm = T"
    "\<lambda>e. distinctParties (fst e) \<and> k \<noteq> TransactionTypeDeposit"
    "\<lambda>sm. nonceIn k (ledgerAt ser sm) a i" "\<lambda>e. if spends T k a i e then 1 else 0" for ser H T k a i
  by unfold_locales (elim conjE sm_step_ledger, assumption, simp add: ledgerApply_nonce(1) sound_wf(1))

lemma sm_step_nonce:
  assumes "sm_step ser H sm e sm'" and "sound ser H sm" and "distinctParties (fst e)"
    and "k \<noteq> TransactionTypeDeposit" and "spends (tokens sm) k a i e"
  shows "tx_Nonce (fst e) = nonceIn k (ledgerAt ser sm) a i"
  using assms(1,2)
proof (rule sm_step_ledger)
  fix tx
  assume "e = (tx, is_Ok (fst (ledgerApply (tokens sm) (ledgerAt ser sm) tx)))"
  then show ?thesis
    using ledgerApply_nonce(2) [of tx "ledgerAt ser sm" k "tokens sm" a i] assms(3-5) sound_wf(1) [OF assms(2)]
    by simp
qed

section \<open>What runs keep\<close>

text \<open>The sum of all balances of a token, over the accounts the state machine knows.\<close>

definition supplyAt :: "serializer \<Rightarrow> memdb sm \<Rightarrow> nat \<Rightarrow> int" where
  "supplyAt ser sm i = (\<Sum>a\<in>{a. is_Ok (getAccountInfo mem_iface ser sm a)}. balanceAt ser sm a i)"

lemma sound_supply:
  assumes "sound ser H sm"
  shows "supplyAt ser sm i = ledgerSupply (ledgerAt ser sm) i"
proof -
  have "{a. is_Ok (getAccountInfo mem_iface ser sm a)} = dom (ledgerAt ser sm)"
    using sound_account [OF assms] by (auto split: option.splits)
  then show ?thesis by (simp add: supplyAt_def ledgerSupply_def sound_balance [OF assms])
qed

lemma sound_balance_bounds:
  assumes "sound ser H sm"
  shows "0 \<le> balanceAt ser sm a i" and "balanceAt ser sm a i < 2 ^ 256"
  using sound_wf(1) [OF assms]
  by (auto simp: sound_balance [OF assms] balanceIn_def balanceOf_def account_wf_def account_fits_def uint256_def
      list_all_length split: option.splits)

lemma sound_balance_supply:
  assumes "sound ser H sm"
  shows "balanceAt ser sm a i \<le> supplyAt ser sm i"
proof (cases "ledgerAt ser sm a")
  case None
  then have "balanceAt ser sm a i = 0" by (simp add: sound_balance [OF assms] balanceIn_def)
  then show ?thesis using sound_balance_bounds(1) [OF assms] by (simp add: supplyAt_def sum_nonneg)
next
  case (Some info)
  then have "a \<in> dom (ledgerAt ser sm)" by auto
  from member_le_sum [OF this, of "\<lambda>a. balanceIn (ledgerAt ser sm) a i"] sound_balance_bounds(1) [OF assms]
  show ?thesis
    by (simp add: sound_supply [OF assms] ledgerSupply_def sound_finite [OF assms] sound_balance [OF assms])
qed

section \<open>Runs within limits\<close>

text \<open>Applying transactions one after the other, and no hash collision on the nodes they write.\<close>

fun applyAll :: "hasher \<Rightarrow> serializer \<Rightarrow> memdb sm \<Rightarrow> Transaction list \<Rightarrow> memdb sm" where
  "applyAll H ser sm [] = sm"
| "applyAll H ser sm (tx # txs) = applyAll H ser (snd (ApplyTransaction mem_iface H ser sm tx)) txs"

fun runFresh :: "hasher \<Rightarrow> serializer \<Rightarrow> memdb sm \<Rightarrow> Transaction list \<Rightarrow> bool" where
  "runFresh H ser sm [] = True"
| "runFresh H ser sm (tx # txs) =
     (applyFresh mem_iface H ser sm tx \<and> runFresh H ser (snd (ApplyTransaction mem_iface H ser sm tx)) txs)"

text \<open>The nonce an account has to use next, as the code reads it.\<close>

definition nonceAt :: "serializer \<Rightarrow> memdb sm \<Rightarrow> TransactionType \<Rightarrow> bytes \<Rightarrow> nat \<Rightarrow> int" where
  "nonceAt ser sm k a i = (case getAccountInfo mem_iface ser sm a of Ok info \<Rightarrow> nonceOf k info i | _ \<Rightarrow> 0)"

text \<open>
  What a list of transactions has to meet before it runs: addresses of 20 bytes, token indices a
  slice can have, transfers between two parties, a free slot at each of them even if every deposit
  and transfer before it has opened an account, and, against
  overflow, nothing but sums known beforehand: the supply and all deposits offered, the nonces
  and the number of transactions stay below \<open>2 ^ 256\<close>.
\<close>

definition mayOpen :: "Transaction \<Rightarrow> bool" where
  "mayOpen tx \<longleftrightarrow> GetTransactionType tx \<noteq> TransactionTypeWithdraw"

definition withinLimits :: "serializer \<Rightarrow> memdb sm \<Rightarrow> Transaction list \<Rightarrow> bool" where
  "withinLimits ser sm txs \<longleftrightarrow>
     list_all (\<lambda>tx. token_fits (tokens sm (tx_Token tx)) \<and> list_all (\<lambda>a. length a = 20) (tx_addresses tx) \<and>
       distinctParties tx) txs \<and>
     (\<forall>k<length txs. nextSlot (mem_view (smDb sm)) + length (filter mayOpen (take k txs)) < 2 ^ nat (height (smTree sm) - 1)) \<and>
     (\<forall>i. supplyAt ser sm i + sum_list (map (offered (tokens sm) i) txs) < 2 ^ 256) \<and>
     (\<forall>k a i. k \<noteq> TransactionTypeDeposit \<longrightarrow> nonceAt ser sm k a i + int (length txs) < 2 ^ 256)"

lemma sound_nonce: "sound ser H sm \<Longrightarrow> nonceAt ser sm k a i = nonceIn k (ledgerAt ser sm) a i"
  by (simp add: nonceAt_def sound_account nonceIn_def split: option.splits)

lemma sound_ledger_wf: "sound ser H sm \<Longrightarrow> ledger_wf (ledgerAt ser sm)"
  using sound_wf sound_finite by (simp add: ledger_wf_def)

lemma sound_bounded:
  assumes "sound ser H sm"
  shows "withinLimits ser sm txs \<longleftrightarrow>
    list_all (\<lambda>tx. token_fits (tokens sm (tx_Token tx)) \<and> list_all (\<lambda>a. length a = 20) (tx_addresses tx) \<and>
      distinctParties tx) txs \<and>
    (\<forall>k<length txs. nextSlot (mem_view (smDb sm)) + length (filter mayOpen (take k txs)) < 2 ^ nat (height (smTree sm) - 1)) \<and>
    ledger_bounded (tokens sm) (ledgerAt ser sm) txs"
  by (simp add: withinLimits_def ledger_bounded_def sound_supply [OF assms] sound_nonce [OF assms])

lemma limits_admissible:
  assumes "sound ser H sm" and "withinLimits ser sm (tx # txs)" and "applyFresh mem_iface H ser sm tx"
  shows "admissible ser H sm tx"
proof -
  have "updates_fit (fst (ledgerApply (tokens sm) (ledgerAt ser sm) tx))"
    using assms(2) unfolding sound_bounded [OF assms(1)]
    by (intro bounded_updates_fit [OF sound_ledger_wf [OF assms(1)]]) auto
  then show ?thesis using assms(2,3) by (auto simp: admissible_def withinLimits_def dest: spec [of _ 0])
qed

lemma fst_slotsAfter: "fst (slotsAfter T L tx s) \<le> fst s + (if mayOpen tx then 1 else 0)"
  by (simp add: slotsAfter_def openSlot_def mayOpen_def split: outcome.splits TransactionType.splits)

text \<open>One transaction keeps within the limits what is to come.\<close>

lemma limits_step:
  assumes "sound ser H sm" and "withinLimits ser sm (tx # txs)"
    and "ApplyTransaction mem_iface H ser sm tx = (r, sm')" and "applyFresh mem_iface H ser sm tx"
  shows "sm_step ser H sm (tx, is_Ok r) sm'" and "sound ser H sm'" and "tokens sm' = tokens sm"
    and "withinLimits ser sm' txs"
proof -
  have P: "well_posed ser H sm (nextSlot (mem_view (smDb sm)), accKey (mem_view (smDb sm))) (ledgerAt ser sm) tx"
    using assms(1) limits_admissible [OF assms(1,2,4)] by (simp add: well_posed_iff)
  show step: "sm_step ser H sm (tx, is_Ok r) sm'" by (rule sm_step [OF limits_admissible [OF assms(1,2,4)] assms(3)])
  then obtain S: "sound ser H sm'" "tokens sm' = tokens sm"
    "ledgerAt ser sm' = snd (ledgerApply (tokens sm) (ledgerAt ser sm) tx)"
    using assms(1) by (rule sm_step_ledger) simp
  then show "sound ser H sm'" "tokens sm' = tokens sm" by blast+
  have slots: "nextSlot (mem_view (smDb sm')) \<le> nextSlot (mem_view (smDb sm)) + (if mayOpen tx then 1 else 0) \<and>
    height (smTree sm') = height (smTree sm)"
  proof (rule well_posed_refines [OF P])
    fix r' sm''
    assume R: "ApplyTransaction mem_iface H ser sm tx = (r', sm'')" "height (smTree sm'') = height (smTree sm)"
      "implements ser H (mem_view (smDb sm'')) (smTree sm'')
        (slotsAfter (tokens sm) (ledgerAt ser sm) tx (nextSlot (mem_view (smDb sm)), accKey (mem_view (smDb sm))))
        (snd (ledgerApply (tokens sm) (ledgerAt ser sm) tx))"
    have "nextSlot (mem_view (smDb sm'')) =
        fst (slotsAfter (tokens sm) (ledgerAt ser sm) tx (nextSlot (mem_view (smDb sm)), accKey (mem_view (smDb sm))))"
      using implements_slots(1) [OF R(3)] by (metis fst_conv)
    then show ?thesis using R(1,2) assms(3) fst_slotsAfter by (metis fst_conv prod.inject)
  qed
  have "nextSlot (mem_view (smDb sm')) + length (filter mayOpen (take k txs)) < 2 ^ nat (height (smTree sm) - 1)"
    if "k < length txs" for k
  proof -
    have "nextSlot (mem_view (smDb sm)) + length (filter mayOpen (take (Suc k) (tx # txs))) < 2 ^ nat (height (smTree sm) - 1)"
      using assms(2) that unfolding withinLimits_def by (metis Suc_less_eq length_Cons)
    with slots show ?thesis by (simp split: if_splits)
  qed
  then show "withinLimits ser sm' txs"
    using assms(2) slots ledger_bounded_step [OF sound_ledger_wf [OF assms(1)], of tx "tokens sm" txs] S
    unfolding sound_bounded [OF assms(1)] sound_bounded [OF S(1)] by auto
qed

lemma limits_run:
  assumes "sound ser H sm" and "withinLimits ser sm txs" and "runFresh H ser sm txs"
  shows "\<exists>es. map fst es = txs \<and> steps (sm_step ser H) sm es (applyAll H ser sm txs) \<and>
    (\<Sum>e\<leftarrow>es. issued (tokens sm) i e) \<le> sum_list (map (offered (tokens sm) i) txs)"
  using assms
proof (induction txs arbitrary: sm)
  case (Cons tx txs)
  obtain r sm' where A: "ApplyTransaction mem_iface H ser sm tx = (r, sm')" by fastforce
  note step = limits_step [OF Cons.prems(1,2) A]
  have fresh: "applyFresh mem_iface H ser sm tx" "runFresh H ser sm' txs" using Cons.prems(3) A by simp_all
  obtain es where es: "map fst es = txs" "steps (sm_step ser H) sm' es (applyAll H ser sm' txs)"
    "(\<Sum>e\<leftarrow>es. issued (tokens sm) i e) \<le> sum_list (map (offered (tokens sm) i) txs)"
    using Cons.IH [OF step(2,4) fresh(2)] step(3) fresh(1) by metis
  have "issued (tokens sm) i (tx, is_Ok r) \<le> offered (tokens sm) i tx"
    by (rule sm_step_ledger [OF step(1) [OF fresh(1)] Cons.prems(1)], rule issued_le_offered [of _ _ "ledgerAt ser sm"]) simp
  then show ?case using es A step(1) [OF fresh(1)] by (intro exI [of _ "(tx, is_Ok r) # es"]) auto
qed simp

section \<open>An example\<close>

text \<open>A deposit of 5, a withdrawal of 3, the same withdrawal again, which is refused, and one of 1.\<close>

definition sampleWithdraw2 :: Transaction where
  "sampleWithdraw2 = WithdrawTransaction (sampleAddress 1) sampleToken 1 1 []"

definition sampleEvents :: "(Transaction \<times> bool) list" where
  "sampleEvents = [(sampleDeposit, True), (sampleWithdraw, True), (sampleWithdraw, False), (sampleWithdraw2, True)]"

definition sampleEnd :: "memdb sm" where
  "sampleEnd = snd (ApplyTransaction mem_iface sampleHasher sampleSerializer
     (snd (ApplyTransaction mem_iface sampleHasher sampleSerializer sampleWithdrawn sampleWithdraw)) sampleWithdraw2)"

lemma posed_step:
  assumes "well_posed ser H sm sl L tx"
  shows "sm_step ser H sm (tx, is_Ok (fst (ledgerApply (tokens sm) L tx))) (snd (ApplyTransaction mem_iface H ser sm tx))"
proof -
  have P: "sound ser H sm" "admissible ser H sm tx" "L = ledgerAt ser sm"
    using assms by (simp_all add: well_posed_iff)
  obtain r sm' where A: "ApplyTransaction mem_iface H ser sm tx = (r, sm')" by fastforce
  have "sm_step ser H sm (tx, is_Ok r) sm'" using P(2) A by (rule sm_step)
  moreover from this P(1) have "is_Ok r = is_Ok (fst (ledgerApply (tokens sm) L tx))"
    by (rule sm_step_ledger) (simp add: P(3))
  ultimately show ?thesis using A by simp
qed

lemma sampleWithdrawn_replay:
  "ledgerApply (tokens sampleWithdrawn) withdrawnLedger sampleWithdraw =
     (Err ErrInsufficientBalance, withdrawnLedger)"
  using sampleWithdrawn_state(2) by (simp add: ledger_eval sampleWithdraw_def Let_def)

lemma sampleReplayed_state:
  "snd (ApplyTransaction mem_iface sampleHasher sampleSerializer sampleWithdrawn sampleWithdraw) = sampleWithdrawn"
  by code_simp

lemma sampleWithdraw2_result:
  "ledgerApply (tokens sampleWithdrawn) withdrawnLedger sampleWithdraw2 =
     (Ok [\<lparr>upd_Info = \<lparr>Account = sampleAddress 1, Balances = [1], TransferNonces = [0], WithdrawNonces = [2]\<rparr>,
           upd_NewAccount = False\<rparr>],
      [sampleAddress 1 \<mapsto> \<lparr>Account = sampleAddress 1, Balances = [1], TransferNonces = [0], WithdrawNonces = [2]\<rparr>])"
  using sampleWithdrawn_state(2)
  by (simp add: ledger_eval sampleWithdraw2_def Let_def)

lemma sampleWithdraw2_fresh: "applyFresh mem_iface sampleHasher sampleSerializer sampleWithdrawn sampleWithdraw2"
  by code_simp

lemma sampleWithdraw2_posed:
  "well_posed sampleSerializer sampleHasher sampleWithdrawn openedSlots withdrawnLedger sampleWithdraw2"
  unfolding well_posed_def sampleWithdraw2_result
  using sampleWithdrawn_state sampleWithdraw2_fresh
  by (simp add: sampleWithdraw2_def size_conditions)

lemma sampleEvents_run: "steps (sm_step sampleSerializer sampleHasher) sampleStart sampleEvents sampleEnd"
proof -
  let ?step = "sm_step sampleSerializer sampleHasher"
  have "?step sampleStart (sampleDeposit, True) sampleOpened"
    using posed_step [OF sampleDeposit_posed] by (simp add: sampleStart_deposit sampleOpened_def)
  moreover have "?step sampleOpened (sampleWithdraw, True) sampleWithdrawn"
    using posed_step [OF sampleWithdraw_posed] by (simp add: sampleOpened_withdraw sampleWithdrawn_def)
  moreover have "?step sampleWithdrawn (sampleWithdraw, False) sampleWithdrawn"
    using posed_step [OF sampleWithdrawn_posed] by (simp add: sampleWithdrawn_replay sampleReplayed_state)
  moreover have "?step sampleWithdrawn (sampleWithdraw2, True) sampleEnd"
    using posed_step [OF sampleWithdraw2_posed] by (simp add: sampleWithdraw2_result sampleEnd_def sampleReplayed_state)
  ultimately show ?thesis unfolding sampleEvents_def by auto
qed

lemma sampleStart_sound: "sound sampleSerializer sampleHasher sampleStart"
  using sampleDeposit_posed by (simp add: well_posed_iff)

lemma sampleEvents_parties: "list_all (\<lambda>e. distinctParties (fst e)) sampleEvents"
  by (simp add: sampleEvents_def distinctParties_def sampleDeposit_def sampleWithdraw_def sampleWithdraw2_def)

lemma sampleEvents_issued: "(\<Sum>e\<leftarrow>sampleEvents. issued (tokens sampleStart) 0 e) = 1"
  by (simp add: sampleEvents_def issued_def sampleDeposit_def sampleWithdraw_def sampleWithdraw2_def)

lemma sampleStart_supply: "supplyAt sampleSerializer sampleStart i = 0"
  by (simp add: sound_supply [OF sampleStart_sound] ledgerSupply_def)

section \<open>Properties of runs\<close>

text \<open>
  C7: tokens are conserved. Over any sequence of transactions, accepted and rejected, whose
  transfers are between two parties, the sum of all balances of a token changes by what the
  accepted deposits of the token bring in less what its accepted withdrawals take out.
\<close>

theorem supply_conserved:
  assumes "sound ser H sm" and "steps (sm_step ser H) sm es sm'" and "list_all (\<lambda>e. distinctParties (fst e)) es"
  shows "supplyAt ser sm' i = supplyAt ser sm i + (\<Sum>e\<leftarrow>es. issued (tokenIndexOf (mem_view (smDb sm))) i e)"
proof -
  let ?T = "tokens sm"
  have "sound ser H sm'" using sm_run.keeps_steps [OF assms(2), of ?T] assms(1) by blast
  then show ?thesis
    using supply_run.counts_steps [OF assms(2) _ assms(3), of ?T i] assms(1) by (simp add: sound_supply)
qed

theorem supply_conserved_witness: "supplyAt sampleSerializer sampleEnd 0 = 1"
  using supply_conserved [OF sampleStart_sound sampleEvents_run sampleEvents_parties, of 0]
  by (simp add: sampleEvents_issued sampleStart_supply)



text \<open>
  C10: after any sequence of transactions an account is either not found or read back as a
  record of its type: it carries the address it was asked for, of 20 bytes, its three lists
  have one length, and their elements are 256-bit numbers. No other error is possible.
\<close>

theorem accounts_stay_typed:
  assumes "sound ser H sm" and "steps (sm_step ser H) sm es sm'"
  shows "case getAccountInfo mem_iface ser sm' a of
      Ok info \<Rightarrow> Account info = a \<and> length a = 20 \<and>
        length (TransferNonces info) = length (Balances info) \<and> length (WithdrawNonces info) = length (Balances info) \<and>
        list_all uint256 (Balances info) \<and> list_all uint256 (TransferNonces info) \<and> list_all uint256 (WithdrawNonces info)
    | Err e \<Rightarrow> e = ErrAccountNotFound
    | Panic p \<Rightarrow> False"
proof -
  have "sound ser H sm'" using sm_run.keeps_steps [OF assms(2), of "tokens sm"] assms(1) by blast
  then show ?thesis
    using sound_wf [of ser H sm' a] by (auto simp: sound_account account_wf_def account_fits_def split: option.splits)
qed

theorem accounts_stay_typed_witness:
  "\<not> is_Panic (getAccountInfo mem_iface sampleSerializer sampleEnd (sampleAddress 1))"
  using accounts_stay_typed [OF sampleStart_sound sampleEvents_run, of "sampleAddress 1"]
  by (auto simp: is_Panic_def split: outcome.splits)

text \<open>The nonce an accepted spending carries counts the accepted spendings before it.\<close>

lemma spent_nonce:
  assumes "sound ser H sm" and "steps (sm_step ser H) sm es sm'" and "list_all (\<lambda>e. distinctParties (fst e)) es"
    and "k \<noteq> TransactionTypeDeposit" and "j < length es" and "spends (tokens sm) k a i (es ! j)"
  shows "tx_Nonce (fst (es ! j)) = nonceIn k (ledgerAt ser sm) a i +
    sum_list (map (\<lambda>e. if spends (tokens sm) k a i e then 1 else 0) (take j es))"
proof -
  have ok: "list_all (\<lambda>e. distinctParties (fst e) \<and> k \<noteq> TransactionTypeDeposit) es"
    using assms(3,4) by (simp add: list_all_iff)
  obtain u v where "sound ser H u \<and> tokens u = tokens sm" "sm_step ser H u (es ! j) v"
    "nonceIn k (ledgerAt ser u) a i = nonceIn k (ledgerAt ser sm) a i +
      sum_list (map (\<lambda>e. if spends (tokens sm) k a i e then 1 else 0) (take j es))"
    using nonce_run.counts_before [OF assms(2) _ ok assms(5), of "tokens sm" a i] assms(1) by blast
  then show ?thesis
    using sm_step_nonce [of ser H u "es ! j" v k a i] ok assms(4-6) by (simp add: list_all_length)
qed

text \<open>
  C9: nonces protect against replays. Over any sequence of transactions whose transfers are
  between two parties, the accepted transfers of one account in one token carry strictly
  increasing nonces, and so do its accepted withdrawals: no signed transaction is accepted
  twice, however many others lie in between.
\<close>

theorem accepted_nonces_increase:
  assumes "sound ser H sm" and "steps (sm_step ser H) sm es sm'" and "list_all (\<lambda>e. distinctParties (fst e)) es"
    and "k \<noteq> TransactionTypeDeposit" and "p < q" and "q < length es"
    and "spends (tokenIndexOf (mem_view (smDb sm))) k a i (es ! p)"
    and "spends (tokenIndexOf (mem_view (smDb sm))) k a i (es ! q)"
  shows "tx_Nonce (fst (es ! p)) < tx_Nonce (fst (es ! q))"
proof -
  let ?d = "\<lambda>e. if spends (tokens sm) k a i e then 1 else (0 :: int)"
  note nonce = spent_nonce [OF assms(1-4)]
  have "sum_list (map ?d (take p es)) + 1 \<le> sum_list (map ?d (take q es))"
    using sum_list_take_less [of p q es ?d] assms(5-7) by simp
  then show ?thesis using nonce [of p] nonce [of q] assms(5-8) by simp
qed

theorem accepted_nonces_increase_witness: "tx_Nonce sampleWithdraw < tx_Nonce sampleWithdraw2"
proof -
  have "spends (tokens sampleStart) TransactionTypeWithdraw (sampleAddress 1) 0 (sampleEvents ! 1)"
    "spends (tokens sampleStart) TransactionTypeWithdraw (sampleAddress 1) 0 (sampleEvents ! 3)"
    by (simp_all add: sampleEvents_def spends_def spender_def sampleWithdraw_def sampleWithdraw2_def)
  from accepted_nonces_increase [OF sampleStart_sound sampleEvents_run sampleEvents_parties _ _ _ this]
  show ?thesis by (simp add: sampleEvents_def)
qed

text \<open>
  A transaction that spends is accepted at most once: whatever lies in between, it is rejected
  when it is applied again.
\<close>

lemma sm_step_spends:
  assumes "sm_step ser H sm (tx, True) sm'" and "sound ser H sm"
  obtains i where "spends (tokens sm) (GetTransactionType tx) (spender tx) i (tx, accepted) = accepted"
  using assms
proof (rule sm_step_ledger)
  fix tx'
  assume "(tx, True) = (tx', is_Ok (fst (ledgerApply (tokens sm) (ledgerAt ser sm) tx')))"
  then obtain ti where "tokens sm (tx_Token tx) = Ok ti"
    by (auto simp: ledgerApply_def split: outcome.splits)
  then show ?thesis using that [of "unat ti"] by (simp add: spends_def)
qed

theorem replay_rejected:
  assumes "sound ser H sm" and "GetTransactionType tx \<noteq> TransactionTypeDeposit"
    and "list_all (\<lambda>e. distinctParties (fst e)) ((tx, True) # es)"
    and "steps (sm_step ser H) sm ((tx, True) # es @ [(tx, accepted)]) sm'"
  shows "\<not> accepted"
proof
  assume accepted
  then obtain i where S: "spends (tokens sm) (GetTransactionType tx) (spender tx) i (tx, True)"
    using assms(1,4) by (auto elim!: sm_step_spends [where accepted = True])
  let ?es = "(tx, True) # es @ [(tx, accepted)]"
  let ?d = "\<lambda>e. if spends (tokens sm) (GetTransactionType tx) (spender tx) i e then 1 else (0 :: int)"
  have "list_all (\<lambda>e. distinctParties (fst e)) ?es" using assms(3) by simp
  note nonce = spent_nonce [OF assms(1,4) this assms(2), of _ "spender tx" i]
  have "sum_list (map ?d (take 0 ?es)) + 1 \<le> sum_list (map ?d (take (length es + 1) ?es))"
    using sum_list_take_less [of 0 "length es + 1" ?es ?d] S by simp
  then show False
    using nonce [of 0] nonce [of "length es + 1"] S \<open>accepted\<close> by (simp add: nth_append)
qed

theorem replay_rejected_witness: "\<not> is_Ok (fst (ledgerApply (tokens sampleWithdrawn) withdrawnLedger sampleWithdraw))"
proof (rule replay_rejected [where es = "[]"])
  let ?step = "sm_step sampleSerializer sampleHasher"
  show "sound sampleSerializer sampleHasher sampleOpened" using sampleWithdraw_posed by (simp add: well_posed_iff)
  have "?step sampleOpened (sampleWithdraw, True) sampleWithdrawn"
    using posed_step [OF sampleWithdraw_posed] by (simp add: sampleOpened_withdraw sampleWithdrawn_def)
  with posed_step [OF sampleWithdrawn_posed]
  show "steps ?step sampleOpened ((sampleWithdraw, True) # [] @
      [(sampleWithdraw, is_Ok (fst (ledgerApply (tokens sampleWithdrawn) withdrawnLedger sampleWithdraw)))])
    (snd (ApplyTransaction mem_iface sampleHasher sampleSerializer sampleWithdrawn sampleWithdraw))"
    by auto
qed (simp_all add: sampleWithdraw_def distinctParties_def)

end
