(* ===== verification/Tree_Properties.thy ===== *)
theory Tree_Properties
  imports Sample_Parameters
begin

text \<open>
  The properties of the sparse Merkle tree and of its proofs, on the in-memory database.
  Reading, proving and updating rest on the refinement of the abstract tree
  (\<open>Merkle_Refinement\<close>); the compact form is analysed through the bits it is written with.
\<close>

section \<open>A small tree\<close>

text \<open>A new tree of four leaves over the one-byte hasher; \<open>sampleTree True\<close> hashes its keys.\<close>

definition sampleTree :: "bool \<Rightarrow> smt \<times> memdb" where
  "sampleTree hk =
     (case NewSparseMerkleTree mem_iface tinyHasher NewDB None None 3 hk of (r, d) \<Rightarrow> (the_ok r, d))"

lemma tiny_fresh: "noCollision (\<lambda>_. None) (initWrites tinyHasher 3)"
  by code_simp

lemma empty_store [simp]: "nodes (mem_view NewDB) ns = (\<lambda>_. None)"
  by (simp add: nodes_def mem_view_def NewDB_def fun_eq_iff)

lemma sampleTree_represents:
  "represents (mem_view (snd (sampleTree hk))) tinyHasher (fst (sampleTree hk)) (mfull 2 DefaultValue) (root (fst (sampleTree hk)))"
  "fst (sampleTree hk) = \<lparr>dbNamespace = None, root = mhash tinyHasher (mfull 2 DefaultValue), height = 3, hashKey = hk\<rparr>"
proof -
  have P: "(1::int) \<le> 3" "3 \<le> int (Size tinyHasher * 8)" "(3::int) < 2 ^ 64" "nodes (mem_view NewDB) None initMarker = None"
    "noCollision (nodes (mem_view NewDB) None) (initWrites tinyHasher 3)" "nat (3 - 1) = 2" using tiny_fresh by simp_all
  from mem.NewSparseMerkleTree_fresh [OF tinyHasher_ok(1) P(1-5), of hk, unfolded P(6)] obtain s d' where
    "NewSparseMerkleTree mem_iface tinyHasher NewDB None None 3 hk = (Ok s, d')"
    "s = \<lparr>dbNamespace = None, root = mhash tinyHasher (mfull 2 DefaultValue), height = 3, hashKey = hk\<rparr>"
    "represents (mem_view d') tinyHasher s (mfull 2 DefaultValue) (root s)"
    by (metis smt.select_convs(2))
  then show "represents (mem_view (snd (sampleTree hk))) tinyHasher (fst (sampleTree hk)) (mfull 2 DefaultValue) (root (fst (sampleTree hk)))"
    "fst (sampleTree hk) = \<lparr>dbNamespace = None, root = mhash tinyHasher (mfull 2 DefaultValue), height = 3, hashKey = hk\<rparr>"
    by (simp_all add: sampleTree_def)
qed

lemma sampleTree_path:
  "getPath tinyHasher (fst (sampleTree False)) [k] = Ok [k]"
  "getPath tinyHasher (fst (sampleTree True)) key = Ok [tag key]"
  by (simp_all add: sampleTree_represents(2) getPath_def padKey_def) (simp add: tinyHasher_def)

lemma sampleTree_update_fresh:
  "noCollision (nodes (mem_view (snd (sampleTree False))) None)
     (updateWrites tinyHasher (fst (sampleTree False)) (mfull 2 DefaultValue) [1] [9])"
  by code_simp

section \<open>Reading, proving and updating\<close>

text \<open>
  C18: after an update, the key updated reads the value written, and a key that leads to a
  different leaf reads what it did before.
\<close>

theorem update_then_get:
  assumes "hasher_ok H" and "represents (mem_view d) H s t (root s)"
    and "getPath H s key = Ok path" and "getPath H s key' = Ok path'"
    and "noCollision (nodes (mem_view d) (dbNamespace s)) (updateWrites H s t path v)"
  shows "\<exists>s' d'. Update mem_iface H s d key v = (Ok (root s'), s', d') \<and>
    Get mem_iface H s' d' key' =
      (if pathBits path' (height s) = pathBits path (height s) then Ok v else Get mem_iface H s d key')"
proof -
  let ?t = "mupdate t (pathBits path (height s)) v"
  obtain d' where U: "Update mem_iface H s d key v = (Ok (mhash H ?t), s\<lparr>root := mhash H ?t\<rparr>, d')"
    "represents (mem_view d') H s ?t (mhash H ?t)"
    using mem.Update_mupdate [OF assms(1-3,5)] by blast
  have path': "getPath H (s\<lparr>root := mhash H ?t\<rparr>) key' = Ok path'"
    using assms(4) by (simp add: getPath_def)
  have "Get mem_iface H (s\<lparr>root := mhash H ?t\<rparr>) d' key' = Ok (mlookup ?t (pathBits path' (height s)))"
    unfolding Get_def using mem.GetForRoot_mlookup [OF assms(1) _ path', of d' ?t "mhash H ?t"] U(2) by simp
  moreover have "Get mem_iface H s d key' = Ok (mlookup t (pathBits path' (height s)))"
    unfolding Get_def by (rule mem.GetForRoot_mlookup [OF assms(1,2,4)])
  moreover have "mlookup ?t (pathBits path' (height s)) =
      (if pathBits path' (height s) = pathBits path (height s) then v else mlookup t (pathBits path' (height s)))"
    using represents_perfect [OF assms(2)] by (intro mlookup_mupdate) auto
  ultimately show ?thesis using U(1) by auto
qed

theorem update_then_get_witness:
  "\<exists>s' d'. Update mem_iface tinyHasher (fst (sampleTree False)) (snd (sampleTree False)) [1] [9] = (Ok (root s'), s', d') \<and>
     Get mem_iface tinyHasher s' d' [2] = Get mem_iface tinyHasher (fst (sampleTree False)) (snd (sampleTree False)) [2]"
proof -
  have "pathBits [2] 3 \<noteq> pathBits [1] 3" by code_simp
  then show ?thesis
    using update_then_get [OF tinyHasher_ok(1) sampleTree_represents(1) sampleTree_path(1) sampleTree_path(1), of 1 "[9]" 2]
      sampleTree_update_fresh by (simp add: sampleTree_represents(2))
qed

text \<open>
  C19: an update keeps every earlier version readable: under the root from before the update
  all keys still read their old values.
\<close>

theorem old_root_stays_readable:
  assumes "hasher_ok H" and "represents (mem_view d) H s t (root s)"
    and "getPath H s key = Ok path" and "getPath H s key' = Ok path'"
    and "noCollision (nodes (mem_view d) (dbNamespace s)) (updateWrites H s t path v)"
  shows "\<exists>s' d'. Update mem_iface H s d key v = (Ok (root s'), s', d') \<and>
    GetForRoot mem_iface H s' d' key' (root s) = Get mem_iface H s d key'"
proof -
  let ?t = "mupdate t (pathBits path (height s)) v"
  obtain d' where U: "Update mem_iface H s d key v = (Ok (mhash H ?t), s\<lparr>root := mhash H ?t\<rparr>, d')"
    "mem_view d' = applyOps (writeOps (dbNamespace s) (updateWrites H s t path v)) (mem_view d)"
    using mem.Update_mupdate [OF assms(1-3,5)] by blast
  have old: "represents (mem_view d') H s t (root s)"
    by (rule mem.represents_old_root [OF assms(2,5)]) (simp add: U(2) nodes_writeOps)
  have path': "getPath H (s\<lparr>root := mhash H ?t\<rparr>) key' = Ok path'"
    using assms(4) by (simp add: getPath_def)
  have "GetForRoot mem_iface H (s\<lparr>root := mhash H ?t\<rparr>) d' key' (root s) = Ok (mlookup t (pathBits path' (height s)))"
    using mem.GetForRoot_mlookup [OF assms(1) _ path', of d' t "root s"] old by simp
  with U(1) mem.GetForRoot_mlookup [OF assms(1,2,4)] show ?thesis by (auto simp: Get_def)
qed

theorem old_root_stays_readable_witness:
  "\<exists>s' d'. Update mem_iface tinyHasher (fst (sampleTree False)) (snd (sampleTree False)) [1] [9] = (Ok (root s'), s', d') \<and>
     GetForRoot mem_iface tinyHasher s' d' [1] (root (fst (sampleTree False))) =
       Get mem_iface tinyHasher (fst (sampleTree False)) (snd (sampleTree False)) [1]"
  using old_root_stays_readable [OF tinyHasher_ok(1) sampleTree_represents(1) sampleTree_path(1) sampleTree_path(1), of 1 "[9]" 1]
    sampleTree_update_fresh by (simp add: sampleTree_represents(2))

text \<open>
  C20: in a tree that hashes its keys, the proof for a key exists and verifies against the
  tree's root with the value the key reads.
\<close>

theorem proof_of_value_verifies:
  assumes "hasher_ok H" and "represents (mem_view d) H s t (root s)" and "hashKey s"
  shows "\<exists>v pf. Get mem_iface H s d key = Ok v \<and> Prove mem_iface H s d key = Ok pf \<and>
    VerifyProof pf (root s) key v H (height s)"
proof -
  have path: "getPath H s key = Ok (Digest H key)" using assms(3) by (simp add: getPath_def)
  have pf: "ProveForRoot mem_iface H s d key (root s) = Ok (rev (msides H t (pathBits (Digest H key) (height s))))"
    by (rule mem.ProveForRoot_msides [OF assms(1,2) path])
  from mem.proofRoot_Prove(1,3) [OF assms(1,2) path pf] mem.GetForRoot_mlookup [OF assms(1,2) path] pf
  show ?thesis by (auto simp: Get_def Prove_def VerifyProof_iff)
qed

theorem proof_of_value_verifies_witness:
  "\<exists>v pf. Get mem_iface tinyHasher (fst (sampleTree True)) (snd (sampleTree True)) [1] = Ok v \<and>
     Prove mem_iface tinyHasher (fst (sampleTree True)) (snd (sampleTree True)) [1] = Ok pf \<and>
     VerifyProof pf (root (fst (sampleTree True))) [1] v tinyHasher 3"
  using proof_of_value_verifies [OF tinyHasher_ok(1) sampleTree_represents(1), of True "[1]"]
  by (simp add: sampleTree_represents(2))

text \<open>
  C21: proofs are binding. Two accepted proofs for one key under one root show the same
  value, or the strings the two verifications hash contain a collision.
\<close>

theorem verified_value_unique:
  assumes "hasher_ok H" and "VerifyProof pf rt key v H h" and "VerifyProof pf' rt key v' H h"
  shows "v = v' \<or> collisionAmong H (verifyStrings H h key pf v) (verifyStrings H h key pf' v')"
  using assms proofRoot_binding [OF assms(1), of pf h pf' "Digest H key" v v']
  by (simp add: VerifyProof_iff verifyStrings_def)

theorem verified_value_unique_witness:
  "([5]::bytes) = [5] \<or> collisionAmong tinyHasher (verifyStrings tinyHasher 1 [1] [] [5]) (verifyStrings tinyHasher 1 [1] [] [5])"
proof -
  have "VerifyProof [] (Digest tinyHasher [5]) [1] [5] tinyHasher 1" by (simp add: VerifyProof_def)
  from verified_value_unique [OF tinyHasher_ok(1) this this] show ?thesis .
qed

text \<open>
  In a tree that pads its keys, as the state tree does, the proof the tree gives for a
  key is rejected by \<^verbatim>\<open>VerifyProof\<close>, which always hashes the key: here key 2 holds 9 and
  its own proof does not verify.
\<close>

theorem padded_key_proof_rejected:
  "case Update mem_iface tinyHasher (fst (sampleTree False)) (snd (sampleTree False)) [2] [9] of (_, s, d) \<Rightarrow>
     Get mem_iface tinyHasher s d [2] = Ok [9] \<and>
     (case Prove mem_iface tinyHasher s d [2] of Ok pf \<Rightarrow> \<not> VerifyProof pf (root s) [2] [9] tinyHasher (height s) | _ \<Rightarrow> False)"
  by code_simp

text \<open>
  A new tree on an empty database reads the default value at every key.
\<close>

theorem fresh_tree_reads_default:
  assumes "hasher_ok H" and "1 \<le> h" and "h \<le> int (Size H * 8)" and "h < 2 ^ 64"
    and "noCollision (\<lambda>_. None) (initWrites H h)"
  shows "\<exists>s d. NewSparseMerkleTree mem_iface H NewDB ns None h hk = (Ok s, d) \<and>
    Get mem_iface H s d key = (case getPath H s key of Ok _ \<Rightarrow> Ok DefaultValue | Err e \<Rightarrow> Err e | Panic p \<Rightarrow> Panic p)"
proof -
  have "nodes (mem_view NewDB) ns initMarker = None" "noCollision (nodes (mem_view NewDB) ns) (initWrites H h)"
    using assms(5) by simp_all
  from mem.NewSparseMerkleTree_fresh [OF assms(1-4) this, of hk] obtain s d where
    N: "NewSparseMerkleTree mem_iface H NewDB ns None h hk = (Ok s, d)" and h: "height s = h"
    and R: "represents (mem_view d) H s (mfull (nat (h - 1)) DefaultValue) (root s)" by auto
  have "Get mem_iface H s d key = (case getPath H s key of Ok _ \<Rightarrow> Ok DefaultValue | Err e \<Rightarrow> Err e | Panic p \<Rightarrow> Panic p)"
  proof (cases "getPath H s key")
    case (Ok path)
    then show ?thesis
      using mem.GetForRoot_mlookup [OF assms(1) R Ok] by (simp add: Get_def mlookup_mfull h)
  qed (simp_all add: Get_def GetForRoot_def)
  with N show ?thesis by blast
qed

theorem fresh_tree_reads_default_witness:
  "\<exists>s d. NewSparseMerkleTree mem_iface tinyHasher NewDB None None 3 False = (Ok s, d) \<and>
     Get mem_iface tinyHasher s d [1, 2] = (case getPath tinyHasher s [1, 2] of Ok _ \<Rightarrow> Ok DefaultValue | Err e \<Rightarrow> Err e | Panic p \<Rightarrow> Panic p)"
  by (rule fresh_tree_reads_default [OF tinyHasher_ok(1) _ _ _ tiny_fresh]) simp_all

end
