(* ===== verification/Compact_Properties.thy ===== *)
theory Compact_Properties
  imports Sample_Parameters
begin

text \<open>
  The compact form of proofs, analysed through the bits it is written with, and the partial
  trees that are filled from proofs.
\<close>

section \<open>Counting and reading the bits\<close>

lemma countLoop_filter:
  "\<forall>i\<in>set is. i div 8 < length data \<Longrightarrow>
    countLoop data is c = Ok (c + length (filter (\<lambda>i. hasBit data i = Ok 1) is))"
proof (induction "is" arbitrary: c)
  case (Cons i "is")
  then obtain b where "hasBit data i = Ok b" by (auto simp: hasBit_def)
  with Cons show ?case by (cases "b = 1") auto
qed simp

lemma countSetBits_filter:
  "countSetBits data = Ok (length (filter (\<lambda>i. hasBit data i = Ok 1) [0..<length data * 8]))"
  unfolding countSetBits_def by (subst countLoop_filter) auto

text \<open>A byte string that is zero after its first byte counts the bits of that byte.\<close>

lemma countSetBits_head:
  "countSetBits (b # replicate k 0) = Ok (length (filter (\<lambda>i. hasBit [b] i = Ok 1) [0..<8]))"
proof -
  let ?data = "b # replicate k 0"
  have "[0..<length ?data * 8] = [0..<8] @ [8..<8 + k * 8]" using upt_add_eq_append [of 0 8 "k * 8"] by simp
  moreover have "filter (\<lambda>i. hasBit ?data i = Ok 1) [8..<8 + k * 8] = []"
    by (auto simp: filter_empty_conv hasBit_def idx_def nth_Cons' less_mult_imp_div_less)
  moreover have "filter (\<lambda>i. hasBit ?data i = Ok 1) [0..<8] = filter (\<lambda>i. hasBit [b] i = Ok 1) [0..<8]"
    by (rule filter_cong) (auto simp: hasBit_def idx_def)
  ultimately show ?thesis by (simp only: countSetBits_filter filter_append append_Nil2)
qed

lemma setBytes_head: "setBytes (b # replicate k 0) = unat b * 256 ^ k"
proof (induction k)
  case (Suc k)
  have "setBytes ((b # replicate k 0) @ [0]) = 256 * setBytes (b # replicate k 0)"
    by (simp add: setBytes_def)
  with Suc show ?case by (simp add: replicate_append_same [symmetric])
qed (simp add: setBytes_def)

text \<open>When the low bits of the string are zero, every level of the tree reads \<^verbatim>\<open>left\<close>.\<close>

lemma isLeft_low_zeros:
  assumes "setBytes bits = m * 2 ^ e" and "h < int e + 2" and "h < 2 ^ 64" and "int i \<le> h - 2"
  shows "isLeft bits i h"
proof -
  have "Suc (Suc i) \<le> nat h" "nat h - 2 - i < e" using assms by linarith+
  moreover have "setBytes bits = push_bit e m" using assms(1) by (simp add: push_bit_eq_mult)
  ultimately show ?thesis using isLeft_bit [of i h bits] assms(3) by (simp add: bit_push_bit_iff)
qed

text \<open>The decoder then takes every node from the list, and panics when the list is too short.\<close>

lemma decompactLoop_exhausted:
  assumes "\<forall>i\<in>set is. isLeft bits i h"
  shows "p \<le> length cp \<Longrightarrow> length cp < p + length is \<Longrightarrow>
    decompactLoop H h bits cp is p = Panic IndexOutOfRange"
  using assms
proof (induction "is" arbitrary: p)
  case (Cons i "is")
  then show ?case by (cases "p < length cp") (auto simp: idx_def)
qed simp

lemma DecompactProof_exhausted:
  assumes "length bits = Size H" and "countSetBits bits = Ok 1" and "int (length cp) = h - 2"
    and "setBytes bits = m * 2 ^ e" and "h < int e + 2" and "2 \<le> h" and "h < 2 ^ 64"
  shows "DecompactProof (bits # cp) H h = Panic IndexOutOfRange"
proof -
  have "decompactLoop H h bits cp [0..<nat (h - 1)] 0 = Panic IndexOutOfRange"
    by (rule decompactLoop_exhausted) (use isLeft_low_zeros [OF assms(4,5,7)] assms(3,6) in auto)
  then show ?thesis using assms by (simp add: DecompactProof_def)
qed

section \<open>Properties\<close>

text \<open>
  C22: a proof none of whose nodes equals the default node it is compared with is restored by
  decompaction, each node cut or padded to the digest size.
\<close>

theorem compact_roundtrip:
  assumes "int (length pf) = h - 1" and "length pf \<le> Size H * 8"
    and "\<forall>i<length pf. copyN (Size H) (pf ! i) \<noteq> defaultNodes H ! i"
  shows "\<exists>c. CompactProof pf H h = Ok c \<and> DecompactProof c H h = Ok (map (copyN (Size H)) pf)"
  using CompactProof_none [OF assms] DecompactProof_none [of "map (copyN (Size H)) pf" h H] assms(1) by simp

theorem compact_roundtrip_witness:
  "\<exists>c. CompactProof [[1], [2]] tinyHasher 3 = Ok c \<and> DecompactProof c tinyHasher 3 = Ok [[1], [2]]"
proof -
  have "defaultNodes tinyHasher ! 0 \<noteq> [1] \<and> defaultNodes tinyHasher ! 1 \<noteq> [2]" by code_simp
  then have "\<forall>i<length [[1], [2]]. copyN (Size tinyHasher) ([[1], [2]] ! i) \<noteq> defaultNodes tinyHasher ! i"
    by (auto simp: less_Suc_eq)
  from compact_roundtrip [OF _ _ this, of 3] show ?thesis by simp
qed

text \<open>
  A proof whose first node equals the default node it is compared with, and no other, is
  not restored: in a tree whose height leaves seven bits of the digest unused, as the state
  tree's 160 of 256 does, decompacting what compaction wrote panics.
\<close>

theorem compacted_default_panics:
  assumes "hasher_ok H" and "int (length pf) = h - 1" and "2 \<le> h" and "h < 8 * int (Size H) - 6" and "h < 2 ^ 64"
    and "copyN (Size H) (pf ! 0) = defaultNodes H ! 0"
    and "\<forall>i<length pf. 0 < i \<longrightarrow> copyN (Size H) (pf ! i) \<noteq> defaultNodes H ! i"
  shows "\<exists>c. CompactProof pf H h = Ok c \<and> DecompactProof c H h = Panic IndexOutOfRange"
proof -
  obtain k where k: "Size H = Suc k" using assms(1) by (cases "Size H") (auto simp: hasher_ok_def)
  obtain n where n: "length pf = Suc n" "nat (h - 1) = Suc n" using assms(2,3) by (cases "length pf") auto
  let ?bits = "1 # replicate k 0 :: bytes"
  let ?cp = "map (\<lambda>i. copyN (Size H) (pf ! i)) [1..<Suc n]"
  have len: "length pf \<le> length (defaultNodes H)" using assms(2,4) by (simp add: length_defaultNodes)
  then have ne: "defaultNodes H \<noteq> []" using n by auto
  have "compactLoop H pf [1..<Suc n] ?bits [] = Ok (?bits, [] @ ?cp)"
    by (rule compactLoop_none) (use assms(7) n len in auto)
  moreover have "setBit (emptyBytes (Size H)) 0 = Ok ?bits"
    by (simp add: setBit_def emptyBytes_def k idx_def setIdx_def Let_def)
  ultimately have "compactLoop H pf [0..<Suc n] (emptyBytes (Size H)) [] = Ok (?bits, ?cp)"
    using n len assms(6) ne by (simp add: upt_conv_Cons idx_def Let_def del: upt_Suc)
  then have c: "CompactProof pf H h = Ok (?bits # ?cp)" using assms(2) n by (simp add: CompactProof_def)
  have one: "length (filter (\<lambda>i. hasBit [1] i = Ok 1) [0..<8]) = 1" by code_simp
  have "DecompactProof (?bits # ?cp) H h = Panic IndexOutOfRange"
  proof (rule DecompactProof_exhausted)
    show "countSetBits ?bits = Ok 1" by (simp only: countSetBits_head one)
    show "setBytes ?bits = 1 * 2 ^ (8 * k)" by (simp add: setBytes_head power_mult)
  qed (use assms n k in auto)
  with c show ?thesis by blast
qed

theorem compacted_default_panics_witness:
  "\<exists>c. CompactProof [defaultNodes sampleHasher ! 0] sampleHasher 2 = Ok c \<and>
     DecompactProof c sampleHasher 2 = Panic IndexOutOfRange"
proof -
  have "length (defaultNodes sampleHasher ! 0) = 32" by code_simp
  then show ?thesis
    using compacted_default_panics [OF sampleHasher_ok(1), of "[defaultNodes sampleHasher ! 0]" 2] by simp
qed

text \<open>
  Whoever verifies compact proofs can be made to panic: a proof with the highest bit of
  its first byte set, and one node less than the path needs, passes the size check and runs
  past its end, whatever the root, the key, the value and the nodes.
\<close>

theorem crafted_compact_proof_panics:
  assumes "hasher_ok H" and "int (length ns) = h - 2" and "2 \<le> h" and "h \<le> 8 * int (Size H)" and "h < 2 ^ 64"
  shows "VerifyCompactProof ((128 # replicate (Size H - 1) 0) # ns) rt key v H h = Panic IndexOutOfRange"
proof -
  obtain k where k: "Size H = Suc k" using assms(1) by (cases "Size H") (auto simp: hasher_ok_def)
  let ?bits = "128 # replicate (Size H - 1) 0 :: bytes"
  have one: "length (filter (\<lambda>i. hasBit [128] i = Ok 1) [0..<8]) = 1" by code_simp
  have "DecompactProof (?bits # ns) H h = Panic IndexOutOfRange"
  proof (rule DecompactProof_exhausted)
    show "countSetBits ?bits = Ok 1" by (simp only: countSetBits_head one)
    show "setBytes ?bits = 1 * 2 ^ (8 * k + 7)" by (simp add: setBytes_head k power_add power_mult)
  qed (use assms k in auto)
  then show ?thesis by (simp add: VerifyCompactProof_def)
qed

theorem crafted_compact_proof_panics_witness:
  "VerifyCompactProof [[128], [7]] [1] [2] [3] tinyHasher 3 = Panic IndexOutOfRange"
  using crafted_compact_proof_panics [OF tinyHasher_ok(1), of "[[7]]" 3] by simp

text \<open>
  C23: adding a branch to a partial tree computes the root that verification compares with:
  the proof verifies against a root exactly if \<^verbatim>\<open>AddBranches\<close> returns that root.
\<close>

theorem add_branches_agrees_with_verification:
  assumes "hasher_ok H" and "int (length pf) = height s - 1" and "\<forall>p\<in>set pf. length p = Size H"
  shows "\<exists>newRoot s' d'. AddBranches mem_iface H s d pf key v up = (Ok newRoot, s', d', rev pf) \<and>
    (\<forall>rt. VerifyProof pf rt key v H (height s) \<longleftrightarrow> rt = newRoot) \<and>
    root s' = (if up then newRoot else root s)"
  using mem.AddBranches_proofRoot [OF assms, of d key v up] assms(2)
  by (auto simp: VerifyProof_iff SetRoot_def)

theorem add_branches_agrees_with_verification_witness:
  "\<exists>newRoot s' d'. AddBranches mem_iface tinyHasher (NewDeepSparseMerkleSubTree 2 True) NewDB [[4]] [1] [2] True =
       (Ok newRoot, s', d', [[4]]) \<and>
     (\<forall>rt. VerifyProof [[4]] rt [1] [2] tinyHasher 2 \<longleftrightarrow> rt = newRoot) \<and> root s' = newRoot"
  using add_branches_agrees_with_verification [OF tinyHasher_ok(1), of "[[4]]" "NewDeepSparseMerkleSubTree 2 True" NewDB "[1]" "[2]" True]
  by (simp add: NewDeepSparseMerkleSubTree_def)

end
