(* ===== verification/Store_Properties.thy ===== *)
theory Store_Properties
  imports Sample_Parameters
begin

text \<open>
  The properties of the in-memory database as its clients see it: keys of different
  namespaces, transactions, iterators; and the round trips of the stored records.
\<close>

section \<open>Keys and transactions\<close>

text \<open>
  C27: namespaces do not interfere. A value set in a namespace of the code is read back under
  its own namespace and key, and every other namespace and key reads what it did before.
\<close>

theorem namespaces_separate:
  assumes "ns \<in> set namespaces" and "ns' \<in> set namespaces"
  shows "db_Get mem_iface (snd (db_Set mem_iface d (Some ns) k v)) (Some ns') k' =
    (if ns' = ns \<and> k' = k then Ok (Some v) else db_Get mem_iface d (Some ns') k')"
proof -
  obtain d' where "db_Set mem_iface d (Some ns) k v = (Ok (), d')" using mem.SetE by blast
  with mem.get_after_set [OF this] assms show ?thesis by (auto simp: dbKey_namespace_inject)
qed

theorem namespaces_separate_witness:
  "db_Get mem_iface (snd (db_Set mem_iface NewDB (Some NamespaceLastKey) [] [1])) (Some NamespaceStateTrie) [] =
     db_Get mem_iface NewDB (Some NamespaceStateTrie) []"
  using namespaces_separate [of NamespaceLastKey NamespaceStateTrie NewDB "[]" "[1]" "[]"] by simp

text \<open>The writes queued in a transaction, one \<^verbatim>\<open>Set\<close> after the other.\<close>

fun queueAll :: "(bytes option \<times> bytes \<times> bytes) list \<Rightarrow> memtx \<Rightarrow> memtx" where
  "queueAll [] t = t"
| "queueAll ((ns, k, v) # ws) t = queueAll ws (snd (memtx_Set t ns k v))"

lemma queueAll_state:
  "opList (queueAll ws t) = opList t @ map (\<lambda>(ns, k, v). setOp ns k v) ws"
  "isDiscard (queueAll ws t) = isDiscard t" "isCommit (queueAll ws t) = isCommit t"
  by (induction ws t rule: queueAll.induct) (simp_all add: memtx_Set_def)

lemma applyOps_last:
  "applyOps (map (\<lambda>(ns, k, v). setOp ns k v) ws) m key =
     (case map_of (rev (map (\<lambda>(ns, k, v). (dbKey ns k, v)) ws)) key of Some v \<Rightarrow> Some v | None \<Rightarrow> m key)"
  by (induction ws arbitrary: m) (auto split: option.splits)

text \<open>
  C29: a transaction takes effect at its commit, as a whole and once. Committed on whatever
  the database has become in the meantime, every key reads its last queued write, or its
  current value if there is none; a second commit is refused and changes nothing, and so is
  the commit of a discarded transaction.
\<close>

theorem transaction_commits_last_writes:
  "\<exists>t' d'. tx_Commit mem_iface (queueAll ws (db_NewTx mem_iface d0)) d = (Ok (), t', d') \<and>
     (\<forall>ns k. db_Get mem_iface d' ns k =
       (case map_of (rev (map (\<lambda>(ns, k, v). (dbKey ns k, v)) ws)) (dbKey ns k) of
          Some v \<Rightarrow> Ok (Some v) | None \<Rightarrow> db_Get mem_iface d ns k)) \<and>
     (\<forall>d''. tx_Commit mem_iface t' d'' = (Err ErrCommitTwice, t', d'')) \<and>
     tx_Commit mem_iface (tx_Discard mem_iface (queueAll ws (db_NewTx mem_iface d0))) d =
       (Err ErrCommitAfterDiscard, tx_Discard mem_iface (queueAll ws (db_NewTx mem_iface d0)), d)"
proof -
  let ?t = "queueAll ws (db_NewTx mem_iface d0)"
  have t: "opList ?t = map (\<lambda>(ns, k, v). setOp ns k v) ws" "\<not> isDiscard ?t" "\<not> isCommit ?t"
    using mem.NewTx [of d0] by (simp_all add: queueAll_state)
  obtain t' d' where c: "tx_Commit mem_iface ?t d = (Ok (), t', d')" "mem_view d' = applyOps (opList ?t) (mem_view d)"
    using mem.Commit [of ?t d] t by auto
  have "\<not> isDiscard t'" "isCommit t'" using c(1) t by (auto simp: mem_iface_def memtx_Commit_def)
  then have "tx_Commit mem_iface t' d'' = (Err ErrCommitTwice, t', d'')" for d''
    by (simp add: mem_iface_def memtx_Commit_def)
  moreover have "db_Get mem_iface d' ns k =
      (case map_of (rev (map (\<lambda>(ns, k, v). (dbKey ns k, v)) ws)) (dbKey ns k) of
         Some v \<Rightarrow> Ok (Some v) | None \<Rightarrow> db_Get mem_iface d ns k)" for ns k
    by (simp add: mem.Get c(2) t(1) applyOps_last split: option.splits)
  moreover have "tx_Commit mem_iface (tx_Discard mem_iface ?t) d = (Err ErrCommitAfterDiscard, tx_Discard mem_iface ?t, d)"
    by (simp add: mem_iface_def memtx_Commit_def memtx_Discard_def)
  ultimately show ?thesis using c(1) by blast
qed

section \<open>Iterators\<close>

text \<open>
  C30: a scan visits each stored key of its range exactly once, with its value, in ascending
  order, or in descending order when the end lies below the start. An absent end lies below
  every start that is not empty, so such a scan runs downwards from the start.
\<close>

theorem scan_sorted_and_complete:
  assumes "distinct (map fst (db d))"
  shows "sorted_wrt (if contents stop < contents start then (>) else (<)) (map fst (scan d (mem_Iterator d start stop))) \<and>
    (\<forall>k r. (k, r) \<in> set (scan d (mem_Iterator d start stop)) \<longleftrightarrow>
       inRange start stop k \<and> (\<exists>v. r = Some v \<and> db_Get mem_iface d None k = Ok (Some v)))"
proof -
  let ?ks = "filter (inRange start stop) (map fst (db d))"
  have keys: "iter_keys (mem_Iterator d start stop) = (if contents stop < contents start then rev (sort ?ks) else sort ?ks)"
    unfolding mem_Iterator_def Let_def isKeyInRange_inRange by simp
  have "sorted_wrt (<) (sort ?ks)"
    using assms by (simp add: strict_sorted_iff distinct_filter)
  then have "sorted_wrt (if contents stop < contents start then (>) else (<)) (iter_keys (mem_Iterator d start stop))"
    by (simp add: keys sorted_wrt_rev)
  moreover have "map fst (scan d (mem_Iterator d start stop)) = iter_keys (mem_Iterator d start stop)"
    by (simp add: scan_Iterator comp_def)
  moreover have "(k, r) \<in> set (scan d (mem_Iterator d start stop)) \<longleftrightarrow>
      inRange start stop k \<and> (\<exists>v. r = Some v \<and> db_Get mem_iface d None k = Ok (Some v))" for k r
  proof -
    have "k \<in> set (iter_keys (mem_Iterator d start stop)) \<longleftrightarrow> inRange start stop k \<and> map_of (db d) k \<noteq> None"
      by (auto simp: keys map_of_eq_None_iff)
    then show ?thesis by (auto simp: scan_Iterator mem.Get mem_view_def)
  qed
  ultimately show ?thesis by auto
qed

theorem scan_sorted_and_complete_witness:
  "map fst (scan \<lparr>db = [([3], [30]), ([1], [10]), ([2], [20])]\<rparr> (mem_Iterator \<lparr>db = [([3], [30]), ([1], [10]), ([2], [20])]\<rparr> (Some [2]) None)) = [[2], [1]]
   \<and> sorted_wrt (>) (map fst (scan \<lparr>db = [([3], [30]), ([1], [10]), ([2], [20])]\<rparr> (mem_Iterator \<lparr>db = [([3], [30]), ([1], [10]), ([2], [20])]\<rparr> (Some [2]) None)))"
proof -
  let ?d = "\<lparr>db = [([3], [30]), ([1], [10]), ([2], [20])]\<rparr> :: memdb"
  have "distinct (map fst (db ?d))" by simp
  from scan_sorted_and_complete [OF this, of None "Some [2]"]
  have "sorted_wrt (>) (map fst (scan ?d (mem_Iterator ?d (Some [2]) None)))" by (simp add: contents_def)
  moreover have "map fst (scan ?d (mem_Iterator ?d (Some [2]) None)) = [[2], [1]]"
    unfolding scan_Iterator by (simp add: mem_Iterator_def contents_def isKeyInRange_def comp_def)
  ultimately show ?thesis by simp
qed

section \<open>Stored records\<close>

text \<open>
  C24: an account record whose numbers fit in 256 bits serialises, and the bytes are read back
  as the record. Packing goes by the order of the arguments, unpacking by their names, so this
  ties both to the argument list of the code.
\<close>

theorem account_info_roundtrip:
  assumes "serializer_ok s" and "account_fits info"
  shows "\<exists>data. SerializeAccountInfo s info = Ok data \<and> DeserializeAccountInfo s data = Ok info"
  by (rule account_roundtrip [OF assms])

theorem account_info_roundtrip_witness:
  "\<exists>data. SerializeAccountInfo sampleSerializer \<lparr>Account = replicate 20 7, Balances = [5], TransferNonces = [1], WithdrawNonces = [0]\<rparr> = Ok data \<and>
     DeserializeAccountInfo sampleSerializer data =
       Ok \<lparr>Account = replicate 20 7, Balances = [5], TransferNonces = [1], WithdrawNonces = [0]\<rparr>"
  by (rule account_info_roundtrip [OF sampleSerializer_ok]) (simp add: account_fits_def uint256_def)

text \<open>
  C25: each of the five transitions, with the type field of its Go type and numbers that fit,
  is read back by the dispatch on its first word.
\<close>

theorem transition_roundtrip:
  assumes "serializer_ok s" and "transition_fits t"
  shows "\<exists>data. SerializeTransition s t = Ok data \<and> DeserializeTransition s data = Ok t"
  by (rule transition_roundtrip_lemma [OF assms])

theorem transition_roundtrip_witness:
  "\<exists>data. SerializeTransition sampleSerializer (DepositTransition 1 (replicate 32 3) 0 0 5 [9]) = Ok data \<and>
     DeserializeTransition sampleSerializer data = Ok (DepositTransition 1 (replicate 32 3) 0 0 5 [9])"
  by (rule transition_roundtrip [OF sampleSerializer_ok]) (simp add: uint256_def)

text \<open>
  C26: a block of such transitions survives storage: what \<^verbatim>\<open>Serialize\<close> returns is read back
  from the encoded block and from the separate fields alike.
\<close>

theorem block_roundtrip:
  assumes "serializer_ok s" and "list_all transition_fits (Transitions b)"
  shows "\<exists>raw data. SerializeRollupBlock s b = Ok (raw, data) \<and>
    DeserializeRollupBlockFromData s data = Ok b \<and> DeserializeRollupBlockFromFields s (BlockNumber b) raw = Ok b"
  by (rule block_roundtrip_lemma [OF assms])

theorem block_roundtrip_witness:
  "\<exists>raw data. SerializeRollupBlock sampleSerializer \<lparr>BlockNumber = 3, Transitions = [DepositTransition 1 (replicate 32 3) 0 0 5 [9]]\<rparr> = Ok (raw, data) \<and>
     DeserializeRollupBlockFromData sampleSerializer data = Ok \<lparr>BlockNumber = 3, Transitions = [DepositTransition 1 (replicate 32 3) 0 0 5 [9]]\<rparr>"
  using block_roundtrip [OF sampleSerializer_ok, of "\<lparr>BlockNumber = 3, Transitions = [DepositTransition 1 (replicate 32 3) 0 0 5 [9]]\<rparr>"]
  by (auto simp: uint256_def)

end
