(* ===== verification/Badger_DB.thy ===== *)
theory Badger_DB
  imports Store_Contract
begin

text \<open>
  The persistent provider of \<^verbatim>\<open>db/badgerdb\<close>, a wrapper of the badger store. Badger is
  third-party code, so its methods are the parameter \<open>badger\<close>: \<open>'d\<close> is the state of an
  open store, \<open>'x\<close> a transaction, \<open>'w\<close> a write batch, \<open>'m\<close> an item and \<open>'i\<close> an
  iterator. What the wrapper relies on is the predicate \<open>badger_ok\<close>. Log messages and the
  times that only they use are left out.
\<close>

section \<open>The library\<close>

text \<open>
  The variables that the closures passed to \<^verbatim>\<open>View\<close> assign; a closure passed to
  \<^verbatim>\<open>Update\<close> or \<^verbatim>\<open>View\<close> takes and returns the transaction or the variables.
\<close>

record captured =
  cap_val :: bytes
  cap_isExist :: bool

datatype loadingMode = FileIO | LoadToRAM | MemoryMap

record badgerOptions =
  Dir :: string
  ValueLogLoadingMode :: loadingMode
  TableLoadingMode :: loadingMode
  ValueThreshold :: int
  ValueLogFileSize :: int

record ('d, 'x, 'w, 'm, 'i) badger =
  DefaultOptions :: "string \<Rightarrow> badgerOptions"
  Open :: "badgerOptions \<Rightarrow> 'd outcome"
  CloseStore :: "'d \<Rightarrow> unit outcome \<times> 'd"
  ErrKeyNotFound :: error
  UpdateTxn :: "'d \<Rightarrow> ('x \<Rightarrow> unit outcome \<times> 'x) \<Rightarrow> unit outcome \<times> 'd"
  ViewTxn :: "'d \<Rightarrow> ('x \<Rightarrow> captured \<Rightarrow> unit outcome \<times> captured) \<Rightarrow> captured \<Rightarrow> unit outcome \<times> captured"
  NewTransaction :: "'d \<Rightarrow> bool \<Rightarrow> 'x"
  txn_Set :: "'x \<Rightarrow> bytes \<Rightarrow> bytes \<Rightarrow> unit outcome \<times> 'x"
  txn_Delete :: "'x \<Rightarrow> bytes \<Rightarrow> unit outcome \<times> 'x"
  txn_Get :: "'x \<Rightarrow> bytes \<Rightarrow> 'm outcome"
  txn_Commit :: "'x \<Rightarrow> 'd \<Rightarrow> unit outcome \<times> 'x \<times> 'd"
  txn_Discard :: "'x \<Rightarrow> 'x"
  item_Key :: "'m \<Rightarrow> bytes"
  item_ValueCopy :: "'m \<Rightarrow> bytes outcome"
  NewWriteBatch :: "'d \<Rightarrow> 'w"
  batch_Set :: "'w \<Rightarrow> bytes \<Rightarrow> bytes \<Rightarrow> unit outcome \<times> 'w"
  batch_Delete :: "'w \<Rightarrow> bytes \<Rightarrow> unit outcome \<times> 'w"
  batch_Flush :: "'w \<Rightarrow> 'd \<Rightarrow> unit outcome \<times> 'w \<times> 'd"
  batch_Cancel :: "'w \<Rightarrow> 'w"
  NewIterator :: "'x \<Rightarrow> bool \<Rightarrow> 'i"
  cursor_Seek :: "'i \<Rightarrow> bytes \<Rightarrow> 'i"
  cursor_Valid :: "'i \<Rightarrow> bool"
  cursor_Next :: "'i \<Rightarrow> 'i"
  cursor_Item :: "'i \<Rightarrow> 'm option"

section \<open>Opening and closing\<close>

definition badgerDbGcInterval :: int where "badgerDbGcInterval = 10 * 60 * 10 ^ 9"
definition badgerDbGcSize :: "64 word" where "badgerDbGcSize = 2 ^ 20"
definition badgerValueLogFileSize :: int where "badgerValueLogFileSize = 2 ^ 26 - 1"

record 'd badgerDB =
  bdg_db :: 'd
  bdg_cancelled :: bool
  bdg_name :: string

definition newBadgerDB :: "('d, 'x, 'w, 'm, 'i) badger \<Rightarrow> string \<Rightarrow> 'd badgerDB outcome" where
  "newBadgerDB B dir =
     (let opts = (DefaultOptions B dir)\<lparr>ValueLogLoadingMode := FileIO, TableLoadingMode := FileIO,
        ValueThreshold := 1024, ValueLogFileSize := badgerValueLogFileSize\<rparr>
      in bindO (Open B opts) (\<lambda>d. Ok \<lparr>bdg_db = d, bdg_cancelled = False, bdg_name = dir\<rparr>))"

definition badger_Type :: string where
  "badger_Type = ''badgerdb''"

definition badger_Close :: "('d, 'x, 'w, 'm, 'i) badger \<Rightarrow> 'd badgerDB \<Rightarrow> unit outcome \<times> 'd badgerDB" where
  "badger_Close B d =
     (case CloseStore B (bdg_db d) of (r, d') \<Rightarrow> (r, d\<lparr>bdg_cancelled := True, bdg_db := d'\<rparr>))"

text \<open>
  The garbage collector: one event per tick, with the time, the size of the value log, the
  result of \<^verbatim>\<open>RunValueLogGC\<close> (which the code calls only when it is due), the size after it
  and the time when it ended. Sizes are \<^verbatim>\<open>int64\<close> and their sum wraps. The list that is
  returned says at which ticks a collection ran.
\<close>

datatype gcEvent = GcTick int "64 word" "unit outcome" "64 word" int | GcDone

fun runBadgerGC :: "int \<Rightarrow> 64 word \<Rightarrow> gcEvent list \<Rightarrow> bool list" where
  "runBadgerGC lastGcT lastDbVlogSize [] = []"
| "runBadgerGC lastGcT lastDbVlogSize (GcDone # es) = []"
| "runBadgerGC lastGcT lastDbVlogSize (GcTick now currentDbVlogSize gc afterGcDbVlogSize ended # es) =
     (if now - lastGcT > badgerDbGcInterval \<or>
         sint (lastDbVlogSize + badgerDbGcSize) > sint currentDbVlogSize
      then True # runBadgerGC ended (if is_Ok gc then afterGcDbVlogSize else currentDbVlogSize) es
      else False # runBadgerGC lastGcT lastDbVlogSize es)"

section \<open>Single operations\<close>

definition badger_Set ::
  "('d, 'x, 'w, 'm, 'i) badger \<Rightarrow> 'd badgerDB \<Rightarrow> bytes option \<Rightarrow> bytes \<Rightarrow> bytes \<Rightarrow> unit outcome \<times> 'd badgerDB" where
  "badger_Set B d namespace key value =
     (let key = dbKey namespace key
      in case UpdateTxn B (bdg_db d) (\<lambda>txn. txn_Set B txn key value) of
           (err, d') \<Rightarrow> (err, d\<lparr>bdg_db := d'\<rparr>))"

definition badger_Delete ::
  "('d, 'x, 'w, 'm, 'i) badger \<Rightarrow> 'd badgerDB \<Rightarrow> bytes option \<Rightarrow> bytes \<Rightarrow> unit outcome \<times> 'd badgerDB" where
  "badger_Delete B d namespace key =
     (let key = dbKey namespace key
      in case UpdateTxn B (bdg_db d) (\<lambda>txn. txn_Delete B txn key) of
           (err, d') \<Rightarrow> (err, d\<lparr>bdg_db := d'\<rparr>))"

definition badger_Get ::
  "('d, 'x, 'w, 'm, 'i) badger \<Rightarrow> 'd badgerDB \<Rightarrow> bytes option \<Rightarrow> bytes \<Rightarrow> bytes option outcome" where
  "badger_Get B d namespace key =
     (let key = dbKey namespace key
      in case ViewTxn B (bdg_db d) (\<lambda>txn vars.
             thenS (txn_Get B txn key, vars) (\<lambda>item vars.
             thenS (item_ValueCopy B item, vars) (\<lambda>getVal vars.
             (Ok (), vars\<lparr>cap_val := getVal\<rparr>)))) \<lparr>cap_val = [], cap_isExist = False\<rparr> of
           (Err err, vars) \<Rightarrow> if err = ErrKeyNotFound B then Ok None else Err err
         | (Panic p, vars) \<Rightarrow> Panic p
         | (Ok _, vars) \<Rightarrow> Ok (Some (cap_val vars)))"

definition badger_Exist ::
  "('d, 'x, 'w, 'm, 'i) badger \<Rightarrow> 'd badgerDB \<Rightarrow> bytes option \<Rightarrow> bytes \<Rightarrow> bool outcome" where
  "badger_Exist B d namespace key =
     (let key = dbKey namespace key
      in case ViewTxn B (bdg_db d) (\<lambda>txn vars.
             thenS (txn_Get B txn key, vars) (\<lambda>item vars.
             (Ok (), vars\<lparr>cap_isExist := True\<rparr>))) \<lparr>cap_val = [], cap_isExist = False\<rparr> of
           (Err err, vars) \<Rightarrow> if err = ErrKeyNotFound B then Ok False else Err err
         | (Panic p, vars) \<Rightarrow> Panic p
         | (Ok _, vars) \<Rightarrow> Ok (cap_isExist vars))"

section \<open>Transactions and bulks\<close>

record 'x badgerTx =
  btx_tx :: 'x
  btx_setCount :: u64
  btx_delCount :: u64
  btx_keySize :: u64
  btx_valueSize :: u64

definition badger_NewTx :: "('d, 'x, 'w, 'm, 'i) badger \<Rightarrow> 'd badgerDB \<Rightarrow> 'x badgerTx" where
  "badger_NewTx B d = \<lparr>btx_tx = NewTransaction B (bdg_db d) True, btx_setCount = 0, btx_delCount = 0,
     btx_keySize = 0, btx_valueSize = 0\<rparr>"

definition badgertx_Set ::
  "('d, 'x, 'w, 'm, 'i) badger \<Rightarrow> 'x badgerTx \<Rightarrow> bytes option \<Rightarrow> bytes \<Rightarrow> bytes \<Rightarrow> unit outcome \<times> 'x badgerTx" where
  "badgertx_Set B t namespace key value =
     (let key = dbKey namespace key
      in bindS (txn_Set B (btx_tx t) key value) (\<lambda>_ x.
           (Ok (), t\<lparr>btx_tx := x, btx_setCount := btx_setCount t + 1,
              btx_keySize := btx_keySize t + of_nat (length key),
              btx_valueSize := btx_valueSize t + of_nat (length value)\<rparr>))
         (\<lambda>x. t\<lparr>btx_tx := x\<rparr>))"

definition badgertx_Delete ::
  "('d, 'x, 'w, 'm, 'i) badger \<Rightarrow> 'x badgerTx \<Rightarrow> bytes option \<Rightarrow> bytes \<Rightarrow> unit outcome \<times> 'x badgerTx" where
  "badgertx_Delete B t namespace key =
     (let key = dbKey namespace key
      in bindS (txn_Delete B (btx_tx t) key) (\<lambda>_ x.
           (Ok (), t\<lparr>btx_tx := x, btx_delCount := btx_delCount t + 1\<rparr>))
         (\<lambda>x. t\<lparr>btx_tx := x\<rparr>))"

definition badgertx_Commit ::
  "('d, 'x, 'w, 'm, 'i) badger \<Rightarrow> 'x badgerTx \<Rightarrow> 'd badgerDB \<Rightarrow> unit outcome \<times> 'x badgerTx \<times> 'd badgerDB" where
  "badgertx_Commit B t d =
     (case txn_Commit B (btx_tx t) (bdg_db d) of
        (err, x, d') \<Rightarrow> (err, t\<lparr>btx_tx := x\<rparr>, d\<lparr>bdg_db := d'\<rparr>))"

definition badgertx_Discard :: "('d, 'x, 'w, 'm, 'i) badger \<Rightarrow> 'x badgerTx \<Rightarrow> 'x badgerTx" where
  "badgertx_Discard B t = t\<lparr>btx_tx := txn_Discard B (btx_tx t)\<rparr>"

record 'w badgerBulk =
  bbk_bulk :: 'w
  bbk_setCount :: u64
  bbk_delCount :: u64
  bbk_keySize :: u64
  bbk_valueSize :: u64

definition badger_NewBulk :: "('d, 'x, 'w, 'm, 'i) badger \<Rightarrow> 'd badgerDB \<Rightarrow> 'w badgerBulk" where
  "badger_NewBulk B d = \<lparr>bbk_bulk = NewWriteBatch B (bdg_db d), bbk_setCount = 0, bbk_delCount = 0,
     bbk_keySize = 0, bbk_valueSize = 0\<rparr>"

definition badgerbulk_Set ::
  "('d, 'x, 'w, 'm, 'i) badger \<Rightarrow> 'w badgerBulk \<Rightarrow> bytes option \<Rightarrow> bytes \<Rightarrow> bytes \<Rightarrow>
     unit outcome \<times> 'w badgerBulk" where
  "badgerbulk_Set B b namespace key value =
     (let key = dbKey namespace key
      in bindS (batch_Set B (bbk_bulk b) key value) (\<lambda>_ w.
           (Ok (), b\<lparr>bbk_bulk := w, bbk_setCount := bbk_setCount b + 1,
              bbk_keySize := bbk_keySize b + of_nat (length key),
              bbk_valueSize := bbk_valueSize b + of_nat (length value)\<rparr>))
         (\<lambda>w. b\<lparr>bbk_bulk := w\<rparr>))"

definition badgerbulk_Delete ::
  "('d, 'x, 'w, 'm, 'i) badger \<Rightarrow> 'w badgerBulk \<Rightarrow> bytes option \<Rightarrow> bytes \<Rightarrow> unit outcome \<times> 'w badgerBulk" where
  "badgerbulk_Delete B b namespace key =
     (let key = dbKey namespace key
      in bindS (batch_Delete B (bbk_bulk b) key) (\<lambda>_ w.
           (Ok (), b\<lparr>bbk_bulk := w, bbk_delCount := bbk_delCount b + 1\<rparr>))
         (\<lambda>w. b\<lparr>bbk_bulk := w\<rparr>))"

definition badgerbulk_Flush ::
  "('d, 'x, 'w, 'm, 'i) badger \<Rightarrow> 'w badgerBulk \<Rightarrow> 'd badgerDB \<Rightarrow> unit outcome \<times> 'w badgerBulk \<times> 'd badgerDB" where
  "badgerbulk_Flush B b d =
     (case batch_Flush B (bbk_bulk b) (bdg_db d) of
        (err, w, d') \<Rightarrow> (err, b\<lparr>bbk_bulk := w\<rparr>, d\<lparr>bdg_db := d'\<rparr>))"

definition badgerbulk_DiscardLast :: "('d, 'x, 'w, 'm, 'i) badger \<Rightarrow> 'w badgerBulk \<Rightarrow> 'w badgerBulk" where
  "badgerbulk_DiscardLast B b = b\<lparr>bbk_bulk := batch_Cancel B (bbk_bulk b)\<rparr>"

definition badger_iface ::
  "('d, 'x, 'w, 'm, 'i) badger \<Rightarrow> ('d badgerDB, 'x badgerTx, 'w badgerBulk) DB" where
  "badger_iface B = \<lparr>db_Type = badger_Type, db_Set = badger_Set B, db_Delete = badger_Delete B,
     db_Get = badger_Get B, db_Exist = badger_Exist B, db_NewTx = badger_NewTx B,
     db_NewBulk = badger_NewBulk B, tx_Set = badgertx_Set B, tx_Delete = badgertx_Delete B,
     tx_Commit = badgertx_Commit B, tx_Discard = badgertx_Discard B, bulk_Set = badgerbulk_Set B,
     bulk_Delete = badgerbulk_Delete B, bulk_Flush = badgerbulk_Flush B,
     bulk_DiscardLast = badgerbulk_DiscardLast B\<rparr>"

section \<open>Iterators\<close>

text \<open>
  The transaction of an iterator is never discarded. \<^verbatim>\<open>Key\<close> and \<^verbatim>\<open>Value\<close> read the
  item of the cursor without asking \<^verbatim>\<open>Valid\<close>; a cursor past its last item has none.
\<close>

record 'i badgerIterator =
  bit_start :: "bytes option"
  bit_end :: "bytes option"
  bit_reverse :: bool
  bit_iter :: 'i

definition badger_Iterator ::
  "('d, 'x, 'w, 'm, 'i) badger \<Rightarrow> 'd badgerDB \<Rightarrow> bytes option \<Rightarrow> bytes option \<Rightarrow> 'i badgerIterator" where
  "badger_Iterator B d start stop =
     (let badgerTx = NewTransaction B (bdg_db d) True;
          reverse = (contents stop < contents start);
          badgerIter = cursor_Seek B (NewIterator B badgerTx reverse) (contents start)
      in \<lparr>bit_start = start, bit_end = stop, bit_reverse = reverse, bit_iter = badgerIter\<rparr>)"

definition cursorItem :: "('d, 'x, 'w, 'm, 'i) badger \<Rightarrow> 'i badgerIterator \<Rightarrow> 'm outcome" where
  "cursorItem B it = (case cursor_Item B (bit_iter it) of None \<Rightarrow> Panic NilDereference | Some item \<Rightarrow> Ok item)"

definition badgerit_Valid :: "('d, 'x, 'w, 'm, 'i) badger \<Rightarrow> 'i badgerIterator \<Rightarrow> bool outcome" where
  "badgerit_Valid B it =
     (if \<not> cursor_Valid B (bit_iter it) then Ok False
      else case bit_end it of
        None \<Rightarrow> Ok True
      | Some stop \<Rightarrow>
          bindO (cursorItem B it) (\<lambda>item.
          if \<not> bit_reverse it
          then if stop \<le> item_Key B item then Ok False else Ok True
          else if item_Key B item \<le> stop then Ok False else Ok True))"

definition badgerit_Next ::
  "('d, 'x, 'w, 'm, 'i) badger \<Rightarrow> 'i badgerIterator \<Rightarrow> unit outcome \<times> 'i badgerIterator" where
  "badgerit_Next B it =
     thenS (badgerit_Valid B it, it) (\<lambda>valid it.
     if valid then (Ok (), it\<lparr>bit_iter := cursor_Next B (bit_iter it)\<rparr>)
     else (Err ErrIteratorInvalid, it))"

definition badgerit_Key :: "('d, 'x, 'w, 'm, 'i) badger \<Rightarrow> 'i badgerIterator \<Rightarrow> bytes outcome" where
  "badgerit_Key B it = bindO (cursorItem B it) (\<lambda>item. Ok (item_Key B item))"

definition badgerit_Value :: "('d, 'x, 'w, 'm, 'i) badger \<Rightarrow> 'i badgerIterator \<Rightarrow> bytes outcome" where
  "badgerit_Value B it = bindO (cursorItem B it) (\<lambda>item. item_ValueCopy B item)"

end
