(* ===== verification/Badger_Contract.thy ===== *)
theory Badger_Contract
  imports Badger_DB Memory_DB
begin

text \<open>
  What the wrapper of badger relies on, and that it then provides the contract \<open>kv_store\<close>
  and iterates like the in-memory database.
\<close>

section \<open>The documented behaviour of badger\<close>

text \<open>
  What the states of the library stand for: the map of a store, the queue of an open
  transaction and of a write batch, the pairs a cursor still has to visit, and the queues
  that badger accepts (no empty key, a transaction within its size).
\<close>

record ('d, 'x, 'w, 'i) badgerAbs =
  abs_view :: "'d \<Rightarrow> bytes \<rightharpoonup> bytes"
  abs_ops :: "'x \<Rightarrow> txOp list"
  abs_open :: "'x \<Rightarrow> bool"
  abs_batch :: "'w \<Rightarrow> txOp list"
  abs_batchOpen :: "'w \<Rightarrow> bool"
  abs_rest :: "'i \<Rightarrow> (bytes \<times> bytes) list"
  abs_ok :: "txOp list \<Rightarrow> bool"

abbreviation putOp :: "bytes \<Rightarrow> bytes \<Rightarrow> txOp" where
  "putOp k v \<equiv> \<lparr>isSet = True, op_key = k, op_value = v\<rparr>"

abbreviation dropOp :: "bytes \<Rightarrow> txOp" where
  "dropOp k \<equiv> \<lparr>isSet = False, op_key = k, op_value = []\<rparr>"

text \<open>
  Update transactions queue their writes and apply them at the commit. They read nothing, so
  they never conflict, whatever has been committed since they began. \<^verbatim>\<open>Update\<close> commits
  the transaction its closure has filled.
\<close>

definition badger_txn_ok ::
  "('d, 'x, 'w, 'm, 'i) badger \<Rightarrow> ('d, 'x, 'w, 'i) badgerAbs \<Rightarrow> bool" where
  "badger_txn_ok B A \<longleftrightarrow>
     (\<forall>ops ops'. abs_ok A (ops @ ops') \<longrightarrow> abs_ok A ops) \<and>
     (\<forall>d. abs_ops A (NewTransaction B d True) = [] \<and> abs_open A (NewTransaction B d True)) \<and>
     (\<forall>x k v. abs_open A x \<and> abs_ok A (abs_ops A x @ [putOp k v]) \<longrightarrow>
        (\<exists>x'. txn_Set B x k v = (Ok (), x') \<and> abs_ops A x' = abs_ops A x @ [putOp k v] \<and> abs_open A x')) \<and>
     (\<forall>x k. abs_open A x \<and> abs_ok A (abs_ops A x @ [dropOp k]) \<longrightarrow>
        (\<exists>x'. txn_Delete B x k = (Ok (), x') \<and> abs_ops A x' = abs_ops A x @ [dropOp k] \<and> abs_open A x')) \<and>
     (\<forall>x d. abs_open A x \<longrightarrow>
        (\<exists>x' d'. txn_Commit B x d = (Ok (), x', d') \<and> abs_view A d' = applyOps (abs_ops A x) (abs_view A d))) \<and>
     (\<forall>d f x. f (NewTransaction B d True) = (Ok (), x) \<longrightarrow>
        UpdateTxn B d f = (case txn_Commit B x d of (r, x', d') \<Rightarrow> (r, d')))"

text \<open>\<^verbatim>\<open>View\<close> runs its closure on a read-only transaction, which finds what is stored.\<close>

definition badger_view_ok ::
  "('d, 'x, 'w, 'm, 'i) badger \<Rightarrow> ('d, 'x, 'w, 'i) badgerAbs \<Rightarrow> bool" where
  "badger_view_ok B A \<longleftrightarrow>
     (\<forall>d f vars. ViewTxn B d f vars = f (NewTransaction B d False) vars) \<and>
     (\<forall>d k. k \<noteq> [] \<longrightarrow>
        (case abs_view A d k of
           None \<Rightarrow> txn_Get B (NewTransaction B d False) k = Err (ErrKeyNotFound B)
         | Some v \<Rightarrow> \<exists>item. txn_Get B (NewTransaction B d False) k = Ok item \<and>
             item_ValueCopy B item = Ok v))"

definition badger_batch_ok ::
  "('d, 'x, 'w, 'm, 'i) badger \<Rightarrow> ('d, 'x, 'w, 'i) badgerAbs \<Rightarrow> bool" where
  "badger_batch_ok B A \<longleftrightarrow>
     (\<forall>d. abs_batch A (NewWriteBatch B d) = [] \<and> abs_batchOpen A (NewWriteBatch B d)) \<and>
     (\<forall>w k v. abs_batchOpen A w \<and> abs_ok A (abs_batch A w @ [putOp k v]) \<longrightarrow>
        (\<exists>w'. batch_Set B w k v = (Ok (), w') \<and> abs_batch A w' = abs_batch A w @ [putOp k v] \<and> abs_batchOpen A w')) \<and>
     (\<forall>w k. abs_batchOpen A w \<and> abs_ok A (abs_batch A w @ [dropOp k]) \<longrightarrow>
        (\<exists>w'. batch_Delete B w k = (Ok (), w') \<and> abs_batch A w' = abs_batch A w @ [dropOp k] \<and> abs_batchOpen A w')) \<and>
     (\<forall>w d. abs_batchOpen A w \<longrightarrow>
        (\<exists>w' d'. batch_Flush B w d = (Ok (), w', d') \<and> abs_view A d' = applyOps (abs_batch A w) (abs_view A d)))"

text \<open>
  A cursor visits the stored keys in ascending order from the first one not below the key it
  has been set to, or in descending order from the first one not above it.
\<close>

definition pairsFrom :: "(bytes \<rightharpoonup> bytes) \<Rightarrow> bool \<Rightarrow> bytes \<Rightarrow> (bytes \<times> bytes) list" where
  "pairsFrom m reverse start =
     map (\<lambda>k. (k, the (m k)))
       (if reverse then rev (filter (\<lambda>k. k \<le> start) (sorted_list_of_set (dom m)))
        else filter (\<lambda>k. start \<le> k) (sorted_list_of_set (dom m)))"

definition badger_cursor_ok ::
  "('d, 'x, 'w, 'm, 'i) badger \<Rightarrow> ('d, 'x, 'w, 'i) badgerAbs \<Rightarrow> bool" where
  "badger_cursor_ok B A \<longleftrightarrow>
     (\<forall>d reverse start. reverse \<longrightarrow> start \<noteq> [] \<longrightarrow>
        abs_rest A (cursor_Seek B (NewIterator B (NewTransaction B d True) reverse) start) =
          pairsFrom (abs_view A d) reverse start) \<and>
     (\<forall>d start. abs_rest A (cursor_Seek B (NewIterator B (NewTransaction B d True) False) start) =
          pairsFrom (abs_view A d) False start) \<and>
     (\<forall>i. cursor_Valid B i = (abs_rest A i \<noteq> [])) \<and>
     (\<forall>i k v rest. abs_rest A i = (k, v) # rest \<longrightarrow>
        abs_rest A (cursor_Next B i) = rest \<and>
        (\<exists>item. cursor_Item B i = Some item \<and> item_Key B item = k \<and> item_ValueCopy B item = Ok v))"

definition badger_ok ::
  "('d, 'x, 'w, 'm, 'i) badger \<Rightarrow> ('d, 'x, 'w, 'i) badgerAbs \<Rightarrow> bool" where
  "badger_ok B A \<longleftrightarrow> badger_txn_ok B A \<and> badger_view_ok B A \<and> badger_batch_ok B A \<and> badger_cursor_ok B A"

section \<open>The wrapper provides the contract\<close>

lemma badger_txn_laws:
  assumes "badger_txn_ok B A"
  shows "abs_ok A (ops @ ops') \<Longrightarrow> abs_ok A ops"
    and "abs_ops A (NewTransaction B d True) = []" and "abs_open A (NewTransaction B d True)"
    and "abs_open A x \<Longrightarrow> abs_ok A (abs_ops A x @ [putOp k v]) \<Longrightarrow>
      \<exists>x'. txn_Set B x k v = (Ok (), x') \<and> abs_ops A x' = abs_ops A x @ [putOp k v] \<and> abs_open A x'"
    and "abs_open A x \<Longrightarrow> abs_ok A (abs_ops A x @ [dropOp k]) \<Longrightarrow>
      \<exists>x'. txn_Delete B x k = (Ok (), x') \<and> abs_ops A x' = abs_ops A x @ [dropOp k] \<and> abs_open A x'"
    and "abs_open A x \<Longrightarrow>
      \<exists>x' d'. txn_Commit B x d = (Ok (), x', d') \<and> abs_view A d' = applyOps (abs_ops A x) (abs_view A d)"
    and "f (NewTransaction B d True) = (Ok (), x) \<Longrightarrow>
      UpdateTxn B d f = (case txn_Commit B x d of (r, x', d') \<Rightarrow> (r, d'))"
proof -
  note laws = assms [unfolded badger_txn_ok_def]
  show "abs_ok A (ops @ ops') \<Longrightarrow> abs_ok A ops" by (rule laws [THEN conjunct1, rule_format])
  have begun: "abs_ops A (NewTransaction B d True) = [] \<and> abs_open A (NewTransaction B d True)"
    by (rule laws [THEN conjunct2, THEN conjunct1, rule_format])
  show "abs_ops A (NewTransaction B d True) = []" by (rule begun [THEN conjunct1])
  show "abs_open A (NewTransaction B d True)" by (rule begun [THEN conjunct2])
  show "abs_open A x \<Longrightarrow> abs_ok A (abs_ops A x @ [putOp k v]) \<Longrightarrow>
      \<exists>x'. txn_Set B x k v = (Ok (), x') \<and> abs_ops A x' = abs_ops A x @ [putOp k v] \<and> abs_open A x'"
    by (rule laws [THEN conjunct2, THEN conjunct2, THEN conjunct1, rule_format, OF conjI])
  show "abs_open A x \<Longrightarrow> abs_ok A (abs_ops A x @ [dropOp k]) \<Longrightarrow>
      \<exists>x'. txn_Delete B x k = (Ok (), x') \<and> abs_ops A x' = abs_ops A x @ [dropOp k] \<and> abs_open A x'"
    by (rule laws [THEN conjunct2, THEN conjunct2, THEN conjunct2, THEN conjunct1, rule_format, OF conjI])
  show "abs_open A x \<Longrightarrow>
      \<exists>x' d'. txn_Commit B x d = (Ok (), x', d') \<and> abs_view A d' = applyOps (abs_ops A x) (abs_view A d)"
    by (rule laws [THEN conjunct2, THEN conjunct2, THEN conjunct2, THEN conjunct2, THEN conjunct1, rule_format])
  show "f (NewTransaction B d True) = (Ok (), x) \<Longrightarrow>
      UpdateTxn B d f = (case txn_Commit B x d of (r, x', d') \<Rightarrow> (r, d'))"
    by (rule laws [THEN conjunct2, THEN conjunct2, THEN conjunct2, THEN conjunct2, THEN conjunct2, rule_format])
qed

lemma badger_batch_laws:
  assumes "badger_batch_ok B A"
  shows "abs_batch A (NewWriteBatch B d) = []" and "abs_batchOpen A (NewWriteBatch B d)"
    and "abs_batchOpen A w \<Longrightarrow> abs_ok A (abs_batch A w @ [putOp k v]) \<Longrightarrow>
      \<exists>w'. batch_Set B w k v = (Ok (), w') \<and> abs_batch A w' = abs_batch A w @ [putOp k v] \<and> abs_batchOpen A w'"
    and "abs_batchOpen A w \<Longrightarrow> abs_ok A (abs_batch A w @ [dropOp k]) \<Longrightarrow>
      \<exists>w'. batch_Delete B w k = (Ok (), w') \<and> abs_batch A w' = abs_batch A w @ [dropOp k] \<and> abs_batchOpen A w'"
    and "abs_batchOpen A w \<Longrightarrow>
      \<exists>w' d'. batch_Flush B w d = (Ok (), w', d') \<and> abs_view A d' = applyOps (abs_batch A w) (abs_view A d)"
  using assms by (simp_all add: badger_batch_ok_def)

lemma badger_view_laws:
  assumes "badger_view_ok B A"
  shows "ViewTxn B d f vars = f (NewTransaction B d False) vars"
    and "k \<noteq> [] \<Longrightarrow> abs_view A d k = None \<Longrightarrow> txn_Get B (NewTransaction B d False) k = Err (ErrKeyNotFound B)"
    and "k \<noteq> [] \<Longrightarrow> abs_view A d k = Some v \<Longrightarrow>
      \<exists>item. txn_Get B (NewTransaction B d False) k = Ok item \<and> item_ValueCopy B item = Ok v"
proof -
  note laws = assms [unfolded badger_view_ok_def]
  show "ViewTxn B d f vars = f (NewTransaction B d False) vars"
    by (rule laws [THEN conjunct1, rule_format])
  note get = laws [THEN conjunct2, rule_format, of k d]
  show "k \<noteq> [] \<Longrightarrow> abs_view A d k = None \<Longrightarrow> txn_Get B (NewTransaction B d False) k = Err (ErrKeyNotFound B)"
    using get by simp
  show "k \<noteq> [] \<Longrightarrow> abs_view A d k = Some v \<Longrightarrow>
      \<exists>item. txn_Get B (NewTransaction B d False) k = Ok item \<and> item_ValueCopy B item = Ok v"
    using get by simp
qed

text \<open>One \<^verbatim>\<open>Update\<close> whose closure queues one write.\<close>

lemma UpdateTxn_op:
  assumes ok: "badger_txn_ok B A"
    and "\<exists>x. f (NewTransaction B d True) = (Ok (), x) \<and> abs_ops A x = [op] \<and> abs_open A x"
  shows "\<exists>d'. UpdateTxn B d f = (Ok (), d') \<and> abs_view A d' = applyOp op (abs_view A d)"
proof -
  obtain x where x: "f (NewTransaction B d True) = (Ok (), x)" "abs_ops A x = [op]" "abs_open A x"
    using assms(2) by blast
  obtain x' d' where "txn_Commit B x d = (Ok (), x', d')" "abs_view A d' = applyOps [op] (abs_view A d)"
    using badger_txn_laws(6) [OF ok x(3), of d] x(2) by auto
  with badger_txn_laws(7) [OF ok, of f d x] x(1) show ?thesis by simp
qed

lemma badger_Get_view:
  assumes "badger_view_ok B A" and "dbKey ns k \<noteq> []"
  shows "badger_Get B d ns k = Ok (abs_view A (bdg_db d) (dbKey ns k))"
    and "badger_Exist B d ns k = Ok (abs_view A (bdg_db d) (dbKey ns k) \<noteq> None)"
  using badger_view_laws(2,3) [OF assms, of "bdg_db d"]
  by (cases "abs_view A (bdg_db d) (dbKey ns k)";
      auto simp: badger_Get_def badger_Exist_def badger_view_laws(1) [OF assms(1)])+

lemma badger_Set_view:
  assumes ok: "badger_txn_ok B A" and "abs_ok A [setOp ns k v]"
  shows "\<exists>d'. badger_Set B d ns k v = (Ok (), d') \<and>
    abs_view A (bdg_db d') = (abs_view A (bdg_db d))(dbKey ns k \<mapsto> v)"
proof -
  have "\<exists>x. txn_Set B (NewTransaction B (bdg_db d) True) (dbKey ns k) v = (Ok (), x) \<and>
      abs_ops A x = [setOp ns k v] \<and> abs_open A x"
    using badger_txn_laws(4) [OF ok badger_txn_laws(3) [OF ok], of "bdg_db d"] badger_txn_laws(2) [OF ok] assms(2)
    by simp
  from UpdateTxn_op [OF ok, of "\<lambda>x. txn_Set B x (dbKey ns k) v", OF this]
  obtain d' where "UpdateTxn B (bdg_db d) (\<lambda>x. txn_Set B x (dbKey ns k) v) = (Ok (), d')"
    "abs_view A d' = (abs_view A (bdg_db d))(dbKey ns k \<mapsto> v)" by auto
  then show ?thesis by (simp add: badger_Set_def)
qed

lemma badger_Delete_view:
  assumes ok: "badger_txn_ok B A" and "abs_ok A [delOp ns k]"
  shows "\<exists>d'. badger_Delete B d ns k = (Ok (), d') \<and>
    abs_view A (bdg_db d') = (abs_view A (bdg_db d))(dbKey ns k := None)"
proof -
  have "\<exists>x. txn_Delete B (NewTransaction B (bdg_db d) True) (dbKey ns k) = (Ok (), x) \<and>
      abs_ops A x = [delOp ns k] \<and> abs_open A x"
    using badger_txn_laws(5) [OF ok badger_txn_laws(3) [OF ok], of "bdg_db d"] badger_txn_laws(2) [OF ok] assms(2)
    by simp
  from UpdateTxn_op [OF ok, of "\<lambda>x. txn_Delete B x (dbKey ns k)", OF this]
  obtain d' where "UpdateTxn B (bdg_db d) (\<lambda>x. txn_Delete B x (dbKey ns k)) = (Ok (), d')"
    "abs_view A d' = (abs_view A (bdg_db d))(dbKey ns k := None)" by auto
  then show ?thesis by (simp add: badger_Delete_def)
qed

lemma badger_provides:
  assumes "badger_ok B A"
  shows "kv_store (badger_iface B) (\<lambda>d. abs_view A (bdg_db d)) (\<lambda>t. abs_ops A (btx_tx t)) (\<lambda>t. abs_open A (btx_tx t))
    (\<lambda>b. abs_batch A (bbk_bulk b)) (\<lambda>b. abs_batchOpen A (bbk_bulk b)) (abs_ok A)"
proof -
  have ok: "badger_txn_ok B A" "badger_view_ok B A" "badger_batch_ok B A"
    using assms by (simp_all add: badger_ok_def)
  show ?thesis
  proof (unfold_locales, goal_cases)
    case (1 ops ops')
    then show ?case by (rule badger_txn_laws(1) [OF ok(1)])
  next
    case (7 t ns k v)
    then show ?case using badger_txn_laws(4) [OF ok(1), of "btx_tx t" "dbKey ns k" v]
      by (auto simp: badger_iface_def badgertx_Set_def)
  next
    case (8 t ns k)
    then show ?case using badger_txn_laws(5) [OF ok(1), of "btx_tx t" "dbKey ns k"]
      by (auto simp: badger_iface_def badgertx_Delete_def)
  next
    case (9 t d)
    then show ?case using badger_txn_laws(6) [OF ok(1), of "btx_tx t" "bdg_db d"]
      by (auto simp: badger_iface_def badgertx_Commit_def)
  next
    case (11 b ns k v)
    then show ?case using badger_batch_laws(3) [OF ok(3), of "bbk_bulk b" "dbKey ns k" v]
      by (auto simp: badger_iface_def badgerbulk_Set_def)
  next
    case (12 b ns k)
    then show ?case using badger_batch_laws(4) [OF ok(3), of "bbk_bulk b" "dbKey ns k"]
      by (auto simp: badger_iface_def badgerbulk_Delete_def)
  next
    case (13 b d)
    then show ?case using badger_batch_laws(5) [OF ok(3), of "bbk_bulk b" "bdg_db d"]
      by (auto simp: badger_iface_def badgerbulk_Flush_def)
  qed (simp_all add: badger_iface_def badger_NewTx_def badger_NewBulk_def badger_Get_view [OF ok(2)]
      badger_Set_view [OF ok(1)] badger_Delete_view [OF ok(1)] badger_txn_laws(2,3) [OF ok(1)]
      badger_batch_laws(1,2) [OF ok(3)])
qed

end
