(* ===== verification/Badger_Properties.thy ===== *)
theory Badger_Properties
  imports Badger_Contract
begin

text \<open>
  The two providers agree: on what clients store, and on what they iterate over. A list-backed
  store shows that what the wrapper relies on can hold.
\<close>

section \<open>Scans\<close>

lemma badger_cursor_laws:
  assumes "badger_cursor_ok B A"
  shows "abs_rest A (cursor_Seek B (NewIterator B (NewTransaction B d True) (contents stop < contents start)) (contents start)) =
      pairsFrom (abs_view A d) (contents stop < contents start) (contents start)"
    and "cursor_Valid B i = (abs_rest A i \<noteq> [])"
    and "abs_rest A i = (k, v) # rest \<Longrightarrow> abs_rest A (cursor_Next B i) = rest"
    and "abs_rest A i = (k, v) # rest \<Longrightarrow>
      \<exists>item. cursor_Item B i = Some item \<and> item_Key B item = k \<and> item_ValueCopy B item = Ok v"
proof -
  note laws = assms [unfolded badger_cursor_ok_def]
  have "contents stop < contents start \<Longrightarrow> contents start \<noteq> []" by auto
  with laws [THEN conjunct1, rule_format, of True "contents start" d]
    laws [THEN conjunct2, THEN conjunct1, rule_format, of d "contents start"]
  show "abs_rest A (cursor_Seek B (NewIterator B (NewTransaction B d True) (contents stop < contents start)) (contents start)) =
      pairsFrom (abs_view A d) (contents stop < contents start) (contents start)"
    by (cases "contents stop < contents start") auto
  show "cursor_Valid B i = (abs_rest A i \<noteq> [])"
    by (rule laws [THEN conjunct2, THEN conjunct2, THEN conjunct1, rule_format])
  note step = laws [THEN conjunct2, THEN conjunct2, THEN conjunct2, rule_format, of i k v rest]
  show "abs_rest A i = (k, v) # rest \<Longrightarrow> abs_rest A (cursor_Next B i) = rest"
    using step by blast
  show "abs_rest A i = (k, v) # rest \<Longrightarrow>
      \<exists>item. cursor_Item B i = Some item \<and> item_Key B item = k \<and> item_ValueCopy B item = Ok v"
    using step by blast
qed

text \<open>
  The caller's loop over an iterator of the wrapper, \<^verbatim>\<open>for it.Valid() { it.Key(); it.Value();
  it.Next() }\<close>. It could run for ever on a cursor that never ends.
\<close>

partial_function (option) badgerScan ::
  "('d, 'x, 'w, 'm, 'i) badger \<Rightarrow> 'i badgerIterator \<Rightarrow> (bytes \<times> bytes) list option" where
  "badgerScan B it =
     (if badgerit_Valid B it = Ok True
      then Option.bind (badgerScan B (snd (badgerit_Next B it))) (\<lambda>rest.
        Some ((the_ok (badgerit_Key B it), the_ok (badgerit_Value B it)) # rest))
      else Some [])"

definition beforeEnd :: "bytes option \<Rightarrow> bool \<Rightarrow> bytes \<Rightarrow> bool" where
  "beforeEnd stop reverse k = (\<forall>e. stop = Some e \<longrightarrow> (if reverse then e < k else k < e))"

lemma badgerit_Valid_rest:
  assumes "badger_cursor_ok B A"
  shows "badgerit_Valid B it = Ok (case abs_rest A (bit_iter it) of [] \<Rightarrow> False
    | (k, v) # rest \<Rightarrow> beforeEnd (bit_end it) (bit_reverse it) k)"
proof (cases "abs_rest A (bit_iter it)")
  case Nil
  then show ?thesis by (simp add: badgerit_Valid_def badger_cursor_laws(2) [OF assms])
next
  case (Cons p rest)
  obtain k v where p: "p = (k, v)" by (cases p)
  then obtain item where "cursor_Item B (bit_iter it) = Some item" "item_Key B item = k"
    using badger_cursor_laws(4) [OF assms Cons [unfolded p]] by blast
  then show ?thesis
    by (auto simp: badgerit_Valid_def badger_cursor_laws(2) [OF assms] cursorItem_def beforeEnd_def Cons p not_le
        split: option.splits)
qed

lemma badgerScan_rest:
  assumes ok: "badger_cursor_ok B A"
  shows "badgerScan B it =
    Some (takeWhile (\<lambda>p. beforeEnd (bit_end it) (bit_reverse it) (fst p)) (abs_rest A (bit_iter it)))"
proof (induction "abs_rest A (bit_iter it)" arbitrary: it)
  case Nil
  then show ?case by (subst badgerScan.simps) (simp add: badgerit_Valid_rest [OF ok])
next
  case (Cons p rest)
  obtain k v where p: "p = (k, v)" by (cases p)
  note rest = Cons.hyps(2) [symmetric, unfolded p]
  obtain item where item: "cursor_Item B (bit_iter it) = Some item" "item_Key B item = k" "item_ValueCopy B item = Ok v"
    using badger_cursor_laws(4) [OF ok rest] by blast
  show ?case
  proof (cases "beforeEnd (bit_end it) (bit_reverse it) k")
    case True
    then have valid: "badgerit_Valid B it = Ok True" by (simp add: badgerit_Valid_rest [OF ok] rest)
    then have step: "snd (badgerit_Next B it) = it\<lparr>bit_iter := cursor_Next B (bit_iter it)\<rparr>"
      by (simp add: badgerit_Next_def)
    have "badgerScan B (snd (badgerit_Next B it)) =
        Some (takeWhile (\<lambda>p. beforeEnd (bit_end it) (bit_reverse it) (fst p)) rest)"
      using Cons.hyps(1) [of "snd (badgerit_Next B it)"] badger_cursor_laws(3) [OF ok rest] by (simp add: step)
    with valid True item rest show ?thesis
      by (subst badgerScan.simps) (simp add: badgerit_Key_def badgerit_Value_def cursorItem_def)
  next
    case False
    then show ?thesis by (subst badgerScan.simps) (simp add: badgerit_Valid_rest [OF ok] rest)
  qed
qed

lemma takeWhile_sorted_wrt:
  "sorted_wrt R ks \<Longrightarrow> (\<And>x y. R x y \<Longrightarrow> P y \<Longrightarrow> P x) \<Longrightarrow> takeWhile P ks = filter P ks"
  by (induction ks) (auto simp: empty_filter_conv)

lemma takeWhile_beforeEnd:
  fixes ks :: "bytes list"
  assumes "sorted ks"
  shows "takeWhile (beforeEnd stop False) ks = filter (beforeEnd stop False) ks"
    and "takeWhile (beforeEnd stop True) (rev ks) = rev (filter (beforeEnd stop True) ks)"
proof -
  have "sorted_wrt (\<le>) ks" using assms by simp
  then show "takeWhile (beforeEnd stop False) ks = filter (beforeEnd stop False) ks"
    by (rule takeWhile_sorted_wrt) (auto simp: beforeEnd_def)
  have "sorted_wrt (\<lambda>x y. y \<le> x) (rev ks)" using assms by (simp add: sorted_wrt_rev)
  then have "takeWhile (beforeEnd stop True) (rev ks) = filter (beforeEnd stop True) (rev ks)"
    by (rule takeWhile_sorted_wrt) (auto simp: beforeEnd_def)
  then show "takeWhile (beforeEnd stop True) (rev ks) = rev (filter (beforeEnd stop True) ks)"
    by (simp add: rev_filter)
qed

text \<open>The pairs of a range, as the wrapper and the in-memory iterator select them.\<close>

lemma takeWhile_pairsFrom:
  assumes "distinct (map fst xs)"
  shows "takeWhile (\<lambda>p. beforeEnd stop (contents stop < contents start) (fst p))
      (pairsFrom (map_of xs) (contents stop < contents start) (contents start)) =
    map (\<lambda>k. (k, the (map_of xs k)))
      (let ks = filter (inRange start stop) (map fst xs)
       in if contents stop < contents start then rev (sort ks) else sort ks)"
proof -
  let ?ks = "sort (map fst xs)"
  have dom: "sorted_list_of_set (dom (map_of xs)) = ?ks"
    using assms by (simp add: dom_map_of_conv_image_fst sorted_list_of_set_sort_remdups distinct_remdups_id
        flip: set_map)
  have sorted: "sorted ?ks" by simp
  show ?thesis
  proof (cases "contents stop < contents start")
    case True
    have "filter (beforeEnd stop True) (filter (\<lambda>k. k \<le> contents start) ?ks) = filter (inRange start stop) ?ks"
      using True by (auto simp: inRange_def beforeEnd_def intro!: filter_cong)
    then have "takeWhile (beforeEnd stop True) (rev (filter (\<lambda>k. k \<le> contents start) ?ks)) =
        rev (filter (inRange start stop) ?ks)"
      using takeWhile_beforeEnd(2) [of "filter (\<lambda>k. k \<le> contents start) ?ks" stop] sorted
      by (simp add: sorted_wrt_filter)
    with True show ?thesis by (simp add: pairsFrom_def dom takeWhile_map comp_def filter_sort)
  next
    case False
    have "filter (beforeEnd stop False) (filter (\<lambda>k. contents start \<le> k) ?ks) = filter (inRange start stop) ?ks"
      using False by (auto simp: inRange_def beforeEnd_def intro!: filter_cong)
    then have "takeWhile (beforeEnd stop False) (filter (\<lambda>k. contents start \<le> k) ?ks) = filter (inRange start stop) ?ks"
      using takeWhile_beforeEnd(1) [of "filter (\<lambda>k. contents start \<le> k) ?ks" stop] sorted
      by (simp add: sorted_wrt_filter)
    with False show ?thesis by (simp add: pairsFrom_def dom takeWhile_map comp_def filter_sort)
  qed
qed

lemma badgerScan_scan:
  assumes "badger_ok B A" and "abs_view A (bdg_db d) = mem_view m" and "distinct (map fst (db m))"
  shows "badgerScan B (badger_Iterator B d start stop) =
    Some (map (\<lambda>(k, v). (k, the v)) (scan m (mem_Iterator m start stop)))"
proof -
  have ok: "badger_cursor_ok B A" using assms(1) by (simp add: badger_ok_def)
  have "badgerScan B (badger_Iterator B d start stop) =
      Some (takeWhile (\<lambda>p. beforeEnd stop (contents stop < contents start) (fst p))
        (pairsFrom (map_of (db m)) (contents stop < contents start) (contents start)))"
    using assms(2) badger_cursor_laws(1) [OF ok]
    by (simp add: badgerScan_rest [OF ok] badger_Iterator_def Let_def mem_view_def)
  then show ?thesis
    by (simp add: takeWhile_pairsFrom [OF assms(3)] scan_Iterator iter_keys_inRange comp_def)
qed

section \<open>A store that behaves as documented\<close>

text \<open>
  A store is its list of pairs; a transaction or a batch is its queue; a cursor is the list of
  the pairs it still visits, taken from a copy of the store.
\<close>

type_synonym sampleStore = "(bytes \<times> bytes) list"

definition sampleQueue :: "txOp list \<Rightarrow> txOp \<Rightarrow> unit outcome \<times> txOp list" where
  "sampleQueue ops op = (if op_key op = [] then (Err (ErrExternal ''Key cannot be empty''), ops) else (Ok (), ops @ [op]))"

definition sampleBadger ::
  "(sampleStore, sampleStore \<times> txOp list, txOp list, bytes \<times> bytes, sampleStore \<times> bool) badger" where
  "sampleBadger = \<lparr>
     DefaultOptions = (\<lambda>dir. \<lparr>Dir = dir, ValueLogLoadingMode = MemoryMap, TableLoadingMode = MemoryMap,
       ValueThreshold = 32, ValueLogFileSize = 2 ^ 30 - 1\<rparr>),
     Open = (\<lambda>opts. Ok []), CloseStore = (\<lambda>d. (Ok (), d)), ErrKeyNotFound = ErrExternal ''Key not found'',
     UpdateTxn = (\<lambda>d f. case f (d, []) of (Ok _, x) \<Rightarrow> (Ok (), runOps (snd x) d) | (Err e, x) \<Rightarrow> (Err e, d)
       | (Panic p, x) \<Rightarrow> (Panic p, d)),
     ViewTxn = (\<lambda>d f vars. f (d, []) vars),
     NewTransaction = (\<lambda>d update. (d, [])),
     txn_Set = (\<lambda>x k v. case sampleQueue (snd x) (putOp k v) of (r, ops) \<Rightarrow> (r, fst x, ops)),
     txn_Delete = (\<lambda>x k. case sampleQueue (snd x) (dropOp k) of (r, ops) \<Rightarrow> (r, fst x, ops)),
     txn_Get = (\<lambda>x k. case map_of (fst x) k of None \<Rightarrow> Err (ErrExternal ''Key not found'') | Some v \<Rightarrow> Ok (k, v)),
     txn_Commit = (\<lambda>x d. (Ok (), x, runOps (snd x) d)),
     txn_Discard = (\<lambda>x. x),
     item_Key = fst, item_ValueCopy = (\<lambda>item. Ok (snd item)),
     NewWriteBatch = (\<lambda>d. []),
     batch_Set = (\<lambda>w k v. sampleQueue w (putOp k v)),
     batch_Delete = (\<lambda>w k. sampleQueue w (dropOp k)),
     batch_Flush = (\<lambda>w d. (Ok (), w, runOps w d)),
     batch_Cancel = (\<lambda>w. w),
     NewIterator = (\<lambda>x reverse. (fst x, reverse)),
     cursor_Seek = (\<lambda>(pairs, reverse) start.
       let ks = sort (remdups (map fst pairs))
       in (map (\<lambda>k. (k, the (map_of pairs k)))
            (if reverse then rev (filter (\<lambda>k. k \<le> start) ks) else filter (\<lambda>k. start \<le> k) ks), reverse)),
     cursor_Valid = (\<lambda>i. fst i \<noteq> []),
     cursor_Next = (\<lambda>i. (tl (fst i), snd i)),
     cursor_Item = (\<lambda>i. case fst i of [] \<Rightarrow> None | p # _ \<Rightarrow> Some p)\<rparr>"

definition sampleAbs :: "(sampleStore, sampleStore \<times> txOp list, txOp list, sampleStore \<times> bool) badgerAbs" where
  "sampleAbs = \<lparr>abs_view = map_of, abs_ops = snd, abs_open = (\<lambda>x. True), abs_batch = (\<lambda>w. w),
     abs_batchOpen = (\<lambda>w. True), abs_rest = fst, abs_ok = list_all (\<lambda>op. op_key op \<noteq> [])\<rparr>"

lemma sampleBadger_ok: "badger_ok sampleBadger sampleAbs"
  unfolding badger_ok_def
proof (intro conjI)
  show "badger_txn_ok sampleBadger sampleAbs"
    by (auto simp: badger_txn_ok_def sampleBadger_def sampleAbs_def sampleQueue_def map_of_runOps)
  show "badger_view_ok sampleBadger sampleAbs"
    by (auto simp: badger_view_ok_def sampleBadger_def sampleAbs_def split: option.splits)
  show "badger_batch_ok sampleBadger sampleAbs"
    by (auto simp: badger_batch_ok_def sampleBadger_def sampleAbs_def sampleQueue_def map_of_runOps)
  show "badger_cursor_ok sampleBadger sampleAbs"
    by (auto simp: badger_cursor_ok_def sampleBadger_def sampleAbs_def pairsFrom_def Let_def
        dom_map_of_conv_image_fst sorted_list_of_set_sort_remdups simp flip: set_map)
qed

section \<open>The providers agree\<close>

text \<open>
  C28: the two databases are interchangeable. A client that makes the same writes, transactions
  and bulks, all within what badger accepts, succeeds on both and then reads the same from
  both under every key, given databases that stand for the same map.
\<close>

theorem providers_agree:
  assumes "badger_ok B A" and "abs_view A (bdg_db d) = mem_view m"
    and "list_all (\<lambda>c. abs_ok A (callOps c)) cs"
  shows "\<exists>d' m'. runCalls (badger_iface B) cs d = (Ok (), d') \<and> runCalls mem_iface cs m = (Ok (), m') \<and>
    (\<forall>ns k. dbKey ns k \<noteq> [] \<longrightarrow>
      db_Get (badger_iface B) d' ns k = db_Get mem_iface m' ns k \<and>
      db_Exist (badger_iface B) d' ns k = db_Exist mem_iface m' ns k)"
proof -
  note store = badger_provides [OF assms(1)]
  obtain d' where d': "runCalls (badger_iface B) cs d = (Ok (), d')"
    "abs_view A (bdg_db d') = applyOps (concat (map callOps cs)) (abs_view A (bdg_db d))"
    using kv_store.runCalls_ops [OF store assms(3)] by blast
  obtain m' where m': "runCalls mem_iface cs m = (Ok (), m')"
    "mem_view m' = applyOps (concat (map callOps cs)) (mem_view m)"
    using mem.store.runCalls_ops [of cs m] by (auto simp: list_all_iff)
  have "abs_view A (bdg_db d') = mem_view m'" using d'(2) m'(2) assms(2) by simp
  with d'(1) m'(1) show ?thesis
    by (auto simp: kv_store.Get [OF store] kv_store.Exist [OF store] mem.Get mem.Exist)
qed

definition sampleCalls :: "dbCall list" where
  "sampleCalls = [CallWrite (WriteSet (Some NamespaceLastKey) EmptyKey [1]),
     CallTx [WriteSet (Some NamespaceStateTrie) [1] [2], WriteDelete (Some NamespaceLastKey) EmptyKey],
     CallBulk [WriteSet None [7] [], WriteSet None [7] [8]]]"

theorem providers_agree_witness:
  "\<exists>d' m'. runCalls (badger_iface sampleBadger) sampleCalls \<lparr>bdg_db = [], bdg_cancelled = False, bdg_name = []\<rparr> = (Ok (), d') \<and>
     runCalls mem_iface sampleCalls NewDB = (Ok (), m') \<and>
     db_Get (badger_iface sampleBadger) d' None [7] = db_Get mem_iface m' None [7]"
proof -
  have "abs_view sampleAbs (bdg_db \<lparr>bdg_db = [], bdg_cancelled = False, bdg_name = []\<rparr>) = mem_view NewDB"
    by (simp add: sampleAbs_def mem_view_def NewDB_def)
  moreover have "list_all (\<lambda>c. abs_ok sampleAbs (callOps c)) sampleCalls"
    by (simp add: sampleCalls_def sampleAbs_def dbKey_Some)
  ultimately show ?thesis
    using providers_agree [OF sampleBadger_ok, of "\<lparr>bdg_db = [], bdg_cancelled = False, bdg_name = []\<rparr>" NewDB sampleCalls]
      dbKey_None [of "[7]"] by (metis list.distinct(1))
qed

text \<open>
  C31: an iterator of badger visits what an iterator of the in-memory database visits, in the
  same order and with the same values, whatever the bounds, and its scan ends.
\<close>

theorem iterators_agree:
  assumes "badger_ok B A" and "abs_view A (bdg_db d) = mem_view m" and "distinct (map fst (db m))"
  shows "badgerScan B (badger_Iterator B d start stop) =
    Some (map (\<lambda>(k, v). (k, the v)) (scan m (mem_Iterator m start stop)))"
  by (rule badgerScan_scan [OF assms])

definition samplePairs :: sampleStore where
  "samplePairs = [([3], [30]), ([1], [10]), ([2], [20])]"

theorem iterators_agree_witness:
  "badgerScan sampleBadger (badger_Iterator sampleBadger \<lparr>bdg_db = samplePairs, bdg_cancelled = False, bdg_name = []\<rparr>
     (Some [1]) (Some [3])) = Some [([1], [10]), ([2], [20])]"
proof -
  have "scan \<lparr>db = samplePairs\<rparr> (mem_Iterator \<lparr>db = samplePairs\<rparr> (Some [1]) (Some [3])) = [([1], Some [10]), ([2], Some [20])]"
    unfolding scan_Iterator by (simp add: samplePairs_def mem_Iterator_def contents_def isKeyInRange_def)
  moreover have "abs_view sampleAbs (bdg_db \<lparr>bdg_db = samplePairs, bdg_cancelled = False, bdg_name = []\<rparr>) =
      mem_view \<lparr>db = samplePairs\<rparr>" by (simp add: sampleAbs_def mem_view_def)
  moreover have "distinct (map fst (db \<lparr>db = samplePairs\<rparr>))" by (simp add: samplePairs_def)
  ultimately show ?thesis
    using iterators_agree [OF sampleBadger_ok, of "\<lparr>bdg_db = samplePairs, bdg_cancelled = False, bdg_name = []\<rparr>"
        "\<lparr>db = samplePairs\<rparr>" "Some [1]" "Some [3]"] by simp
qed

text \<open>
  They differ once the scan is over: \<^verbatim>\<open>Key\<close> of the in-memory iterator is then an error,
  that of badger is the first key beyond the bound.
\<close>

lemma badger_Key_past_end:
  assumes "badger_cursor_ok B A" and "abs_rest A (bit_iter it) = (k, v) # rest"
    and "\<not> beforeEnd (bit_end it) (bit_reverse it) k"
  shows "badgerit_Valid B it = Ok False \<and> badgerit_Next B it = (Err ErrIteratorInvalid, it) \<and>
    badgerit_Key B it = Ok k \<and> badgerit_Value B it = Ok v"
proof -
  have valid: "badgerit_Valid B it = Ok False"
    using assms(3) by (simp add: badgerit_Valid_rest [OF assms(1)] assms(2))
  obtain item where "cursor_Item B (bit_iter it) = Some item" "item_Key B item = k" "item_ValueCopy B item = Ok v"
    using badger_cursor_laws(4) [OF assms(1,2)] by blast
  with valid show ?thesis
    by (simp add: badgerit_Next_def badgerit_Key_def badgerit_Value_def cursorItem_def)
qed

section \<open>Garbage collection\<close>

definition minute :: int where "minute = 60 * 10 ^ 9"

fun tickTime :: "gcEvent \<Rightarrow> int" where
  "tickTime (GcTick now _ _ _ _) = now"
| "tickTime GcDone = 0"

text \<open>Ticks at most a minute apart, the first at most a minute after \<open>t\<close>.\<close>

fun regularTicks :: "int \<Rightarrow> gcEvent list \<Rightarrow> bool" where
  "regularTicks t [] = True"
| "regularTicks t (e # es) = (e \<noteq> GcDone \<and> tickTime e \<le> t + minute \<and> regularTicks (tickTime e) es)"

lemma gc_runs:
  assumes "regularTicks t es" and "t \<le> lastGcT + badgerDbGcInterval"
    and "\<exists>e\<in>set es. lastGcT + badgerDbGcInterval < tickTime e"
  shows "\<exists>i < length es. runBadgerGC lastGcT size0 es = replicate i False @ True # drop (Suc i) (runBadgerGC lastGcT size0 es) \<and>
    tickTime (es ! i) \<le> lastGcT + badgerDbGcInterval + minute"
  using assms
proof (induction es arbitrary: t)
  case (Cons e es)
  then obtain now cur gc after ended where e: "e = GcTick now cur gc after ended" by (cases e) auto
  show ?case
  proof (cases "now - lastGcT > badgerDbGcInterval \<or> sint (size0 + badgerDbGcSize) > sint cur")
    case True
    with Cons.prems e show ?thesis by (intro exI [of _ 0]) auto
  next
    case False
    then have late: "now \<le> lastGcT + badgerDbGcInterval" by simp
    then have "\<exists>e\<in>set es. lastGcT + badgerDbGcInterval < tickTime e" using Cons.prems(3) e by auto
    with Cons.IH [of now] Cons.prems(1) late e obtain i where i: "i < length es"
      "runBadgerGC lastGcT size0 es = replicate i False @ True # drop (Suc i) (runBadgerGC lastGcT size0 es)"
      "tickTime (es ! i) \<le> lastGcT + badgerDbGcInterval + minute" by auto
    have "runBadgerGC lastGcT size0 (e # es) = False # runBadgerGC lastGcT size0 es"
      using False e by simp
    with i show ?thesis by (intro exI [of _ "Suc i"]) simp
  qed
qed simp

text \<open>
  The store is collected regularly. Whatever the size of the value log does, if the ticks
  of the ticker come at most a minute apart and go on past ten minutes after the last
  collection, the next collection runs at a tick no later than eleven minutes after it.
\<close>

theorem gc_runs_regularly:
  assumes "regularTicks lastGcT es"
    and "\<exists>e\<in>set es. lastGcT + badgerDbGcInterval < tickTime e"
  shows "\<exists>i < length es. runBadgerGC lastGcT lastDbVlogSize es ! i \<and>
    (\<forall>j < i. \<not> runBadgerGC lastGcT lastDbVlogSize es ! j) \<and> tickTime (es ! i) \<le> lastGcT + 11 * minute"
proof -
  have "lastGcT \<le> lastGcT + badgerDbGcInterval" by (simp add: badgerDbGcInterval_def)
  from gc_runs [OF assms(1) this assms(2), of lastDbVlogSize] obtain i where i: "i < length es"
    "runBadgerGC lastGcT lastDbVlogSize es = replicate i False @ True # drop (Suc i) (runBadgerGC lastGcT lastDbVlogSize es)"
    "tickTime (es ! i) \<le> lastGcT + badgerDbGcInterval + minute" by blast
  have "runBadgerGC lastGcT lastDbVlogSize es ! i" by (subst i(2)) (simp add: nth_append)
  moreover have "\<not> runBadgerGC lastGcT lastDbVlogSize es ! j" if "j < i" for j
    by (subst i(2)) (use that in \<open>simp add: nth_append\<close>)
  ultimately show ?thesis using i(1,3) by (auto simp: badgerDbGcInterval_def minute_def)
qed

theorem gc_runs_regularly_witness:
  "\<exists>i < 11. runBadgerGC 0 0 (map (\<lambda>n. GcTick (int n * minute) (of_nat n * 2 ^ 21) (Ok ()) 0 (int n * minute)) [1..<12]) ! i"
proof -
  let ?es = "map (\<lambda>n. GcTick (int n * minute) (of_nat n * 2 ^ 21) (Ok ()) 0 (int n * minute)) [1..<12]"
  have "regularTicks 0 ?es" by (simp add: upt_conv_Cons minute_def)
  moreover have "\<exists>e\<in>set ?es. 0 + badgerDbGcInterval < tickTime e"
    by (simp add: upt_conv_Cons minute_def badgerDbGcInterval_def)
  ultimately show ?thesis using gc_runs_regularly [of 0 ?es 0] by auto
qed

end
