(* ===== verification/Replay_Properties.thy ===== *)
theory Replay_Properties
  imports State_Contract
begin

text \<open>
  The properties of aggregator and validator together: an honest transition passes, a wrong
  root is detected with usable snapshots, and two cases in which the fraud proof fails.
\<close>

section \<open>Honest and fraudulent transitions\<close>

text \<open>Two nodes in step: the same ledger, the same tree height, the token known to both.\<close>

definition in_step ::
  "serializer \<Rightarrow> hasher \<Rightarrow> memdb sm \<Rightarrow> memdb sm \<Rightarrow> slots \<Rightarrow> ledger \<Rightarrow> Transaction \<Rightarrow> bool" where
  "in_step ser H sma smv sl L tx \<longleftrightarrow>
     well_posed ser H sma sl L tx \<and> well_posed ser H smv sl L tx \<and>
     height (smTree sma) = height (smTree smv) \<and>
     (\<exists>i<maxSliceLen. token_tables (mem_view (smDb sma)) (mem_view (smDb smv)) (tx_Token tx) i)"

lemma in_step_replay:
  assumes "in_step ser H sma smv sl L tx" and "Size H = 32" and "distinctParties tx"
    and "ApplyTransaction mem_iface H ser sma tx = (Ok (Some su), sma')"
  obtains t snaps smv' where "pendingTransition mem_iface fraud (smDb sma') (Some su) tx = Ok t"
    and "tr_StateRoot t = (if fraud \<and> isTransfer tx then replicate 32 0 else GetStateRoot sma')"
    and "validateTransition mem_iface H ser smv pos t =
      (Ok (if GetStateRoot sma' = tr_StateRoot t then None
           else Some \<lparr>fp_Position = pos, fp_Inputs = snaps, fp_Transition = t\<rparr>), smv')"
    and "snapshots_ok ser H smv snaps"
    and "implements ser H (mem_view (smDb sma')) (smTree sma') (slotsAfter (tokens sma) L tx sl)
      (snd (ledgerApply (tokens sma) L tx))"
    and "implements ser H (mem_view (smDb smv')) (smTree smv') (slotsAfter (tokens sma) L tx sl)
      (snd (ledgerApply (tokens sma) L tx))"
proof -
  obtain i where i: "i < maxSliceLen" "token_tables (mem_view (smDb sma)) (mem_view (smDb smv)) (tx_Token tx) i"
    using assms(1) by (auto simp: in_step_def)
  have W: "hasher_ok H" "serializer_ok ser" "mem.stands ser H sma sl L" "mem.stands ser H smv sl L"
    "height (smTree sma) = height (smTree smv)" "list_all (\<lambda>a. length a = 20) (tx_addresses tx)"
    "fst sl < 2 ^ nat (height (smTree sma) - 1)" "updates_fit (fst (ledgerApply (tokens sma) L tx))"
    "applyFresh mem_iface H ser sma tx" "applyFresh mem_iface H ser smv tx"
    using assms(1) by (simp_all add: in_step_def well_posed_def mem.stands_def)
  from mem.validate_replay [OF W(1) assms(2) W(2-5) i(2,1) W(6) assms(3) W(7-10) assms(4), of fraud pos] that
  show ?thesis unfolding mem.stands_def by blast
qed

text \<open>
  C3: an honest aggregator is never accused. If aggregator and validator are in step and the
  aggregator applies a transaction between two parties, then the transition it puts into the
  block is validated without a fraud proof, and both are in step again: they stand for the
  same ledger and have the same state root.
\<close>

theorem honest_transition_validates:
  assumes "in_step ser H sma smv sl L tx" and "Size H = 32" and "distinctParties tx"
    and "ApplyTransaction mem_iface H ser sma tx = (Ok (Some su), sma')"
  shows "\<exists>t smv' sl' L'. pendingTransition mem_iface False (smDb sma') (Some su) tx = Ok t \<and>
    validateTransition mem_iface H ser smv pos t = (Ok None, smv') \<and> GetStateRoot smv' = GetStateRoot sma' \<and>
    implements ser H (mem_view (smDb sma')) (smTree sma') sl' L' \<and>
    implements ser H (mem_view (smDb smv')) (smTree smv') sl' L'"
proof (rule in_step_replay [OF assms])
  fix t snaps smv'
  assume R: "pendingTransition mem_iface False (smDb sma') (Some su) tx = Ok t"
    "tr_StateRoot t = (if False \<and> isTransfer tx then replicate 32 0 else GetStateRoot sma')"
    "validateTransition mem_iface H ser smv pos t =
      (Ok (if GetStateRoot sma' = tr_StateRoot t then None
           else Some \<lparr>fp_Position = pos, fp_Inputs = snaps, fp_Transition = t\<rparr>), smv')"
    "implements ser H (mem_view (smDb sma')) (smTree sma') (slotsAfter (tokens sma) L tx sl)
      (snd (ledgerApply (tokens sma) L tx))"
    "implements ser H (mem_view (smDb smv')) (smTree smv') (slotsAfter (tokens sma) L tx sl)
      (snd (ledgerApply (tokens sma) L tx))"
  have "GetStateRoot smv' = GetStateRoot sma'"
    using R(2,3) by (auto simp: validateTransition_def bindS_def Let_def split: prod.splits outcome.splits if_splits)
  moreover have "validateTransition mem_iface H ser smv pos t = (Ok None, smv')" using R(2,3) by simp
  ultimately show ?thesis using R(1,4,5) by blast
qed

theorem honest_transition_validates_witness:
  "\<exists>su sma' t smv'. ApplyTransaction mem_iface sampleHasher sampleSerializer sampleStart sampleDeposit = (Ok (Some su), sma') \<and>
     pendingTransition mem_iface False (smDb sma') (Some su) sampleDeposit = Ok t \<and>
     validateTransition mem_iface sampleHasher sampleSerializer sampleStart \<lparr>pos_BlockNumber = 0, pos_TransitionIndex = 0\<rparr> t = (Ok None, smv')"
proof -
  have step: "in_step sampleSerializer sampleHasher sampleStart sampleStart (0, Map.empty) Map.empty sampleDeposit"
    using sampleDeposit_posed sampleStart_tokens unfolding in_step_def
    by (auto simp: sampleDeposit_def maxSliceLen_def intro!: exI [of _ 0])
  obtain su sma' where run: "ApplyTransaction mem_iface sampleHasher sampleSerializer sampleStart sampleDeposit = (Ok (Some su), sma')"
    by (rule well_posed_refines [OF sampleDeposit_posed]) (auto simp: sampleStart_deposit)
  from honest_transition_validates [OF step sampleHasher_ok(2) _ run] run show ?thesis
    by (simp add: distinctParties_def sampleDeposit_def) blast
qed

text \<open>
  C4: a wrong state root is detected. If the aggregator puts a zero root into the transition
  of a transfer, as its fraud mode does, the validator answers with a fraud proof whose
  snapshots lead, by their inclusion proofs, to the state root before the transition.
\<close>

theorem fraudulent_root_detected:
  assumes "in_step ser H sma smv sl L tx" and "Size H = 32" and "distinctParties tx"
    and "ApplyTransaction mem_iface H ser sma tx = (Ok (Some su), sma')"
    and "isTransfer tx" and "GetStateRoot sma' \<noteq> replicate 32 0"
  shows "\<exists>t snaps smv'. pendingTransition mem_iface True (smDb sma') (Some su) tx = Ok t \<and>
    validateTransition mem_iface H ser smv pos t =
      (Ok (Some \<lparr>fp_Position = pos, fp_Inputs = snaps, fp_Transition = t\<rparr>), smv') \<and>
    snapshots_ok ser H smv snaps"
proof (rule in_step_replay [OF assms(1-4)])
  fix t snaps smv'
  assume "pendingTransition mem_iface True (smDb sma') (Some su) tx = Ok t"
    "tr_StateRoot t = (if True \<and> isTransfer tx then replicate 32 0 else GetStateRoot sma')"
    "validateTransition mem_iface H ser smv pos t =
      (Ok (if GetStateRoot sma' = tr_StateRoot t then None
           else Some \<lparr>fp_Position = pos, fp_Inputs = snaps, fp_Transition = t\<rparr>), smv')"
    "snapshots_ok ser H smv snaps"
  then show ?thesis using assms(5,6) by auto
qed

lemma sampleOpened_tables:
  "token_tables (mem_view (smDb sampleOpened)) (mem_view (smDb sampleOpened)) sampleToken 0"
proof -
  have "mem_view (smDb sampleOpened) (dbKey (Some NamespaceTokenIndexToTokenAddress) []) = Some sampleToken"
    by (simp add: sampleOpened_eval mem_view_def)
  moreover have "length sampleToken = 20" by (simp add: sampleToken_def)
  ultimately show ?thesis by (simp add: token_tables_def natBytes.simps)
qed

lemma sampleTransfer_ran:
  obtains su sma' where "ApplyTransaction mem_iface sampleHasher sampleSerializer sampleOpened sampleTransfer = (Ok (Some su), sma')"
  by (rule well_posed_refines [OF sampleTransfer_posed]) (auto simp: sampleOpened_transfer)

theorem fraudulent_root_detected_witness:
  "\<exists>su sma' t fp smv'. ApplyTransaction mem_iface sampleHasher sampleSerializer sampleOpened sampleTransfer = (Ok (Some su), sma') \<and>
     pendingTransition mem_iface True (smDb sma') (Some su) sampleTransfer = Ok t \<and>
     validateTransition mem_iface sampleHasher sampleSerializer sampleOpened \<lparr>pos_BlockNumber = 0, pos_TransitionIndex = 0\<rparr> t = (Ok (Some fp), smv')"
proof -
  have step: "in_step sampleSerializer sampleHasher sampleOpened sampleOpened openedSlots openedLedger sampleTransfer"
    using sampleTransfer_posed sampleOpened_tables unfolding in_step_def
    by (auto simp: sampleTransfer_def maxSliceLen_def intro!: exI [of _ 0])
  obtain su sma' where run: "ApplyTransaction mem_iface sampleHasher sampleSerializer sampleOpened sampleTransfer = (Ok (Some su), sma')"
    by (rule sampleTransfer_ran)
  have "GetStateRoot (snd (ApplyTransaction mem_iface sampleHasher sampleSerializer sampleOpened sampleTransfer)) \<noteq> replicate 32 0"
    by code_simp
  then have root: "GetStateRoot sma' \<noteq> replicate 32 0" using run by simp
  have "distinctParties sampleTransfer" "isTransfer sampleTransfer"
    by (simp_all add: distinctParties_def isTransfer_def sampleTransfer_def sampleAddress_def)
  from fraudulent_root_detected [OF step sampleHasher_ok(2) this(1) run this(2) root] run show ?thesis by blast
qed

section \<open>Fraud proofs that cannot be made\<close>

text \<open>
  C33: a fraudulent transfer to a new account takes the validator down: it is detected, but
  the missing snapshot of the recipient is dereferenced when the proof is built for the
  contract, whatever the block.
\<close>

theorem create_and_transfer_fraud_panics:
  assumes "GetTransitionType t = TransitionTypeCreateAndTransfer"
    and "validateTransition I H ser (v_sm v) \<lparr>pos_BlockNumber = BlockNumber block, pos_TransitionIndex = word_of_nat i\<rparr> t =
      (Ok (Some fp), sm')"
  shows "validateLoop I H ser R client block (t # ts) i v = Some (Panic NilDereference, v\<lparr>v_sm := sm'\<rparr>)"
proof -
  obtain s where "fp_Inputs fp = [Some s, None]"
    using assms by (auto simp: validateTransition_def getInputStateSnapshots_def bindS_def bindO_def Let_def
        split: prod.splits outcome.splits if_splits)
  then have "generateContractFraudProof I H ser sm' block fp = Panic NilDereference"
    by (simp add: generateContractFraudProof_def storageSlot_def)
  then show ?thesis by (simp add: assms(2))
qed

text \<open>The sample transfer to the new account 2, with a zero state root.\<close>

definition sampleFraud :: Transition where
  "sampleFraud = CreateAndTransferTransition 3 (replicate 32 0) 0 1 (sampleAddress 2) 0 2 0 []"

definition sampleChain :: "unit rollupChain" where
  "sampleChain = \<lparr>CommitterAddress = \<lambda>_. Ok (sampleAddress 5), Blocks = \<lambda>_ _. Ok ([], 0),
     CommitBlock = \<lambda>c _ _ _ _. (Err ErrNotFound, c), ProveTransitionInvalid = \<lambda>c _ _ _ _. (Err ErrNotFound, c)\<rparr>"

theorem create_and_transfer_fraud_panics_witness:
  "\<exists>sm'. validateLoop mem_iface sampleHasher sampleSerializer sampleChain None
      \<lparr>BlockNumber = 1, Transitions = [sampleFraud]\<rparr> [sampleFraud] 0
      \<lparr>v_sm = sampleOpened, v_auth = \<lparr>From = [], GasLimit = 0, GasPrice = None\<rparr>, v_chain = ()\<rparr> =
    Some (Panic NilDereference, \<lparr>v_sm = sm', v_auth = \<lparr>From = [], GasLimit = 0, GasPrice = None\<rparr>, v_chain = ()\<rparr>)"
proof -
  let ?V = "validateTransition mem_iface sampleHasher sampleSerializer sampleOpened \<lparr>pos_BlockNumber = 1, pos_TransitionIndex = 0\<rparr> sampleFraud"
  have "case fst ?V of Ok (Some fp) \<Rightarrow> True | _ \<Rightarrow> False" by code_simp
  then obtain fp sm' where "?V = (Ok (Some fp), sm')"
    by (cases ?V) (auto split: outcome.splits option.splits)
  then show ?thesis
    using create_and_transfer_fraud_panics [of sampleFraud mem_iface sampleHasher sampleSerializer
        "\<lparr>v_sm = sampleOpened, v_auth = \<lparr>From = [], GasLimit = 0, GasPrice = None\<rparr>, v_chain = ()\<rparr>"
        "\<lparr>BlockNumber = 1, Transitions = [sampleFraud]\<rparr>" 0 fp sm']
    by (simp add: sampleFraud_def)
qed

text \<open>
  The predecessor of block 0 wraps around: the fraud proof for its first transition is
  built on the block stored under number 1, the same as for block 2.
\<close>

theorem first_block_predecessor_wraps:
  "preStateTransition I H ser sm blockInfo \<lparr>pos_BlockNumber = 0, pos_TransitionIndex = 0\<rparr> =
     preStateTransition I H ser sm blockInfo \<lparr>pos_BlockNumber = 2, pos_TransitionIndex = 0\<rparr>"
proof -
  have "bigBytes (goInt (0 - 1)) = bigBytes (goInt (2 - 1))" by (simp add: bigBytes_def goInt_def)
  then show ?thesis by (simp add: preStateTransition_def)
qed

end
