(* ===== verification/Root_Properties.thy ===== *)
theory Root_Properties
  imports Run_Properties
begin

text \<open>
  The state root against a reference: the Merkle root of a plain list of accounts, computed
  from scratch, without a database and without the updates the code makes node by node.
\<close>

section \<open>The reference\<close>

text \<open>A tree of default leaves in which the accounts of a list are put into the leaves 0, 1, and so on.\<close>

definition slotPath :: "hasher \<Rightarrow> int \<Rightarrow> nat \<Rightarrow> bool list" where
  "slotPath H h j = pathBits (padPath H (natBytes j)) h"

fun placeAccounts :: "hasher \<Rightarrow> serializer \<Rightarrow> int \<Rightarrow> nat \<Rightarrow> AccountInfo list \<Rightarrow> mtree \<Rightarrow> mtree" where
  "placeAccounts H ser h j [] t = t"
| "placeAccounts H ser h j (info # infos) t =
     placeAccounts H ser h (Suc j) infos (mupdate t (slotPath H h j) (the_ok (SerializeAccountInfo ser info)))"

definition accountsRoot :: "hasher \<Rightarrow> serializer \<Rightarrow> int \<Rightarrow> AccountInfo list \<Rightarrow> bytes" where
  "accountsRoot H ser h infos = mhash H (placeAccounts H ser h 0 infos (mfull (nat (h - 1)) DefaultValue))"

lemma perfect_place: "perfect k t \<Longrightarrow> perfect k (placeAccounts H ser h j infos t)"
  by (induction infos arbitrary: j t) (auto intro: perfect_mupdate)

lemma leafPath_slotPath: "leafPath H tr (natBytes j) = slotPath H (height tr) j"
  by (simp add: leafPath_def slotPath_def)

lemma mlookup_place:
  assumes "tree_wf H m tr n t" and "j + length infos \<le> 2 ^ nat (height tr - 1)" and "i < 2 ^ nat (height tr - 1)"
    and "perfect (nat (height tr - 1)) u"
  shows "mlookup (placeAccounts H ser (height tr) j infos u) (slotPath H (height tr) i) =
    (if j \<le> i \<and> i < j + length infos then the_ok (SerializeAccountInfo ser (infos ! (i - j)))
     else mlookup u (slotPath H (height tr) i))"
  using assms(2,4)
proof (induction infos arbitrary: j u)
  case (Cons info infos)
  have len: "length (slotPath H (height tr) l) = nat (height tr - 1)" for l by (simp add: slotPath_def)
  have same: "slotPath H (height tr) i = slotPath H (height tr) j \<longleftrightarrow> i = j"
    using leafPath_inject [OF assms(1,3), of j] Cons.prems(1) by (simp add: leafPath_slotPath)
  have "Suc j + length infos \<le> 2 ^ nat (height tr - 1)" using Cons.prems(1) by simp
  from Cons.IH [OF this perfect_mupdate [OF Cons.prems(2)]] show ?case
    using same mlookup_mupdate [OF Cons.prems(2) len len] by (auto simp: nth_Cons' Suc_diff_le)
qed auto

section \<open>The property\<close>

text \<open>The accounts of a state in the order of their slots.\<close>

lemma sm_wf_accounts:
  assumes "sm_wf ser H m tr n t"
  shows "\<exists>infos. length infos = n \<and>
    (\<forall>j<n. ledgerOf ser m (Account (infos ! j)) = Some (infos ! j) \<and> accKey m (Account (infos ! j)) = Some (natBytes j)) \<and>
    (\<forall>a info. ledgerOf ser m a = Some info \<longrightarrow> info \<in> set infos) \<and>
    mhash H t = accountsRoot H ser (height tr) infos"
proof -
  note D = tree_wfD [OF sm_wfD(1) [OF assms]]
  have "\<exists>info. ledgerOf ser m (Account info) = Some info \<and> accKey m (Account info) = Some (natBytes j) \<and>
      SerializeAccountInfo ser info = Ok (mlookup t (slotPath H (height tr) j))" if j: "j < n" for j
  proof -
    obtain a where a: "accKey m a = Some (natBytes j)" using sm_wfD(7) [OF assms j] by blast
    obtain info where i: "lookupAccount ser m a = Ok info"
      "SerializeAccountInfo ser info = Ok (mlookup t (slotPath H (height tr) j))"
      using sm_wf_leaf [OF assms a] by (auto simp: leafPath_slotPath)
    have "Account info = a" using i(1) by (rule lookupAccount_Ok_wf [OF assms])
    with a i show ?thesis by (intro exI [of _ info]) (simp add: ledgerOf_def)
  qed
  then obtain f where f: "\<And>j. j < n \<Longrightarrow> ledgerOf ser m (Account (f j)) = Some (f j) \<and>
      accKey m (Account (f j)) = Some (natBytes j) \<and> SerializeAccountInfo ser (f j) = Ok (mlookup t (slotPath H (height tr) j))"
    by metis
  let ?infos = "map f [0..<n]" and ?k = "nat (height tr - 1)"
  have all: "info \<in> set ?infos" if L: "ledgerOf ser m a = Some info" for a info
  proof -
    have "lookupAccount ser m a = Ok info" using L by (auto simp: ledgerOf_def split: outcome.splits)
    then obtain k where k: "accKey m a = Some k" by (rule lookupAccount_Ok_wf [OF assms])
    obtain j where j: "j < n" "k = natBytes j" using sm_wfD(4) [OF assms k] by blast
    then have "a = Account (f j)" using sm_wfD(6) [OF assms k] f by metis
    then show ?thesis using L f [OF j(1)] j(1) by auto
  qed
  have "t = placeAccounts H ser (height tr) 0 ?infos (mfull ?k DefaultValue)"
  proof (rule mlookup_ext [OF D(7) perfect_place [OF perfect_mfull]])
    fix bs :: "bool list"
    assume "length bs = ?k"
    then obtain i where i: "i < 2 ^ ?k" "bs = slotPath H (height tr) i"
      using leafPath_surj [OF sm_wfD(1) [OF assms]] by (auto simp: leafPath_slotPath)
    have "mlookup (placeAccounts H ser (height tr) 0 ?infos (mfull ?k DefaultValue)) (slotPath H (height tr) i) =
        (if i < n then the_ok (SerializeAccountInfo ser (f i)) else DefaultValue)"
      using mlookup_place [OF sm_wfD(1) [OF assms], of 0 ?infos i "mfull ?k DefaultValue" ser] i(1) D(4)
      by (simp add: mlookup_mfull slotPath_def)
    then show "mlookup t bs = mlookup (placeAccounts H ser (height tr) 0 ?infos (mfull ?k DefaultValue)) bs"
      using f [of i] sm_wfD(8) [OF assms, of i] i by (simp add: leafPath_slotPath)
  qed
  then have "mhash H t = accountsRoot H ser (height tr) ?infos" by (simp add: accountsRoot_def)
  then show ?thesis using f all by (intro exI [of _ ?infos]) simp
qed

text \<open>
  C6: the state root is the Merkle root of the accounts. After any sequence of transactions,
  accepted or rejected, the accounts the state machine knows, listed by the slots it has given
  them, have exactly the root it reports: the one that is computed from the list alone, each
  account serialised into the leaf of its slot and all other leaves at their default. So the
  root commits to the accounts and to nothing else the database holds.
\<close>

theorem root_commits_to_accounts:
  assumes "sound ser H sm" and "steps (sm_step ser H) sm es sm'"
  shows "\<exists>infos.
    (\<forall>j<length infos. getAccountInfo mem_iface ser sm' (Account (infos ! j)) = Ok (infos ! j) \<and>
      db_Get mem_iface (smDb sm') (Some NamespaceAccountAddressToKey) (Account (infos ! j)) = Ok (Some (natBytes j))) \<and>
    (\<forall>a info. getAccountInfo mem_iface ser sm' a = Ok info \<longrightarrow> info \<in> set infos) \<and>
    GetStateRoot sm' = accountsRoot H ser (height (smTree sm')) infos"
proof -
  have S: "sound ser H sm'" using sm_run.keeps_steps [OF assms(2), of "tokens sm"] assms(1) by blast
  then obtain t where wf: "sm_wf ser H (mem_view (smDb sm')) (smTree sm') (nextSlot (mem_view (smDb sm'))) t"
    by (auto simp: sound_def elim: implementsE)
  have "GetStateRoot sm' = mhash H t"
    using tree_wfD(1) [OF sm_wfD(1) [OF wf]] by (simp add: GetStateRoot_def represents_def)
  moreover obtain infos where I: "length infos = nextSlot (mem_view (smDb sm'))"
    "\<forall>j<length infos. ledgerAt ser sm' (Account (infos ! j)) = Some (infos ! j) \<and>
      accKey (mem_view (smDb sm')) (Account (infos ! j)) = Some (natBytes j)"
    "\<forall>a info. ledgerAt ser sm' a = Some info \<longrightarrow> info \<in> set infos"
    "mhash H t = accountsRoot H ser (height (smTree sm')) infos"
    using sm_wf_accounts [OF wf] by metis
  ultimately show ?thesis
    by (intro exI [of _ infos]) (simp add: sound_account [OF S] mem.Get accKey_def split: option.splits)
qed

theorem root_commits_to_accounts_witness:
  "\<exists>infos. 0 < length infos \<and>
     getAccountInfo mem_iface sampleSerializer sampleEnd (Account (infos ! 0)) = Ok (infos ! 0) \<and>
     GetStateRoot sampleEnd = accountsRoot sampleHasher sampleSerializer 2 infos"
proof -
  obtain infos where I: "\<forall>j<length infos. getAccountInfo mem_iface sampleSerializer sampleEnd (Account (infos ! j)) = Ok (infos ! j)"
    "\<forall>a info. getAccountInfo mem_iface sampleSerializer sampleEnd a = Ok info \<longrightarrow> info \<in> set infos"
    "GetStateRoot sampleEnd = accountsRoot sampleHasher sampleSerializer (height (smTree sampleEnd)) infos"
    using root_commits_to_accounts [OF sampleStart_sound sampleEvents_run] by blast
  have "height (smTree sampleEnd) = 2" by code_simp
  moreover have "is_Ok (getAccountInfo mem_iface sampleSerializer sampleEnd (sampleAddress 1))" by code_simp
  then have "infos \<noteq> []" using I(2) by (auto simp: is_Ok_iff)
  ultimately show ?thesis using I by auto
qed

end
