(* ===== verification/Chain_Sync.thy ===== *)
theory Chain_Sync
  imports Replay_Properties Run_Properties
begin

text \<open>
  Aggregator and validator in sync. Sync is a condition on two states; it is kept by every
  accepted transaction that both apply, and by every rejected one that only the aggregator
  sees, as long as that one opens no account. A batch of transactions is turned into
  transitions by the one and replayed from them by the other.
\<close>

section \<open>Transitions fit into their encoding\<close>

text \<open>The numbers of an accepted transaction, and of the accounts it returns.\<close>

lemma uint256_nonneg: "uint256 x \<Longrightarrow> 0 \<le> x"
  by (simp add: uint256_def)

lemma uint256_le: "uint256 x \<Longrightarrow> 0 \<le> y \<Longrightarrow> y \<le> x \<Longrightarrow> uint256 y"
  by (simp add: uint256_def)

lemma account_fits_nth:
  assumes "account_fits info"
  shows "i < length (Balances info) \<Longrightarrow> uint256 (Balances info ! i)"
    and "i < length (TransferNonces info) \<Longrightarrow> uint256 (TransferNonces info ! i)"
    and "i < length (WithdrawNonces info) \<Longrightarrow> uint256 (WithdrawNonces info ! i)"
  using assms by (simp_all add: account_fits_def list_all_length)

lemma balanceOf_nonneg: "account_fits info \<Longrightarrow> 0 \<le> balanceOf info i"
  using account_fits_nth(1) [of info i] by (simp add: balanceOf_def uint256_def)

lemma account_fits_empty: "length a = 20 \<Longrightarrow> account_fits (emptyAccount a n)"
  by (simp add: account_fits_def emptyAccount_def uint256_def list_all_iff)

lemma uint256_credit:
  assumes "account_fits (credit i amount info)" and "account_fits info" and "0 \<le> amount"
  shows "uint256 amount"
proof (rule uint256_le [OF _ assms(3)])
  have "i < length (Balances (credit i amount info))" by (simp add: credit_def expand_def Let_def)
  from account_fits_nth(1) [OF assms(1) this] this
  show "uint256 (balanceOf (credit i amount info) i)" by (simp add: balanceOf_def)
  show "amount \<le> balanceOf (credit i amount info) i"
    using balanceOf_nonneg [OF assms(2)] by (simp add: balanceOf_credit)
qed

lemma opened_fits:
  assumes "\<And>a info. L a = Some info \<Longrightarrow> account_wf info" and "length a = 20"
  shows "account_fits (fst (fst (ledgerOpen L a ti)))"
  using assms account_fits_empty [OF assms(2)]
  by (cases "L a") (auto simp: ledgerOpen_def account_wf_def)

lemma ledgerDeposit_fits:
  assumes "fst (ledgerDeposit ti L tx) = Ok us" and "updates_fit (Ok us)"
    and "\<And>a info. L a = Some info \<Longrightarrow> account_wf info" and "length (tx_Account tx) = 20"
  shows "uint256 (tx_Amount tx)"
proof -
  obtain info new L1 where op: "ledgerOpen L (tx_Account tx) ti = ((info, new), L1)" by (metis prod.collapse)
  have "account_fits info" using opened_fits [of L "tx_Account tx" ti] assms(3,4) op by simp
  moreover have "account_fits (credit (unat ti) (tx_Amount tx) info)" "0 \<le> tx_Amount tx"
    using assms(1,2) by (auto simp: ledgerDeposit_def op Let_def updates_fit_def split: if_splits)
  ultimately show ?thesis using uint256_credit by blast
qed

lemma ledgerWithdraw_fits:
  assumes "fst (ledgerWithdraw ti L tx) = Ok us" and "\<And>a info. L a = Some info \<Longrightarrow> account_wf info"
  shows "uint256 (tx_Amount tx) \<and> uint256 (tx_Nonce tx)"
  using assms(1)
proof (rule ledgerWithdraw_info)
  fix info
  assume S: "L (tx_Account tx) = Some info" "unat ti < length (Balances info)" "0 \<le> tx_Amount tx"
    "tx_Amount tx \<le> Balances info ! unat ti" "WithdrawNonces info ! unat ti = tx_Nonce tx"
  have "account_fits info" "length (WithdrawNonces info) = length (Balances info)"
    using assms(2) [OF S(1)] by (simp_all add: account_wf_def)
  with S show ?thesis using account_fits_nth [of info "unat ti"] uint256_le by metis
qed

lemma ledgerTransfer_fits:
  assumes "fst (ledgerTransfer ti L tx) = Ok us" and "\<And>a info. L a = Some info \<Longrightarrow> account_wf info"
    and "tx_Sender tx \<noteq> tx_Recipient tx"
  shows "uint256 (tx_Amount tx) \<and> uint256 (tx_Nonce tx)"
  using assms(1)
proof (rule ledgerTransfer_info)
  fix info
  assume S: "snd (ledgerOpen L (tx_Recipient tx) ti) (tx_Sender tx) = Some info" "unat ti < length (Balances info)"
    "0 \<le> tx_Amount tx" "tx_Amount tx \<le> Balances info ! unat ti" "TransferNonces info ! unat ti = tx_Nonce tx"
  have "L (tx_Sender tx) = Some info" using S(1) assms(3) by (auto simp: ledgerOpen_def split: option.splits)
  then have "account_fits info" "length (TransferNonces info) = length (Balances info)"
    using assms(2) by (simp_all add: account_wf_def)
  with S show ?thesis using account_fits_nth [of info "unat ti"] uint256_le by metis
qed

text \<open>Slots are numbers below the capacity of the tree.\<close>

lemma implements_slot_fits:
  assumes "implements ser H m tr sl L" and "accKey m a = Some k" and "Size H \<le> 32"
  shows "uint256 (int (setBytes k))"
proof -
  obtain t where t: "sm_wf ser H m tr (fst sl) t" using assms(1) by (rule implementsE)
  obtain j where j: "j < fst sl" "k = natBytes j" using sm_wfD(4) [OF t assms(2)] by blast
  note D = tree_wfD [OF sm_wfD(1) [OF t]]
  have "fst sl \<le> 2 ^ nat (height tr - 1)" by (rule D(4))
  also have "\<dots> \<le> 2 ^ 256" using D(5) assms(3) by (intro power_increasing) simp_all
  finally have "int j < 2 ^ 256" using j(1) by (metis of_nat_less_iff of_nat_numeral of_nat_power order_less_le_trans)
  then show ?thesis by (simp add: uint256_def j(2))
qed

lemma entries_fit:
  assumes "implements ser H m tr sl L'" and "Size H \<le> 32" and "updates_fit (Ok us)"
    and "list_all2 (entry_matches ser H m tr L) us es"
  shows "list_all (\<lambda>e. uint256 (ent_SlotIndex e) \<and> length (Account (ent_AccountInfo e)) = 20) es"
proof -
  have "list_all2 (\<lambda>u e. uint256 (ent_SlotIndex e) \<and> length (Account (ent_AccountInfo e)) = 20) us es"
    using assms(4) unfolding list_all2_conv_all_nth
  proof (intro conjI allI impI; elim conjE)
    fix i
    assume "\<forall>i<length us. entry_matches ser H m tr L (us ! i) (es ! i)" "i < length us"
    then have E: "entry_matches ser H m tr L (us ! i) (es ! i)" by blast
    then obtain k where "accKey m (Account (upd_Info (us ! i))) = Some k" "ent_SlotIndex (es ! i) = int (setBytes k)"
      by (auto simp: entry_matches_def split: option.splits)
    then show "uint256 (ent_SlotIndex (es ! i))" using implements_slot_fits [OF assms(1) _ assms(2)] by simp
    show "length (Account (ent_AccountInfo (es ! i))) = 20"
      using E assms(3) \<open>i < length us\<close> by (simp add: entry_matches_def updates_fit_def account_fits_def list_all_length)
  qed
  then show ?thesis by (auto simp: list_all2_conv_all_nth list_all_length)
qed

lemma well_posed_tokens:
  assumes "well_posed ser H sm sl L tx" and "ApplyTransaction mem_iface H ser sm tx = (r, sm')"
  shows "tokenEntries (mem_view (smDb sm')) = tokenEntries (mem_view (smDb sm))"
  by (rule well_posed_refines [OF assms(1)]) (use assms(2) in simp)

text \<open>What a pending transition is made of, type by type.\<close>

lemma pendingTransition_fits_entries:
  assumes "pendingTransition mem_iface fraud d (Some su) tx = Ok t"
    and "tokenAt (mem_view d) (tx_Token tx) = Some (natBytes i)" and "i < maxSliceLen"
    and "list_all (\<lambda>e. uint256 (ent_SlotIndex e) \<and> length (Account (ent_AccountInfo e)) = 20) (su_Entries su)"
    and "length (su_StateRoot su) = 32" and "uint256 (tx_Amount tx)"
    and "GetTransactionType tx \<noteq> TransactionTypeDeposit \<Longrightarrow> uint256 (tx_Nonce tx)"
  shows "transition_fits t"
proof -
  have tok: "db_Get mem_iface d (Some NamespaceTokenAddressToTokenIndex) (tx_Token tx) = Ok (Some (natBytes i))"
    using assms(2) by (simp add: mem.Get tokenAt_def)
  have i: "uint256 (int i)" using assms(3) by (simp add: uint256_def maxSliceLen_def)
  have E: "uint256 (ent_SlotIndex (su_Entries su ! j))" "length (Account (ent_AccountInfo (su_Entries su ! j))) = 20"
    if "j < length (su_Entries su)" for j
    using assms(4) that by (simp_all add: list_all_length)
  show ?thesis
    using assms(1) assms(5-7) i E tok
    by (cases tx) (auto simp: pendingTransition_def Let_def bindO_eq_Ok idx_eq_Ok split: if_splits)
qed

lemma pendingTransition_fits:
  assumes "in_step ser H sma smv sl L tx" and "distinctParties tx"
    and "ApplyTransaction mem_iface H ser sma tx = (Ok (Some su), sma')"
    and "pendingTransition mem_iface fraud (smDb sma') (Some su) tx = Ok t"
  shows "transition_fits t"
proof -
  obtain i where i: "i < maxSliceLen" "tokenAt (mem_view (smDb sma)) (tx_Token tx) = Some (natBytes i)"
    using assms(1) by (auto simp: in_step_def token_tables_def)
  have posed: "well_posed ser H sma sl L tx" using assms(1) by (simp add: in_step_def)
  then have W: "Size H \<le> 32" "updates_fit (fst (ledgerApply (tokens sma) L tx))"
    "list_all (\<lambda>a. length a = 20) (tx_addresses tx)" by (simp_all add: well_posed_def)
  have wf: "\<And>a info. L a = Some info \<Longrightarrow> account_wf info" using well_posed_wf(1) [OF posed] .
  have tok: "tokenAt (mem_view (smDb sma')) (tx_Token tx) = Some (natBytes i)"
    using tokenEntries_cong(1) [OF well_posed_tokens [OF posed assms(3)]] i(2) by simp
  obtain ti us where us: "tokens sma (tx_Token tx) = Ok ti" "fst (ledgerApply (tokens sma) L tx) = Ok us"
    "implements ser H (mem_view (smDb sma')) (smTree sma') (slotsAfter (tokens sma) L tx sl) (snd (ledgerApply (tokens sma) L tx))"
    using well_posed_Ok [OF posed assms(3)] by metis
  have R: "length (su_StateRoot su) = 32 \<and>
    list_all2 (entry_matches ser H (mem_view (smDb sma')) (smTree sma') (snd (ledgerApply (tokens sma) L tx))) us (su_Entries su)"
    by (rule well_posed_refines [OF posed]) (use assms(3) us(2) in auto)
  have E: "list_all (\<lambda>e. uint256 (ent_SlotIndex e) \<and> length (Account (ent_AccountInfo e)) = 20) (su_Entries su)"
    by (rule entries_fit [OF us(3) W(1) _ conjunct2 [OF R]]) (use W(2) us(2) in simp)
  have "uint256 (tx_Amount tx) \<and> (GetTransactionType tx \<noteq> TransactionTypeDeposit \<longrightarrow> uint256 (tx_Nonce tx))"
    using us(1,2) W(2,3) assms(2) ledgerDeposit_fits [of ti L tx us] ledgerWithdraw_fits [of ti L tx us]
      ledgerTransfer_fits [of ti L tx us] wf
    by (cases tx) (auto simp: ledgerApply_def tx_addresses_def distinctParties_def)
  then show ?thesis using pendingTransition_fits_entries [OF assms(4) tok i(1) E] R by blast
qed

section \<open>In sync\<close>

text \<open>Two nodes with the same accounts in the same slots of trees of the same height.\<close>

definition in_sync :: "serializer \<Rightarrow> hasher \<Rightarrow> memdb sm \<Rightarrow> memdb sm \<Rightarrow> bool" where
  "in_sync ser H sma smv \<longleftrightarrow>
     sound ser H sma \<and> sound ser H smv \<and> height (smTree sma) = height (smTree smv) \<and>
     nextSlot (mem_view (smDb sma)) = nextSlot (mem_view (smDb smv)) \<and>
     accKey (mem_view (smDb sma)) = accKey (mem_view (smDb smv)) \<and> ledgerAt ser sma = ledgerAt ser smv"

text \<open>The tokens of the transactions are registered at both.\<close>

definition tokens_known :: "memdb sm \<Rightarrow> memdb sm \<Rightarrow> Transaction list \<Rightarrow> bool" where
  "tokens_known sma smv txs \<longleftrightarrow>
     (\<forall>tx\<in>set txs. \<exists>i<maxSliceLen. token_tables (mem_view (smDb sma)) (mem_view (smDb smv)) (tx_Token tx) i)"

abbreviation slotsAt :: "memdb sm \<Rightarrow> slots" where
  "slotsAt sm \<equiv> (nextSlot (mem_view (smDb sm)), accKey (mem_view (smDb sm)))"

lemma in_syncD:
  assumes "in_sync ser H sma smv"
  shows "sound ser H sma" and "sound ser H smv" and "height (smTree sma) = height (smTree smv)"
    and "slotsAt smv = slotsAt sma" and "ledgerAt ser smv = ledgerAt ser sma"
  using assms by (simp_all add: in_sync_def)

lemma in_syncI:
  assumes "hasher_ok H" and "Size H \<le> 32" and "serializer_ok ser"
    and "implements ser H (mem_view (smDb sma)) (smTree sma) sl L"
    and "implements ser H (mem_view (smDb smv)) (smTree smv) sl L" and "height (smTree sma) = height (smTree smv)"
  shows "in_sync ser H sma smv"
  using assms implements_slots [OF assms(4)] implements_slots [OF assms(5)]
  by (auto simp: in_sync_def sound_def)

lemma in_sync_implements:
  assumes "in_sync ser H sma smv"
  shows "hasher_ok H" and "Size H \<le> 32" and "serializer_ok ser"
    and "implements ser H (mem_view (smDb sma)) (smTree sma) (slotsAt sma) (ledgerAt ser sma)"
    and "implements ser H (mem_view (smDb smv)) (smTree smv) (slotsAt sma) (ledgerAt ser sma)"
  using in_syncD [OF assms] by (simp_all add: sound_def)

lemma in_sync_root: "in_sync ser H sma smv \<Longrightarrow> GetStateRoot smv = GetStateRoot sma"
  using implements_root [OF in_sync_implements(5,4)] in_syncD(3) by (simp add: GetStateRoot_def)

lemma in_sync_accounts:
  "in_sync ser H sma smv \<Longrightarrow> getAccountInfo mem_iface ser smv a = getAccountInfo mem_iface ser sma a"
  by (simp add: sound_account [OF in_syncD(1)] sound_account [OF in_syncD(2)] in_syncD(5))

text \<open>The validator writes a block before it replays it.\<close>

lemma storeBlock_frame:
  assumes "storeBlock mem_iface ser d b = (r, d')"
  shows "unchangedExcept {NamespaceRollupBlockNumber} (mem_view d) (mem_view d')"
  using assms
  by (auto simp: storeBlock_def mem_iface_def mem_Set_def unchangedExcept_def mem_view_def update_conv'
      split: outcome.splits)

lemma sync_storeBlock:
  assumes "smv' = smv\<lparr>smDb := snd (storeBlock mem_iface ser (smDb smv) b)\<rparr>"
  shows "in_sync ser H sma smv \<Longrightarrow> in_sync ser H sma smv'" and "tokens_known sma smv txs \<Longrightarrow> tokens_known sma smv' txs"
proof -
  obtain r d where "storeBlock mem_iface ser (smDb smv) b = (r, d)" by fastforce
  then have U: "unchangedExcept {NamespaceRollupBlockNumber} (mem_view (smDb smv)) (mem_view (smDb smv'))"
    and tree: "smTree smv' = smTree smv" using storeBlock_frame assms by simp_all
  show "in_sync ser H sma smv'" if S: "in_sync ser H sma smv"
  proof (rule in_syncI [OF in_sync_implements(1-4) [OF S]])
    show "implements ser H (mem_view (smDb smv')) (smTree smv') (slotsAt sma) (ledgerAt ser sma)"
      using implements_frame [OF U _ in_sync_implements(5) [OF S]] tree by simp
    show "height (smTree sma) = height (smTree smv')" using in_syncD(3) [OF S] tree by simp
  qed
  have "tokenEntries (mem_view (smDb smv')) = tokenEntries (mem_view (smDb smv))"
    using unchangedExceptD(5) [OF U] by simp
  from tokenEntries_cong [OF this] show "tokens_known sma smv txs \<Longrightarrow> tokens_known sma smv' txs"
    by (simp add: tokens_known_def token_tables_def)
qed

section \<open>One transaction\<close>

text \<open>Nodes in sync are in step for a transaction within the limits.\<close>

lemma sync_posed:
  assumes "sound ser H sm" and "withinLimits ser sm (tx # txs)" and "applyFresh mem_iface H ser sm tx"
  shows "well_posed ser H sm (slotsAt sm) (ledgerAt ser sm) tx"
  using assms limits_admissible [OF assms] by (simp add: well_posed_iff)

lemma sync_in_step:
  assumes "in_sync ser H sma smv" and "tokens_known sma smv (tx # txs)" and "withinLimits ser sma (tx # txs)"
    and "applyFresh mem_iface H ser sma tx" and "applyFresh mem_iface H ser smv tx"
  shows "in_step ser H sma smv (slotsAt sma) (ledgerAt ser sma) tx"
proof -
  have P: "well_posed ser H sma (slotsAt sma) (ledgerAt ser sma) tx"
    by (rule sync_posed [OF in_syncD(1) [OF assms(1)] assms(3,4)])
  obtain i where i: "i < maxSliceLen" "token_tables (mem_view (smDb sma)) (mem_view (smDb smv)) (tx_Token tx) i"
    using assms(2) by (auto simp: tokens_known_def)
  have same: "tokens smv (tx_Token tx) = tokens sma (tx_Token tx)" using token_tables_index [OF i(2)] by simp
  then have "ledgerApply (tokens smv) (ledgerAt ser sma) tx = ledgerApply (tokens sma) (ledgerAt ser sma) tx"
    by (rule ledgerApply_token)
  then have "well_posed ser H smv (slotsAt sma) (ledgerAt ser sma) tx"
    using P in_sync_implements(5) [OF assms(1)] in_syncD(3) [OF assms(1)] assms(5) by (simp add: well_posed_def same)
  with P i in_syncD(3) [OF assms(1)] show ?thesis unfolding in_step_def by blast
qed

lemma tokens_known_step:
  assumes "tokens_known sma smv (tx # txs)"
    and "tokenEntries (mem_view (smDb sma')) = tokenEntries (mem_view (smDb sma))"
    and "tokenEntries (mem_view (smDb smv')) = tokenEntries (mem_view (smDb smv))"
  shows "tokens_known sma' smv' txs"
  using assms(1) tokenEntries_cong [OF assms(2)] tokenEntries_cong [OF assms(3)]
  by (simp add: tokens_known_def token_tables_def)

text \<open>An accepted transaction: an honest transition, no fraud proof, and both in sync again.\<close>

lemma sync_accept:
  assumes "Size H = 32" and "in_sync ser H sma smv" and "tokens_known sma smv (tx # txs)"
    and "withinLimits ser sma (tx # txs)" and "applyFresh mem_iface H ser sma tx" and "applyFresh mem_iface H ser smv tx"
    and "ApplyTransaction mem_iface H ser sma tx = (Ok (Some su), sma')"
    and "smv' = snd (ApplyTransaction mem_iface H ser smv tx)"
  obtains t where "pendingTransition mem_iface False (smDb sma') (Some su) tx = Ok t" and "transition_fits t"
    and "\<And>pos. validateTransition mem_iface H ser smv pos t = (Ok None, smv')"
    and "in_sync ser H sma' smv'" and "tokens_known sma' smv' txs" and "withinLimits ser sma' txs"
proof -
  note step = sync_in_step [OF assms(2-6)]
  have dp: "distinctParties tx" using assms(4) by (simp add: withinLimits_def)
  have W: "hasher_ok H" "serializer_ok ser" "mem.stands ser H sma (slotsAt sma) (ledgerAt ser sma)"
    "mem.stands ser H smv (slotsAt sma) (ledgerAt ser sma)" "height (smTree sma) = height (smTree smv)"
    "list_all (\<lambda>a. length a = 20) (tx_addresses tx)" "fst (slotsAt sma) < 2 ^ nat (height (smTree sma) - 1)"
    "updates_fit (fst (ledgerApply (tokens sma) (ledgerAt ser sma) tx))"
    using step by (simp_all add: in_step_def well_posed_def mem.stands_def)
  obtain i where i: "i < maxSliceLen" "token_tables (mem_view (smDb sma)) (mem_view (smDb smv)) (tx_Token tx) i"
    using assms(3) by (auto simp: tokens_known_def)
  note replay = mem.validate_replay [OF W(1) assms(1) W(2-5) i(2,1) W(6) dp W(7,8) assms(5-7), of False,
      folded assms(8), unfolded mem.stands_def]
  obtain t where t: "pendingTransition mem_iface False (smDb sma') (Some su) tx = Ok t"
    "implements ser H (mem_view (smDb sma')) (smTree sma') (slotsAfter (tokens sma) (ledgerAt ser sma) tx (slotsAt sma))
      (snd (ledgerApply (tokens sma) (ledgerAt ser sma) tx))"
    "implements ser H (mem_view (smDb smv')) (smTree smv') (slotsAfter (tokens sma) (ledgerAt ser sma) tx (slotsAt sma))
      (snd (ledgerApply (tokens sma) (ledgerAt ser sma) tx))"
    using replay by blast
  have V: "validateTransition mem_iface H ser smv pos t = (Ok None, smv')" for pos
    using replay [of pos] t(1) by auto
  obtain rv where A': "ApplyTransaction mem_iface H ser smv tx = (rv, smv')" using assms(8) by (metis prod.collapse)
  have P: "well_posed ser H sma (slotsAt sma) (ledgerAt ser sma) tx"
    "well_posed ser H smv (slotsAt sma) (ledgerAt ser sma) tx" using step by (simp_all add: in_step_def)
  have h: "height (smTree sma') = height (smTree sma)" "height (smTree smv') = height (smTree smv)"
    by (rule well_posed_refines [OF P(1)], use assms(7) in simp) (rule well_posed_refines [OF P(2)], use A' in simp)
  have "in_sync ser H sma' smv'"
    by (rule in_syncI [OF in_sync_implements(1-3) [OF assms(2)] t(2,3)]) (simp add: h W(5))
  moreover have "tokens_known sma' smv' txs"
    by (rule tokens_known_step [OF assms(3) well_posed_tokens [OF P(1) assms(7)] well_posed_tokens [OF P(2) A']])
  ultimately show ?thesis
    using that t(1) V pendingTransition_fits [OF step dp assms(7) t(1)]
      limits_step(4) [OF in_syncD(1) [OF assms(2)] assms(4,7,5)] by blast
qed

text \<open>
  A rejected transaction the validator never hears of. A deposit or a transfer to an account
  that does not exist opens it before anything is checked, so these are left out.
\<close>

definition opensNothing :: "serializer \<Rightarrow> memdb sm \<Rightarrow> Transaction \<Rightarrow> bool" where
  "opensNothing ser sm tx \<longleftrightarrow>
     \<not> mayOpen tx \<or> list_all (\<lambda>a. is_Ok (getAccountInfo mem_iface ser sm a)) (tx_addresses tx)"

lemma rejected_same_ledger:
  assumes "\<not> is_Ok (fst (ledgerApply T L tx))" and "\<not> mayOpen tx \<or> set (tx_addresses tx) \<subseteq> dom L"
  shows "snd (ledgerApply T L tx) = L" and "slotsAfter T L tx sl = sl"
proof -
  have "snd (ledgerOpen L a ti) = L" if "a \<in> dom L" for a ti
    using that by (auto simp: ledgerOpen_def split: option.splits)
  then show "snd (ledgerApply T L tx) = L"
    using assms ledger_rejected [of _ L tx]
    by (cases "T (tx_Token tx)"; cases "GetTransactionType tx")
      (auto simp: ledgerApply_def tx_addresses_def mayOpen_def)
  show "slotsAfter T L tx sl = sl"
    using assms(2)
    by (auto simp: slotsAfter_def openSlot_def tx_addresses_def mayOpen_def split: outcome.splits TransactionType.splits)
qed

lemma sync_reject:
  assumes "in_sync ser H sma smv" and "tokens_known sma smv (tx # txs)" and "withinLimits ser sma (tx # txs)"
    and "applyFresh mem_iface H ser sma tx" and "ApplyTransaction mem_iface H ser sma tx = (Err e, sma')"
    and "opensNothing ser sma tx"
  shows "in_sync ser H sma' smv" and "tokens_known sma' smv txs" and "withinLimits ser sma' txs"
proof -
  let ?T = "tokens sma" and ?L = "ledgerAt ser sma"
  note P = sync_posed [OF in_syncD(1) [OF assms(1)] assms(3,4)]
  have old: "\<not> mayOpen tx \<or> set (tx_addresses tx) \<subseteq> dom ?L"
    using assms(6) in_syncD(1) [OF assms(1)]
    by (auto simp: opensNothing_def list_all_iff sound_account split: option.splits)
  have "implements ser H (mem_view (smDb sma')) (smTree sma') (slotsAt sma) ?L \<and> height (smTree sma') = height (smTree sma)"
  proof (rule well_posed_refines [OF P])
    fix r sm''
    assume R: "ApplyTransaction mem_iface H ser sma tx = (r, sm'')" "height (smTree sm'') = height (smTree sma)"
      "implements ser H (mem_view (smDb sm'')) (smTree sm'') (slotsAfter ?T ?L tx (slotsAt sma)) (snd (ledgerApply ?T ?L tx))"
      "case fst (ledgerApply ?T ?L tx) of
         Err e \<Rightarrow> r = Err e
       | Panic p \<Rightarrow> r = Panic p
       | Ok us \<Rightarrow> (\<exists>es. r = Ok (Some \<lparr>su_Transaction = tx, su_StateRoot = copyN 32 (root (smTree sm'')),
             su_Entries = es\<rparr>) \<and>
           list_all2 (entry_matches ser H (mem_view (smDb sm'')) (smTree sm'') (snd (ledgerApply ?T ?L tx))) us es)"
    have [simp]: "sm'' = sma'" "r = Err e" using R(1) assms(5) by simp_all
    have "\<not> is_Ok (fst (ledgerApply ?T ?L tx))" using R(4) by (auto split: outcome.splits)
    from rejected_same_ledger [OF this old] R(2,3) show ?thesis by simp
  qed
  then show "in_sync ser H sma' smv"
    using in_sync_implements [OF assms(1)] in_syncD(3) [OF assms(1)] by (auto intro: in_syncI)
  show "tokens_known sma' smv txs" by (rule tokens_known_step [OF assms(2) well_posed_tokens [OF P assms(5)] refl])
  show "withinLimits ser sma' txs" by (rule limits_step(4) [OF in_syncD(1) [OF assms(1)] assms(3,5,4)])
qed

end
