(* ===== verification/Chain_Properties.thy ===== *)
theory Chain_Properties
  imports Chain_Sync
begin

text \<open>
  From the queue to the validator's watch loop: an aggregator that works through batches of
  transactions proposes one block per batch, the blocks survive their serialisation, and a
  validator that watches them being committed replays them all without a fraud proof.
\<close>

section \<open>A batch\<close>

text \<open>The accepted transactions of a batch with the transitions they become, and the state reached.\<close>

fun batchTransitions ::
  "hasher \<Rightarrow> serializer \<Rightarrow> memdb sm \<Rightarrow> Transaction list \<Rightarrow> ((Transaction \<times> Transition) list \<times> memdb sm) option" where
  "batchTransitions H ser sm [] = Some ([], sm)"
| "batchTransitions H ser sm (tx # txs) =
     (case ApplyTransaction mem_iface H ser sm tx of
        (Ok (Some su), sm') \<Rightarrow>
          (case pendingTransition mem_iface False (smDb sm') (Some su) tx of
             Ok t \<Rightarrow> map_option (\<lambda>(ps, sm''). ((tx, t) # ps, sm'')) (batchTransitions H ser sm' txs)
           | _ \<Rightarrow> None)
      | (Err e, sm') \<Rightarrow> batchTransitions H ser sm' txs
      | _ \<Rightarrow> None)"

text \<open>
  What a batch has to meet while it runs at both nodes: no transaction panics, a rejected one
  opens no account, and no hashes collide.
\<close>

fun replayable :: "hasher \<Rightarrow> serializer \<Rightarrow> memdb sm \<Rightarrow> memdb sm \<Rightarrow> Transaction list \<Rightarrow> bool" where
  "replayable H ser sma smv [] = True"
| "replayable H ser sma smv (tx # txs) =
     (applyFresh mem_iface H ser sma tx \<and>
      (case ApplyTransaction mem_iface H ser sma tx of
         (Ok (Some su), sma') \<Rightarrow> applyFresh mem_iface H ser smv tx \<and>
           replayable H ser sma' (snd (ApplyTransaction mem_iface H ser smv tx)) txs
       | (Err e, sma') \<Rightarrow> opensNothing ser sma tx \<and> replayable H ser sma' smv txs
       | _ \<Rightarrow> False))"

lemma replayable_ConsE:
  assumes "replayable H ser sma smv (tx # txs)"
  obtains (accept) su sma' where "applyFresh mem_iface H ser sma tx" and "applyFresh mem_iface H ser smv tx"
      and "ApplyTransaction mem_iface H ser sma tx = (Ok (Some su), sma')"
      and "replayable H ser sma' (snd (ApplyTransaction mem_iface H ser smv tx)) txs"
  | (reject) e sma' where "applyFresh mem_iface H ser sma tx"
      and "ApplyTransaction mem_iface H ser sma tx = (Err e, sma')" and "opensNothing ser sma tx"
      and "replayable H ser sma' smv txs"
  using assms by (auto split: prod.splits outcome.splits option.splits)

lemma batch_replayed:
  assumes "Size H = 32" and "in_sync ser H sma smv" and "tokens_known sma smv (txs @ rest)"
    and "withinLimits ser sma (txs @ rest)" and "replayable H ser sma smv txs"
  shows "\<exists>ps sma'. batchTransitions H ser sma txs = Some (ps, sma') \<and> list_all transition_fits (map snd ps) \<and>
    in_sync ser H sma' (applyAll H ser smv (map fst ps)) \<and> tokens_known sma' (applyAll H ser smv (map fst ps)) rest \<and>
    withinLimits ser sma' rest \<and>
    (\<forall>i v. v_sm v = smv \<longrightarrow> validateLoop mem_iface H ser R client block (map snd ps) i v =
      Some (Ok (), v\<lparr>v_sm := applyAll H ser smv (map fst ps)\<rparr>))"
  using assms(2-5)
proof (induction txs arbitrary: sma smv)
  case Nil
  then show ?case by (auto intro!: exI [of _ sma])
next
  case (Cons tx txs)
  show ?case
    using Cons.prems(4)
  proof (cases rule: replayable_ConsE)
    case (accept su sma1)
    let ?smv1 = "snd (ApplyTransaction mem_iface H ser smv tx)"
    have known: "tokens_known sma smv (tx # (txs @ rest))" "withinLimits ser sma (tx # (txs @ rest))"
      using Cons.prems(2,3) by simp_all
    obtain t where t: "pendingTransition mem_iface False (smDb sma1) (Some su) tx = Ok t" "transition_fits t"
      "\<And>pos. validateTransition mem_iface H ser smv pos t = (Ok None, ?smv1)"
      "in_sync ser H sma1 ?smv1" "tokens_known sma1 ?smv1 (txs @ rest)" "withinLimits ser sma1 (txs @ rest)"
      using sync_accept [OF assms(1) Cons.prems(1) known accept(1-3) refl] by blast
    from Cons.IH [OF t(4-6) accept(4)] obtain ps sma' where IH: "batchTransitions H ser sma1 txs = Some (ps, sma')"
      "list_all transition_fits (map snd ps)" "in_sync ser H sma' (applyAll H ser ?smv1 (map fst ps))"
      "tokens_known sma' (applyAll H ser ?smv1 (map fst ps)) rest" "withinLimits ser sma' rest"
      "\<forall>i v. v_sm v = ?smv1 \<longrightarrow> validateLoop mem_iface H ser R client block (map snd ps) i v =
        Some (Ok (), v\<lparr>v_sm := applyAll H ser ?smv1 (map fst ps)\<rparr>)" by blast
    have "validateLoop mem_iface H ser R client block (t # map snd ps) i v =
        Some (Ok (), v\<lparr>v_sm := applyAll H ser ?smv1 (map fst ps)\<rparr>)" if "v_sm v = smv" for i v
      using IH(6) [rule_format, of "v\<lparr>v_sm := ?smv1\<rparr>" "Suc i"] t(3) that by simp
    with IH t(1,2) accept(3) show ?thesis by (intro exI [of _ "(tx, t) # ps"] exI [of _ sma']) simp
  next
    case (reject e sma1)
    have known: "tokens_known sma smv (tx # (txs @ rest))" "withinLimits ser sma (tx # (txs @ rest))"
      using Cons.prems(2,3) by simp_all
    note sync = sync_reject [OF Cons.prems(1) known reject(1-3)]
    show ?thesis using Cons.IH [OF sync reject(4)] reject(2) by simp
  qed
qed

text \<open>The aggregator's pending block while it has room, and when the batch fills it.\<close>

definition withPending :: "(memdb, 'c, 's) aggregator \<Rightarrow> memdb sm \<Rightarrow> Transition list \<Rightarrow> (memdb, 'c, 's) aggregator" where
  "withPending a sm ts =
     a\<lparr>stateMachine := sm, pendingBlock := (pendingBlock a)\<lparr>Transitions := Transitions (pendingBlock a) @ ts\<rparr>\<rparr>"

lemma processTransactions_batch:
  assumes "batchTransitions H ser (stateMachine a) txs = Some (ps, sm')" and "0 < num"
  shows "int (length (Transitions (pendingBlock a)) + length ps) < num \<Longrightarrow>
      processTransactions mem_iface H ser E num False a txs = Some (Ok (), withPending a sm' (map snd ps))"
    and "int (length (Transitions (pendingBlock a)) + length ps) = num \<Longrightarrow> ps \<noteq> [] \<Longrightarrow>
      proposeBlock ser E (blockSubmitter a) (pendingBlock (withPending a sm' (map snd ps))) = Some (Ok agreed, bs) \<Longrightarrow>
      processTransactions mem_iface H ser E num False a txs =
        Some (Ok (), a\<lparr>stateMachine := sm', pendingBlock := NewRollupBlock (BlockNumber (pendingBlock a) + 1), blockSubmitter := bs\<rparr>)"
proof -
  have "(int (length (Transitions (pendingBlock a)) + length ps) < num \<longrightarrow>
      processTransactions mem_iface H ser E num False a txs = Some (Ok (), withPending a sm' (map snd ps))) \<and>
    (int (length (Transitions (pendingBlock a)) + length ps) = num \<and> ps \<noteq> [] \<and>
      proposeBlock ser E (blockSubmitter a) (pendingBlock (withPending a sm' (map snd ps))) = Some (Ok agreed, bs) \<longrightarrow>
      processTransactions mem_iface H ser E num False a txs =
        Some (Ok (), a\<lparr>stateMachine := sm', pendingBlock := NewRollupBlock (BlockNumber (pendingBlock a) + 1), blockSubmitter := bs\<rparr>))"
    using assms(1)
  proof (induction txs arbitrary: a ps)
    case (Cons tx txs)
    show ?case
    proof (cases "\<exists>e sm1. ApplyTransaction mem_iface H ser (stateMachine a) tx = (Err e, sm1)")
      case True
      then obtain e sm1 where R: "ApplyTransaction mem_iface H ser (stateMachine a) tx = (Err e, sm1)" by blast
      then have "applyTransaction mem_iface H ser E num False a tx = Some (Err e, a\<lparr>stateMachine := sm1\<rparr>)"
        by (simp add: applyTransaction_def)
      then show ?thesis
        using Cons.IH [of "a\<lparr>stateMachine := sm1\<rparr>" ps] Cons.prems R by (simp add: withPending_def)
    next
      case False
      then obtain su sm1 t ps1 where S: "ApplyTransaction mem_iface H ser (stateMachine a) tx = (Ok (Some su), sm1)"
        "pendingTransition mem_iface False (smDb sm1) (Some su) tx = Ok t" "batchTransitions H ser sm1 txs = Some (ps1, sm')"
        "ps = (tx, t) # ps1"
        using Cons.prems by (auto split: prod.splits outcome.splits option.splits)
      have room: "applyTransaction mem_iface H ser E num False a tx = Some (Ok (), withPending a sm1 [t])"
        if "int (length (Transitions (pendingBlock a))) + 1 < num"
        using S(1,2) that by (simp add: applyTransaction_def addToPendingBlock_def withPending_def)
      have full: "applyTransaction mem_iface H ser E num False a tx = Some (Ok (), a\<lparr>stateMachine := sm1,
          pendingBlock := NewRollupBlock (BlockNumber (pendingBlock a) + 1), blockSubmitter := bs\<rparr>)"
        if "int (length (Transitions (pendingBlock a))) + 1 = num"
          "proposeBlock ser E (blockSubmitter a) (pendingBlock (withPending a sm1 [t])) = Some (Ok agreed, bs)"
        using S(1,2) that by (simp add: applyTransaction_def addToPendingBlock_def withPending_def)
      show ?thesis
      proof (cases "ps1 = []")
        case True
        then show ?thesis
          using S Cons.IH [of "withPending a sm1 [t]" ps1] room full assms(2)
            Cons.IH [of "a\<lparr>stateMachine := sm1, pendingBlock := NewRollupBlock (BlockNumber (pendingBlock a) + 1),
              blockSubmitter := bs\<rparr>" ps1]
          by (auto simp: withPending_def NewRollupBlock_def)
      next
        case False
        then show ?thesis
          using S Cons.IH [of "withPending a sm1 [t]" ps1] room by (auto simp: withPending_def)
      qed
    qed
  qed (simp add: withPending_def)
  then show "int (length (Transitions (pendingBlock a)) + length ps) < num \<Longrightarrow>
      processTransactions mem_iface H ser E num False a txs = Some (Ok (), withPending a sm' (map snd ps))"
    and "int (length (Transitions (pendingBlock a)) + length ps) = num \<Longrightarrow> ps \<noteq> [] \<Longrightarrow>
      proposeBlock ser E (blockSubmitter a) (pendingBlock (withPending a sm' (map snd ps))) = Some (Ok agreed, bs) \<Longrightarrow>
      processTransactions mem_iface H ser E num False a txs =
        Some (Ok (), a\<lparr>stateMachine := sm', pendingBlock := NewRollupBlock (BlockNumber (pendingBlock a) + 1), blockSubmitter := bs\<rparr>)"
    by blast+
qed

section \<open>Chains of blocks\<close>

text \<open>The blocks of a chain, the proposals they are sent in, and the events of their commits.\<close>

fun chainBlocks :: "hasher \<Rightarrow> serializer \<Rightarrow> u64 \<Rightarrow> memdb sm \<Rightarrow> Transaction list list \<Rightarrow> RollupBlock list" where
  "chainBlocks H ser n sma [] = []"
| "chainBlocks H ser n sma (txs # batches) =
     (case batchTransitions H ser sma txs of
        None \<Rightarrow> []
      | Some (ps, sma') \<Rightarrow> \<lparr>BlockNumber = n, Transitions = map snd ps\<rparr> # chainBlocks H ser (n + 1) sma' batches)"

fun proposeAll ::
  "serializer \<Rightarrow> ('c, 's, 'pk, 'sk) chainEnv \<Rightarrow> ('c, 's) submitter \<Rightarrow> RollupBlock list \<Rightarrow> ('c, 's) submitter option" where
  "proposeAll ser E bs [] = Some bs"
| "proposeAll ser E bs (b # blocks) = (case proposeBlock ser E bs b of
     Some (Ok agreed, bs') \<Rightarrow> proposeAll ser E bs' blocks
   | _ \<Rightarrow> None)"

definition committedEvent :: "serializer \<Rightarrow> RollupBlock \<Rightarrow> blockEvent" where
  "committedEvent ser b = RollupBlockCommitted (uint (BlockNumber b)) (fst (the_ok (SerializeRollupBlock ser b)))"

text \<open>
  The batches as both nodes meet them: each fills a block, and the validator replays it after
  it has stored the block.
\<close>

fun replayableChain ::
  "hasher \<Rightarrow> serializer \<Rightarrow> int \<Rightarrow> u64 \<Rightarrow> memdb sm \<Rightarrow> memdb sm \<Rightarrow> Transaction list list \<Rightarrow> bool" where
  "replayableChain H ser num n sma smv [] = True"
| "replayableChain H ser num n sma smv (txs # batches) =
     (case batchTransitions H ser sma txs of
        None \<Rightarrow> False
      | Some (ps, sma') \<Rightarrow>
          int (length ps) = num \<and>
          (let smv1 = smv\<lparr>smDb := snd (storeBlock mem_iface ser (smDb smv) \<lparr>BlockNumber = n, Transitions = map snd ps\<rparr>)\<rparr>
           in replayable H ser sma smv1 txs \<and>
              replayableChain H ser num (n + 1) sma' (applyAll H ser smv1 (map fst ps)) batches))"

text \<open>One committed block in the validator's watch loop.\<close>

lemma watch_block:
  assumes "serializer_ok ser" and "list_all transition_fits ts"
    and "smv1 = (v_sm v)\<lparr>smDb := snd (storeBlock mem_iface ser (smDb (v_sm v)) \<lparr>BlockNumber = n, Transitions = ts\<rparr>)\<rparr>"
    and "validateLoop mem_iface H ser R client \<lparr>BlockNumber = n, Transitions = ts\<rparr> ts 0 (v\<lparr>v_sm := smv1\<rparr>) =
      Some (Ok (), v\<lparr>v_sm := smv2\<rparr>)"
  shows "watchRollupBlockCommitted mem_iface H ser R client v (committedEvent ser \<lparr>BlockNumber = n, Transitions = ts\<rparr> # events) =
    watchRollupBlockCommitted mem_iface H ser R client (v\<lparr>v_sm := smv2\<rparr>) events"
proof -
  let ?b = "\<lparr>BlockNumber = n, Transitions = ts\<rparr>"
  obtain raw data where raw: "SerializeRollupBlock ser ?b = Ok (raw, data)"
    "DeserializeRollupBlockFromFields ser n raw = Ok ?b"
    using block_roundtrip_lemma [OF assms(1), of ?b] assms(2) by auto
  obtain d where d: "storeBlock mem_iface ser (smDb (v_sm v)) ?b = (Ok (), d)"
    using raw(1) by (simp add: storeBlock_def mem_iface_def mem_Set_def)
  then have "validateBlock mem_iface H ser R client v ?b = Some (Ok (), v\<lparr>v_sm := smv2\<rparr>)"
    using assms(3,4) by (simp add: validateBlock_def)
  with raw show ?thesis by (simp add: committedEvent_def)
qed

text \<open>
  C2: an honest chain passes as a whole. Aggregator and validator start with the same accounts
  in the same slots, and the aggregator works through transactions of known tokens that stay
  within the limits, accepting some and rejecting others, where no rejected one opens an
  account and no transfer is to its sender. Every time a batch of them has filled a block, the
  aggregator proposes it; these blocks are proposed in order and no others, and it is left with
  an empty one. A validator that watches the blocks being committed, as the serialised
  transitions the aggregator proposed, reads them back, replays them all, submits no fraud
  proof, leaves the chain alone, and ends with the aggregator's accounts and state root.
\<close>

theorem honest_chain_validates:
  assumes "Size H = 32" and "0 < num" and "in_sync ser H (stateMachine a) (v_sm v)"
    and "tokens_known (stateMachine a) (v_sm v) (concat batches)" and "withinLimits ser (stateMachine a) (concat batches)"
    and "replayableChain H ser num n (stateMachine a) (v_sm v) batches" and "pendingBlock a = NewRollupBlock n"
    and "proposeAll ser E (blockSubmitter a) (chainBlocks H ser n (stateMachine a) batches) = Some bs"
  shows "\<exists>sma smv. processTransactions mem_iface H ser E num False a (concat batches) =
      Some (Ok (), a\<lparr>stateMachine := sma, pendingBlock := NewRollupBlock (n + of_nat (length batches)), blockSubmitter := bs\<rparr>) \<and>
    length (chainBlocks H ser n (stateMachine a) batches) = length batches \<and>
    watchRollupBlockCommitted mem_iface H ser R client v
        (map (committedEvent ser) (chainBlocks H ser n (stateMachine a) batches)) = Some (Ok (), v\<lparr>v_sm := smv\<rparr>) \<and>
    GetStateRoot smv = GetStateRoot sma \<and>
    (\<forall>b. getAccountInfo mem_iface ser smv b = getAccountInfo mem_iface ser sma b)"
  using assms(3-8)
proof (induction batches arbitrary: n a v)
  case Nil
  then show ?case
    by (intro exI [of _ "stateMachine a"] exI [of _ "v_sm v"]) (simp add: in_sync_root in_sync_accounts)
next
  case (Cons txs batches)
  have ser: "serializer_ok ser" by (rule in_sync_implements(3) [OF Cons.prems(1)])
  obtain ps sma1 where T: "batchTransitions H ser (stateMachine a) txs = Some (ps, sma1)"
    using Cons.prems(4) by (auto split: option.splits)
  let ?b = "\<lparr>BlockNumber = n, Transitions = map snd ps\<rparr>"
  define smv1 where "smv1 = (v_sm v)\<lparr>smDb := snd (storeBlock mem_iface ser (smDb (v_sm v)) ?b)\<rparr>"
  let ?smv2 = "applyAll H ser smv1 (map fst ps)"
  have chain: "int (length ps) = num" "replayable H ser (stateMachine a) smv1 txs"
    "replayableChain H ser num (n + 1) sma1 ?smv2 batches"
    using Cons.prems(4) T by (simp_all add: Let_def smv1_def)
  have "tokens_known (stateMachine a) smv1 (txs @ concat batches)" "withinLimits ser (stateMachine a) (txs @ concat batches)"
    using sync_storeBlock(2) [OF smv1_def] Cons.prems(2,3) by simp_all
  from batch_replayed [OF assms(1) sync_storeBlock(1) [OF smv1_def Cons.prems(1)] this chain(2),
      where R = R and client = client and block = ?b] T
  have B: "list_all transition_fits (map snd ps)" "in_sync ser H sma1 ?smv2" "tokens_known sma1 ?smv2 (concat batches)"
    "withinLimits ser sma1 (concat batches)"
    "\<And>i v. v_sm v = smv1 \<Longrightarrow> validateLoop mem_iface H ser R client ?b (map snd ps) i v = Some (Ok (), v\<lparr>v_sm := ?smv2\<rparr>)"
    by auto
  obtain agreed bs1 where P: "proposeBlock ser E (blockSubmitter a) ?b = Some (Ok agreed, bs1)"
    "proposeAll ser E bs1 (chainBlocks H ser (n + 1) sma1 batches) = Some bs"
    using Cons.prems(6) T by (auto split: option.splits prod.splits outcome.splits)
  let ?a = "a\<lparr>stateMachine := sma1, pendingBlock := NewRollupBlock (n + 1), blockSubmitter := bs1\<rparr>"
  let ?v = "v\<lparr>v_sm := ?smv2\<rparr>"
  have full: "processTransactions mem_iface H ser E num False a txs = Some (Ok (), ?a)"
    using processTransactions_batch(2) [OF T assms(2), of E agreed bs1] P(1) chain(1) Cons.prems(5) assms(2)
    by (auto simp: withPending_def NewRollupBlock_def)
  have watch: "watchRollupBlockCommitted mem_iface H ser R client v (committedEvent ser ?b # events) =
      watchRollupBlockCommitted mem_iface H ser R client ?v events" for events
    by (rule watch_block [OF ser B(1) smv1_def]) (use B(5) [of "v\<lparr>v_sm := smv1\<rparr>" 0] in simp)
  from Cons.IH [of ?a ?v "n + 1"] B(2-4) chain(3) P(2)
  obtain sma smv where IH: "processTransactions mem_iface H ser E num False ?a (concat batches) =
      Some (Ok (), ?a\<lparr>stateMachine := sma, pendingBlock := NewRollupBlock (n + 1 + of_nat (length batches)), blockSubmitter := bs\<rparr>)"
    "length (chainBlocks H ser (n + 1) sma1 batches) = length batches"
    "watchRollupBlockCommitted mem_iface H ser R client ?v
        (map (committedEvent ser) (chainBlocks H ser (n + 1) sma1 batches)) = Some (Ok (), ?v\<lparr>v_sm := smv\<rparr>)"
    "GetStateRoot smv = GetStateRoot sma" "\<forall>b. getAccountInfo mem_iface ser smv b = getAccountInfo mem_iface ser sma b"
    by auto
  show ?case
    using IH watch T
    by (intro exI [of _ sma] exI [of _ smv]) (simp add: processTransactions_append [OF full] add.assoc)
qed

section \<open>An example\<close>

text \<open>
  A deposit, a withdrawal that is rejected, and a transfer, in a block each. The sidechain
  records what is proposed to it, and its proposer is this node.
\<close>

definition sampleOpts :: transactOpts where
  "sampleOpts = \<lparr>From = sampleAddress 5, GasLimit = 0, GasPrice = None\<rparr>"

definition recordingEnv :: "(unit, (int \<times> bytes list) list, unit, unit) chainEnv" where
  "recordingEnv = \<lparr>rollupContract = sampleChain,
     committee = \<lparr>CurrentProposer = \<lambda>_. Ok (sampleAddress 5),
       ProposeBlock = \<lambda>s auth n transitions signature. (Ok \<lparr>tx_Hash = []\<rparr>, s @ [(n, transitions)]),
       SignBlock = \<lambda>s _ _ _. (Err ErrNotFound, s)\<rparr>,
     mainchainClient = None,
     sidechainClient = Some \<lparr>TransactionReceipt = \<lambda>_ _. Ok \<lparr>Status = 1, GasUsed = 0\<rparr>, HeaderByNumber = \<lambda>_. Ok 0\<rparr>,
     cryptography = \<lparr>Keccak256 = \<lambda>_. [], SigToPub = \<lambda>_ _. Ok (), PubkeyToAddress = \<lambda>_. [],
       Sign = \<lambda>_ _. Ok (replicate 65 0), SoliditySHA3 = \<lambda>_ _. [], SoliditySHA3WithPrefix = \<lambda>_. []\<rparr>,
     sidechainKey = ()\<rparr>"

lemma recordingEnv_propose:
  assumes "From (sidechainAuth bs) = sampleAddress 5" and "SerializeRollupBlock ser b = Ok (raw, data)"
  shows "proposeBlock ser recordingEnv bs b = Some (Ok True,
    bs\<lparr>sidechainAuth := (sidechainAuth bs)\<lparr>GasLimit := 8000000\<rparr>,
       sidechain := sidechain bs @ [(uint (BlockNumber b), raw)]\<rparr>)"
  using assms
  by (simp add: proposeBlock_def recordingEnv_def SignData_def SignHash_def minedOr_def WaitMined_def
      WaitMinedWithTxHash_def waitReceipt.simps)

definition sampleRefused :: Transaction where
  "sampleRefused = WithdrawTransaction (sampleAddress 1) sampleToken 9 0 []"

definition sampleBatches :: "Transaction list list" where
  "sampleBatches = [[sampleDeposit], [sampleRefused, sampleTransfer]]"

definition sampleBlocks :: "RollupBlock list" where
  "sampleBlocks = chainBlocks sampleHasher sampleSerializer 0 sampleStart sampleBatches"

lemma sampleBlocks_eval [code]:
  "sampleBlocks =
     [\<lparr>BlockNumber = 0, Transitions = [CreateAndDepositTransition 0 (sampleNode 17) 0 (sampleAddress 1) 0 5 []]\<rparr>,
      \<lparr>BlockNumber = 1, Transitions = [CreateAndTransferTransition 3 (sampleNode 174) 0 1 (sampleAddress 2) 0 2 0 []]\<rparr>]"
  by code_simp

definition sampleProducer :: "(memdb, unit, (int \<times> bytes list) list) aggregator" where
  "sampleProducer = \<lparr>stateMachine = sampleStart, pendingBlock = NewRollupBlock 0,
     blockSubmitter = NewBlockSubmitter sampleOpts sampleOpts () []\<rparr>"

lemma sampleBlocks_serialized: "list_all (\<lambda>b. is_Ok (SerializeRollupBlock sampleSerializer b)) sampleBlocks"
  by code_simp

lemma recordingEnv_proposeAll:
  assumes "From (sidechainAuth bs) = sampleAddress 5" and "list_all (\<lambda>b. is_Ok (SerializeRollupBlock ser b)) blocks"
  shows "\<exists>bs'. proposeAll ser recordingEnv bs blocks = Some bs' \<and>
    map fst (sidechain bs') = map fst (sidechain bs) @ map (\<lambda>b. uint (BlockNumber b)) blocks"
  using assms
proof (induction blocks arbitrary: bs)
  case (Cons b blocks)
  then obtain raw data where "SerializeRollupBlock ser b = Ok (raw, data)" by (auto simp: is_Ok_iff)
  let ?bs = "bs\<lparr>sidechainAuth := (sidechainAuth bs)\<lparr>GasLimit := 8000000\<rparr>,
       sidechain := sidechain bs @ [(uint (BlockNumber b), raw)]\<rparr>"
  have "proposeBlock ser recordingEnv bs b = Some (Ok True, ?bs)" by (rule recordingEnv_propose [OF Cons.prems(1)]) fact
  then show ?case using Cons.IH [of ?bs] Cons.prems by simp
qed simp

text \<open>The validator when it has stored the first block, when it has replayed it, and with the second.\<close>

definition sampleStored1 :: "memdb sm" where
  "sampleStored1 = sampleStart\<lparr>smDb := snd (storeBlock mem_iface sampleSerializer (smDb sampleStart) (sampleBlocks ! 0))\<rparr>"

definition sampleApplied1 :: "memdb sm" where
  "sampleApplied1 = applyAll sampleHasher sampleSerializer sampleStored1 [sampleDeposit]"

definition sampleStored2 :: "memdb sm" where
  "sampleStored2 = sampleApplied1\<lparr>smDb := snd (storeBlock mem_iface sampleSerializer (smDb sampleApplied1) (sampleBlocks ! 1))\<rparr>"

lemma sampleBatches_eval:
  "map_option fst (batchTransitions sampleHasher sampleSerializer sampleStart [sampleDeposit]) =
     Some (zip [sampleDeposit] (Transitions (sampleBlocks ! 0)))"
  "map_option fst (batchTransitions sampleHasher sampleSerializer sampleOpened [sampleRefused, sampleTransfer]) =
     Some (zip [sampleTransfer] (Transitions (sampleBlocks ! 1)))"
  by code_simp+

lemma sampleBatches_made:
  "batchTransitions sampleHasher sampleSerializer sampleStart [sampleDeposit] =
     Some (zip [sampleDeposit] (Transitions (sampleBlocks ! 0)), sampleOpened)"
  "\<exists>sm. batchTransitions sampleHasher sampleSerializer sampleOpened [sampleRefused, sampleTransfer] =
     Some (zip [sampleTransfer] (Transitions (sampleBlocks ! 1)), sm)"
proof -
  obtain su where "ApplyTransaction mem_iface sampleHasher sampleSerializer sampleStart sampleDeposit = (Ok (Some su), sampleOpened)"
    by (rule well_posed_refines [OF sampleDeposit_posed]) (auto simp: sampleStart_deposit sampleOpened_def)
  then show "batchTransitions sampleHasher sampleSerializer sampleStart [sampleDeposit] =
      Some (zip [sampleDeposit] (Transitions (sampleBlocks ! 0)), sampleOpened)"
    using sampleBatches_eval(1) by (auto split: outcome.splits)
  show "\<exists>sm. batchTransitions sampleHasher sampleSerializer sampleOpened [sampleRefused, sampleTransfer] =
      Some (zip [sampleTransfer] (Transitions (sampleBlocks ! 1)), sm)"
    using sampleBatches_eval(2) by (auto simp del: batchTransitions.simps)
qed

lemma sampleStored1_replayable: "replayable sampleHasher sampleSerializer sampleStart sampleStored1 [sampleDeposit]"
  by code_simp

lemma sampleStored2_replayable:
  "replayable sampleHasher sampleSerializer sampleOpened sampleStored2 [sampleRefused, sampleTransfer]"
  by code_simp

lemma sampleBatches_replayable:
  "replayableChain sampleHasher sampleSerializer 1 0 sampleStart sampleStart sampleBatches"
proof -
  obtain sm where M: "batchTransitions sampleHasher sampleSerializer sampleOpened [sampleRefused, sampleTransfer] =
      Some (zip [sampleTransfer] (Transitions (sampleBlocks ! 1)), sm)" using sampleBatches_made(2) by blast
  have blocks: "\<lparr>BlockNumber = 0, Transitions = map snd (zip [sampleDeposit] (Transitions (sampleBlocks ! 0)))\<rparr> = sampleBlocks ! 0"
    "\<lparr>BlockNumber = 1, Transitions = map snd (zip [sampleTransfer] (Transitions (sampleBlocks ! 1)))\<rparr> = sampleBlocks ! 1"
    "map fst (zip [sampleDeposit] (Transitions (sampleBlocks ! 0))) = [sampleDeposit]"
    "length (zip [sampleDeposit] (Transitions (sampleBlocks ! 0))) = 1"
    "length (zip [sampleTransfer] (Transitions (sampleBlocks ! 1))) = 1"
    by (simp_all add: sampleBlocks_eval)
  show ?thesis
    unfolding sampleBatches_def replayableChain.simps sampleBatches_made(1) M option.case prod.case Let_def blocks add_0
      sampleStored1_def [symmetric] sampleApplied1_def [symmetric] sampleStored2_def [symmetric]
    using sampleStored1_replayable sampleStored2_replayable by simp
qed

lemma sampleStart_in_sync: "in_sync sampleSerializer sampleHasher sampleStart sampleStart"
  using in_syncI [OF _ _ _ sampleStart_implements sampleStart_implements] sampleStart_sound by (simp add: sound_def)

lemma sampleBatches_known: "tokens_known sampleStart sampleStart (concat sampleBatches)"
  using sampleStart_tokens
  by (auto simp: tokens_known_def sampleBatches_def sampleDeposit_def sampleRefused_def sampleTransfer_def maxSliceLen_def
      intro!: exI [of _ 0])

lemma sampleBatches_limits: "withinLimits sampleSerializer sampleStart (concat sampleBatches)"
  unfolding sound_bounded [OF sampleStart_sound]
proof (intro conjI)
  have txs: "concat sampleBatches = [sampleDeposit, sampleRefused, sampleTransfer]" by (simp add: sampleBatches_def)
  note defs = sampleDeposit_def sampleRefused_def sampleTransfer_def
  show "list_all (\<lambda>tx. token_fits (tokens sampleStart (tx_Token tx)) \<and>
      list_all (\<lambda>a. length a = 20) (tx_addresses tx) \<and> distinctParties tx) (concat sampleBatches)"
    unfolding txs
    by (simp add: defs token_fits_def maxSliceLen_def tx_addresses_def distinctParties_def sampleAddress_def)
  have "length (filter mayOpen (take k (concat sampleBatches))) \<le> 1" if "k < 3" for k
    unfolding txs using that by (cases k rule: nat.exhaust; auto simp: defs mayOpen_def take_Cons split: nat.splits)
  then show "\<forall>k<length (concat sampleBatches). nextSlot (mem_view (smDb sampleStart)) +
      length (filter mayOpen (take k (concat sampleBatches))) < 2 ^ nat (height (smTree sampleStart) - 1)"
    using implements_slots(1) [OF sampleStart_implements] by (simp add: txs le_less_trans [of _ 1])
  show "ledger_bounded (tokens sampleStart) (ledgerAt sampleSerializer sampleStart) (concat sampleBatches)"
    unfolding txs by (simp add: defs ledger_bounded_def offered_def ledgerSupply_def nonceIn_def)
qed

theorem honest_chain_validates_witness:
  "\<exists>a smv. processTransactions mem_iface sampleHasher sampleSerializer recordingEnv 1 False sampleProducer (concat sampleBatches) =
      Some (Ok (), a) \<and>
    map fst (sidechain (blockSubmitter a)) = [0, 1] \<and>
    watchRollupBlockCommitted mem_iface sampleHasher sampleSerializer sampleChain None
        \<lparr>v_sm = sampleStart, v_auth = sampleOpts, v_chain = ()\<rparr> (map (committedEvent sampleSerializer) sampleBlocks) =
      Some (Ok (), \<lparr>v_sm = smv, v_auth = sampleOpts, v_chain = ()\<rparr>) \<and>
    GetStateRoot smv = GetStateRoot (stateMachine a)"
proof -
  let ?v = "\<lparr>v_sm = sampleStart, v_auth = sampleOpts, v_chain = ()\<rparr>"
  have "From (sidechainAuth (blockSubmitter sampleProducer)) = sampleAddress 5"
    by (simp add: sampleProducer_def NewBlockSubmitter_def sampleOpts_def)
  from recordingEnv_proposeAll [OF this sampleBlocks_serialized] obtain bs where bs:
    "proposeAll sampleSerializer recordingEnv (blockSubmitter sampleProducer) sampleBlocks = Some bs"
    "map fst (sidechain bs) = [0, 1]"
    by (auto simp: sampleBlocks_eval sampleProducer_def NewBlockSubmitter_def)
  from honest_chain_validates [OF sampleHasher_ok(2), of 1 sampleSerializer sampleProducer ?v sampleBatches 0 recordingEnv bs
      sampleChain None] sampleStart_in_sync sampleBatches_known sampleBatches_limits sampleBatches_replayable bs
  show ?thesis
    by (fastforce simp: sampleProducer_def sampleBlocks_def)
qed

end
