(* ===== verification/Relayer.thy ===== *)
theory Relayer
  imports Block_Submitter
begin

text \<open>
  \<^verbatim>\<open>relayer/\<close>: the bridge signs mainchain deposits for the sidechain token contract, and
  the withdraw manager turns a stored block into the included transition a withdrawal needs.
\<close>

section \<open>The bridge\<close>

record ('s, 'k) bridgeContracts =
  MainchainTokenToSidechainToken :: "'s \<Rightarrow> bytes \<Rightarrow> bytes outcome"
  NewSidechainERC20 :: "bytes \<Rightarrow> 'k outcome"
  DepositERC20 :: "'k \<Rightarrow> 's \<Rightarrow> transactOpts \<Rightarrow> bytes \<Rightarrow> int \<Rightarrow> bytes \<Rightarrow> ethTx outcome \<times> 's"

definition relayDeposit ::
  "('s, 'k) bridgeContracts \<Rightarrow> ('pk, 'sk) crypto \<Rightarrow> 'sk \<Rightarrow> ethclient option \<Rightarrow> transactOpts \<Rightarrow> 's \<Rightarrow>
     bytes \<Rightarrow> bytes \<Rightarrow> int \<Rightarrow> (unit outcome \<times> 's) option" where
  "relayDeposit B C sk client auth sc mainchainTokenAddress account amount =
     (case bindO (MainchainTokenToSidechainToken B sc mainchainTokenAddress) (\<lambda>sidechainErc20Address.
           bindO (NewSidechainERC20 B sidechainErc20Address) (\<lambda>sidechainErc20.
           bindO (SignPackedData C sk [''address'', ''uint256''] [VAddress account, VUint amount]) (\<lambda>signature.
           Ok (sidechainErc20, signature)))) of
        Err e \<Rightarrow> Some (Err e, sc)
      | Panic p \<Rightarrow> Some (Panic p, sc)
      | Ok (sidechainErc20, signature) \<Rightarrow>
          (case DepositERC20 B sidechainErc20 sc auth account amount signature of
             (Err e, sc') \<Rightarrow> Some (Err e, sc')
           | (Panic p, sc') \<Rightarrow> Some (Panic p, sc')
           | (Ok tx, sc') \<Rightarrow>
               map_option (\<lambda>r. (bindO r (\<lambda>_. Ok ()), sc')) (minedOr client tx ''Failed to relay deposit'')))"

text \<open>The loop over deposit events (token, account, amount); errors are logged.\<close>

fun watchMainchainDeposit ::
  "('s, 'k) bridgeContracts \<Rightarrow> ('pk, 'sk) crypto \<Rightarrow> 'sk \<Rightarrow> ethclient option \<Rightarrow> transactOpts \<Rightarrow> 's \<Rightarrow>
     (bytes \<times> bytes \<times> int) list \<Rightarrow> (unit outcome \<times> 's) option" where
  "watchMainchainDeposit B C sk client auth sc [] = Some (Ok (), sc)"
| "watchMainchainDeposit B C sk client auth sc ((token, account, amount) # events) =
     (case relayDeposit B C sk client auth sc token account amount of
        None \<Rightarrow> None
      | Some (Panic p, sc') \<Rightarrow> Some (Panic p, sc')
      | Some (_, sc') \<Rightarrow> watchMainchainDeposit B C sk client auth sc' events)"

section \<open>The withdraw manager\<close>

text \<open>
  The contract call returns a nil transaction with an error, and the log line that follows
  dereferences it before the error is looked at. The block is looked up with the absolute
  value of the requested number. The number of the block and the index are \<^verbatim>\<open>int64\<close> in the
  code, so only such integers are ever given; the code does no arithmetic on them.
\<close>

definition includedWithdrawal ::
  "('d, 't, 'b) DB \<Rightarrow> hasher \<Rightarrow> serializer \<Rightarrow> 'd \<Rightarrow> int \<Rightarrow> int \<Rightarrow> IncludedTransition outcome" where
  "includedWithdrawal I H ser d rollupBlockNumber transitionIndex =
     (case db_Get I d (Some NamespaceRollupBlockNumber) (bigBytes rollupBlockNumber) of
        Panic p \<Rightarrow> Panic p
      | Err e \<Rightarrow> Err ErrBlockNotFound
      | Ok None \<Rightarrow> Err ErrBlockNotFound
      | Ok (Some blockData) \<Rightarrow>
          bindO (DeserializeRollupBlockFromData ser blockData) (\<lambda>block.
          bindO (NewRollupBlockInfo H ser block) (\<lambda>blockInfo.
          bindO (idxInt (Transitions block) transitionIndex) (\<lambda>transition.
          if GetTransitionType transition \<noteq> TransitionTypeWithdraw then Err ErrInvalidTransitionType
          else GetIncludedTransition H blockInfo transitionIndex))))"

definition submitWithdraw ::
  "('c \<Rightarrow> transactOpts \<Rightarrow> bytes \<Rightarrow> IncludedTransition \<Rightarrow> bytes \<Rightarrow> ethTx outcome \<times> 'c) \<Rightarrow>
     ethclient option \<Rightarrow> transactOpts \<Rightarrow> 'c \<Rightarrow> bytes \<Rightarrow> IncludedTransition \<Rightarrow> bytes \<Rightarrow>
     (bytes outcome \<times> transactOpts \<times> 'c) option" where
  "submitWithdraw contractWithdraw client auth mc account includedTransition signature =
     (let auth = auth\<lparr>GasLimit := 8000000\<rparr>
      in case contractWithdraw mc auth account includedTransition signature of
           (Err e, mc') \<Rightarrow> Some (Panic NilDereference, auth, mc')
         | (Panic p, mc') \<Rightarrow> Some (Panic p, auth, mc')
         | (Ok tx, mc') \<Rightarrow>
             map_option (\<lambda>r. (bindO r (\<lambda>_. Ok (tx_Hash tx)), auth, mc'))
               (minedOr client tx ''Failed to submit withdraw transaction''))"

definition withdraw ::
  "('d, 't, 'b) DB \<Rightarrow> hasher \<Rightarrow> serializer \<Rightarrow>
     ('c \<Rightarrow> transactOpts \<Rightarrow> bytes \<Rightarrow> IncludedTransition \<Rightarrow> bytes \<Rightarrow> ethTx outcome \<times> 'c) \<Rightarrow>
     ethclient option \<Rightarrow> 'd \<Rightarrow> transactOpts \<Rightarrow> 'c \<Rightarrow> bytes \<Rightarrow> int \<Rightarrow> int \<Rightarrow> bytes \<Rightarrow>
     (bytes outcome \<times> transactOpts \<times> 'c) option" where
  "withdraw I H ser contractWithdraw client d auth mc account rollupBlockNumber transitionIndex signature =
     (case includedWithdrawal I H ser d rollupBlockNumber transitionIndex of
        Err e \<Rightarrow> Some (Err e, auth, mc)
      | Panic p \<Rightarrow> Some (Panic p, auth, mc)
      | Ok includedTransition \<Rightarrow>
          submitWithdraw contractWithdraw client auth mc account includedTransition signature)"

record WithdrawRequest =
  req_Account :: string
  RollupBlockNumber :: int
  TransitionIndex :: int
  req_Signature :: bytes

definition Withdraw ::
  "('d, 't, 'b) DB \<Rightarrow> hasher \<Rightarrow> serializer \<Rightarrow>
     ('c \<Rightarrow> transactOpts \<Rightarrow> bytes \<Rightarrow> IncludedTransition \<Rightarrow> bytes \<Rightarrow> ethTx outcome \<times> 'c) \<Rightarrow>
     (string \<Rightarrow> bytes) \<Rightarrow> ethclient option \<Rightarrow> 'd \<Rightarrow> transactOpts \<Rightarrow> 'c \<Rightarrow> WithdrawRequest \<Rightarrow>
     (bytes outcome \<times> transactOpts \<times> 'c) option" where
  "Withdraw I H ser contractWithdraw HexToAddress client d auth mc request =
     withdraw I H ser contractWithdraw client d auth mc (HexToAddress (req_Account request))
       (RollupBlockNumber request) (TransitionIndex request) (req_Signature request)"

end
