(* ===== verification/Node_Properties.thy ===== *)
theory Node_Properties
  imports State_Contract Relayer
begin

text \<open>
  The properties of the parts around the state machine: block trees and withdrawals, waiting
  for receipts, signatures, the queue between the goroutines, and token registration.
\<close>

section \<open>Block trees\<close>

lemma le_pow2_pred: "1 \<le> n \<Longrightarrow> n \<le> (2::nat) ^ (n - 1)"
  by (induction n) (auto simp: Suc_le_eq intro: less_exp)

text \<open>A block whose tree can be built: at least one transition, at most as many as digest bits.\<close>

definition block_ok :: "serializer \<Rightarrow> hasher \<Rightarrow> RollupBlock \<Rightarrow> bool" where
  "block_ok ser H b \<longleftrightarrow>
     hasher_ok H \<and> Size H \<le> 32 \<and> serializer_ok ser \<and> list_all transition_fits (Transitions b) \<and>
     1 \<le> length (Transitions b) \<and> length (Transitions b) \<le> 8 * Size H \<and> blockInfoFresh H ser (Transitions b)"

lemma included_ok:
  assumes "block_ok ser H b" and "i < length (Transitions b)"
  shows "\<exists>info it data. NewRollupBlockInfo H ser b = Ok info \<and> GetIncludedTransition H info (int i) = Ok it \<and>
    SerializeTransition ser (Transitions b ! i) = Ok data \<and> it_Transition it = data \<and>
    tip_TransitionIndex (it_InclusionProof it) = int i \<and>
    proofRoot H (int (length (Transitions b))) (padPath H (natBytes i)) (tip_Siblings (it_InclusionProof it)) data =
      root (info_smt info)"
proof -
  have A: "hasher_ok H" "Size H \<le> 32" "serializer_ok ser" "list_all transition_fits (Transitions b)"
    "1 \<le> length (Transitions b)" "length (Transitions b) \<le> 8 * Size H" "blockInfoFresh H ser (Transitions b)"
    using assms(1) by (simp_all add: block_ok_def)
  obtain info raw t where info: "NewRollupBlockInfo H ser b = Ok info"
    "mapO (SerializeTransition ser) (Transitions b) = Ok raw" "encodedTransitions info = raw"
    "blockTree H (int (length (Transitions b))) raw (info_smt info) (info_db info) t"
    using NewRollupBlockInfo_ok [OF A] by blast
  have len: "length raw = length (Transitions b)" and data: "SerializeTransition ser (Transitions b ! i) = Ok (raw ! i)"
    using info(2) assms(2) by (auto simp: mapO_eq_Ok list_all2_conv_all_nth)
  have h: "nat (int (length (Transitions b)) - 1) = length (Transitions b) - 1" by simp
  have "nat (int (length (Transitions b)) - 1) \<le> 8 * Size H" "length raw \<le> 2 ^ nat (int (length (Transitions b)) - 1)"
    using A(5,6) le_pow2_pred [of "length (Transitions b)"] by (simp_all add: len h)
  from GetIncludedTransition_ok [OF A(1,2) info(4,3) this] assms(2) len data info(1) show ?thesis by auto
qed

text \<open>
  C32: every transition of a well-formed block can be cut out of the block's tree with an
  inclusion proof that leads from its serialised form to the root of the block.
\<close>

theorem included_transition_proves:
  assumes "block_ok ser H b" and "i < length (Transitions b)"
  shows "\<exists>info it data. NewRollupBlockInfo H ser b = Ok info \<and> GetIncludedTransition H info (int i) = Ok it \<and>
    SerializeTransition ser (Transitions b ! i) = Ok data \<and> it_Transition it = data \<and>
    proofRoot H (int (length (Transitions b))) (padPath H (natBytes i)) (tip_Siblings (it_InclusionProof it)) data =
      root (info_smt info)"
  using included_ok [OF assms] by blast

definition sampleBlock :: RollupBlock where
  "sampleBlock = \<lparr>BlockNumber = 4, Transitions =
     [DepositTransition 1 (replicate 32 3) 0 0 5 [9], WithdrawTransition 2 (replicate 32 4) 0 0 2 0 [8]]\<rparr>"

lemma sampleBlock_ok: "block_ok sampleSerializer tinyHasher sampleBlock"
proof -
  have "blockInfoFresh tinyHasher sampleSerializer (Transitions sampleBlock)" by code_simp
  then show ?thesis by (simp add: block_ok_def) (simp add: sampleBlock_def uint256_def)
qed

theorem included_transition_proves_witness:
  "\<exists>info it. NewRollupBlockInfo tinyHasher sampleSerializer sampleBlock = Ok info \<and>
     GetIncludedTransition tinyHasher info 1 = Ok it"
  using included_transition_proves [OF sampleBlock_ok, of 1] by (auto simp: sampleBlock_def)

text \<open>
  A block without transitions, or with more transitions than the digest has bits, panics
  when its tree is built: the number of transitions is used as the height.
\<close>

theorem block_tree_bad_height_panics:
  assumes "0 < Size H" and "length (Transitions b) \<notin> {1..8 * Size H}"
  shows "NewRollupBlockInfo H ser b = Panic IndexOutOfRange"
proof -
  have "nodes (mem_view NewDB) (Some NamespaceRollupBlockTrie) initMarker = None"
    by (simp add: nodes_def mem_view_def NewDB_def)
  moreover have "int (length (Transitions b)) < 1 \<or> int (Size H * 8) < int (length (Transitions b))"
    using assms(2) by (simp add: not_le) linarith
  ultimately obtain d where
    "NewSparseMerkleTree mem_iface H NewDB (Some NamespaceRollupBlockTrie) None (int (length (Transitions b))) False =
      (Panic IndexOutOfRange, d)"
    using mem.NewSparseMerkleTree_bad_height [OF assms(1)] by (metis fst_conv prod.exhaust)
  then show ?thesis by (simp add: NewRollupBlockInfo_def Let_def)
qed

theorem block_tree_bad_height_panics_witness:
  "NewRollupBlockInfo sampleHasher sampleSerializer \<lparr>BlockNumber = 0, Transitions = []\<rparr> = Panic IndexOutOfRange"
  by (rule block_tree_bad_height_panics) simp_all

section \<open>Waiting and signing\<close>

text \<open>
  C34: waiting for a transaction without confirmations returns the first answer of the node
  that is not \<^verbatim>\<open>pending\<close>, a receipt or an error, and never returns if there is none.
\<close>

theorem wait_mined_first_answer:
  "WaitMined Background (Some ec) tx 0 =
     (if \<exists>k. \<not> pendingAt ec (tx_Hash tx) k
      then Some (TransactionReceipt ec (LEAST k. \<not> pendingAt ec (tx_Hash tx) k) (tx_Hash tx))
      else None)"
proof (cases "\<exists>k. \<not> pendingAt ec (tx_Hash tx) k")
  case True
  then have "\<not> pendingAt ec (tx_Hash tx) (LEAST k. \<not> pendingAt ec (tx_Hash tx) k)" by (rule LeastI_ex)
  moreover have "\<forall>i<LEAST k. \<not> pendingAt ec (tx_Hash tx) k. pendingAt ec (tx_Hash tx) i"
    using not_less_Least by blast
  ultimately show ?thesis unfolding if_P [OF True] by (intro WaitMined_settles)
next
  case False
  then show ?thesis unfolding if_not_P [OF False] by (intro WaitMined_diverges) blast
qed

text \<open>
  The package rejects its own signatures. \<^verbatim>\<open>SignData\<close> ends a signature in 27 or 28,
  which \<^verbatim>\<open>IsSignatureValid\<close> hands to the recovery as it is; with 27 subtracted the
  signature is accepted for the signer's address.
\<close>

theorem own_signature_rejected:
  assumes "crypto_ok C pub" and "signer \<noteq> replicate 20 0" and "SignData C sk data = Ok sig"
  shows "IsSignatureValid C signer data sig = Ok False \<and>
    IsSignatureValid C (PubkeyToAddress C (pub sk)) data (sig[64 := sig ! 64 - 27]) = Ok True"
  using SignData_rejected [OF assms] SignData_recovers [OF assms(1,3)] by blast

definition sampleCrypto :: "(unit, unit) crypto" where
  "sampleCrypto = \<lparr>Keccak256 = \<lambda>_. [], SigToPub = \<lambda>_ sig. if sig ! 64 < 4 then Ok () else Err ErrNotFound,
     PubkeyToAddress = \<lambda>_. replicate 20 1, Sign = \<lambda>_ _. Ok (replicate 65 0), SoliditySHA3 = \<lambda>_ _. [],
     SoliditySHA3WithPrefix = \<lambda>_. []\<rparr>"

theorem own_signature_rejected_witness:
  "\<exists>sig. SignData sampleCrypto () [1] = Ok sig \<and> IsSignatureValid sampleCrypto (replicate 20 1) [1] sig = Ok False"
proof -
  have ok: "crypto_ok sampleCrypto (\<lambda>_. ())" by (auto simp: crypto_ok_def sampleCrypto_def not_le)
  then obtain sig where sig: "SignData sampleCrypto () [1] = Ok sig" using SignData_shape [OF ok, of "[1]" "()"] by auto
  have "replicate 20 (1::byte) \<noteq> replicate 20 0" by simp
  from own_signature_rejected [OF ok this sig] sig show ?thesis by blast
qed

section \<open>Tokens and committed blocks\<close>

text \<open>
  C37: after a token is registered, aggregator and validator know it under one index in both
  directions, other tokens keep theirs, and both state machines still stand for the same
  ledgers.
\<close>

theorem registration_fills_token_tables:
  assumes "length tok = 20"
    and "implements ser H (mem_view (smDb sma)) (smTree sma) sl L"
    and "implements ser H (mem_view (smDb smv)) (smTree smv) sl' L'"
  shows "\<exists>da dv. onTokenRegistered mem_iface tok (int i) (smDb sma, smDb smv) = (Ok (), da, dv) \<and>
    token_tables (mem_view da) (mem_view dv) tok i \<and>
    (\<forall>tok' j. tok' \<noteq> tok \<and> natBytes j \<noteq> natBytes i \<and>
      token_tables (mem_view (smDb sma)) (mem_view (smDb smv)) tok' j \<longrightarrow>
      token_tables (mem_view da) (mem_view dv) tok' j) \<and>
    implements ser H (mem_view da) (smTree sma) sl L \<and> implements ser H (mem_view dv) (smTree smv) sl' L'"
proof -
  let ?m = "\<lambda>m. (m :: bytes \<rightharpoonup> bytes)(dbKey (Some NamespaceTokenAddressToTokenIndex) tok \<mapsto> natBytes i,
      dbKey (Some NamespaceTokenIndexToTokenAddress) (natBytes i) \<mapsto> tok)"
  obtain da dv where run: "onTokenRegistered mem_iface tok (int i) (smDb sma, smDb smv) = (Ok (), da, dv)"
    "mem_view da = ?m (mem_view (smDb sma))" "mem_view dv = ?m (mem_view (smDb smv))"
    by (simp add: onTokenRegistered_def setAggregator_def setValidator_def logged_def mem_iface_def mem_Set_def
        mem_view_def bigBytes_int update_conv')
  have frame: "unchangedExcept {NamespaceTokenAddressToTokenIndex, NamespaceTokenIndexToTokenAddress} m (?m m)" for m
    by (auto simp: unchangedExcept_def)
  have "implements ser H (mem_view da) (smTree sma) sl L" "implements ser H (mem_view dv) (smTree smv) sl' L'"
    unfolding run(2,3) using implements_frame [OF frame _ assms(2)] implements_frame [OF frame _ assms(3)] by simp_all
  moreover have "token_tables (mem_view da) (mem_view dv) tok i"
    using assms(1) by (simp add: token_tables_def tokenAt_def run(2,3))
  moreover have "token_tables (mem_view da) (mem_view dv) tok' j"
    if "tok' \<noteq> tok \<and> natBytes j \<noteq> natBytes i \<and> token_tables (mem_view (smDb sma)) (mem_view (smDb smv)) tok' j" for tok' j
    using that by (simp add: token_tables_def tokenAt_def run(2,3))
  ultimately show ?thesis using run(1) by blast
qed

theorem registration_fills_token_tables_witness:
  "\<exists>da dv. onTokenRegistered mem_iface (sampleAddress 7) 1 (smDb sampleStart, smDb sampleStart) = (Ok (), da, dv) \<and>
     token_tables (mem_view da) (mem_view dv) (sampleAddress 7) 1"
  using registration_fills_token_tables [OF length_sampleAddress sampleStart_implements sampleStart_implements, of 7 1]
  by auto

text \<open>
  C38: a committed block can be withdrawn from. Once the node has seen the commit event, a
  request for a withdrawal of the block reaches the contract with the serialised withdrawal
  and a proof that leads from it to the root of the block.
\<close>

theorem committed_withdrawal_reaches_contract:
  assumes "block_ok ser H b" and "SerializeRollupBlock ser b = Ok (raw, data)"
    and "i < length (Transitions b)" and "GetTransitionType (Transitions b ! i) = TransitionTypeWithdraw"
  shows "\<exists>d' info it. submitterWatchCommitted mem_iface ser d [RollupBlockCommitted (uint (BlockNumber b)) raw] = (Ok (), d') \<and>
    withdraw mem_iface H ser cw client d' auth mc account (goInt (BlockNumber b)) (int i) sig =
      submitWithdraw cw client auth mc account it sig \<and>
    NewRollupBlockInfo H ser b = Ok info \<and> it_Transition it = raw ! i \<and>
    proofRoot H (int (length (Transitions b))) (padPath H (natBytes i)) (tip_Siblings (it_InclusionProof it)) (raw ! i) =
      root (info_smt info)"
proof -
  have "serializer_ok ser" "list_all transition_fits (Transitions b)" using assms(1) by (simp_all add: block_ok_def)
  from block_roundtrip_lemma [OF this] assms(2)
  have rt: "DeserializeRollupBlockFromData ser data = Ok b" "DeserializeRollupBlockFromFields ser (BlockNumber b) raw = Ok b"
    by auto
  have "mapO (SerializeTransition ser) (Transitions b) = Ok raw"
    using assms(2) by (auto simp: SerializeRollupBlock_def bindO_eq_Ok)
  then have ith: "SerializeTransition ser (Transitions b ! i) = Ok (raw ! i)"
    using assms(3) by (auto simp: mapO_eq_Ok list_all2_conv_all_nth)
  obtain d' where set: "db_Set mem_iface d (Some NamespaceRollupBlockNumber) (bigBytes (goInt (BlockNumber b))) data = (Ok (), d')"
    using mem.SetE by blast
  then have "submitterWatchCommitted mem_iface ser d [RollupBlockCommitted (uint (BlockNumber b)) raw] = (Ok (), d')"
    using rt(2) assms(2) by (simp add: storeBlock_def)
  moreover have "db_Get mem_iface d' (Some NamespaceRollupBlockNumber) (bigBytes (goInt (BlockNumber b))) = Ok (Some data)"
    by (simp add: mem.get_after_set [OF set])
  moreover have "idxInt (Transitions b) (int i) = Ok (Transitions b ! i)"
    using assms(3) by (simp add: idxInt_def idx_def)
  ultimately show ?thesis
    using included_ok [OF assms(1,3)] rt(1) ith assms(4) by (auto simp: withdraw_def includedWithdrawal_def)
qed

theorem committed_withdrawal_reaches_contract_witness:
  "\<exists>raw d' it. submitterWatchCommitted mem_iface sampleSerializer NewDB [RollupBlockCommitted 4 raw] = (Ok (), d') \<and>
     withdraw mem_iface tinyHasher sampleSerializer (\<lambda>c _ _ _ _. (Err ErrNotFound, c)) None d'
       \<lparr>From = [], GasLimit = 0, GasPrice = None\<rparr> () [] 4 1 [] =
     submitWithdraw (\<lambda>c _ _ _ _. (Err ErrNotFound, c)) None \<lparr>From = [], GasLimit = 0, GasPrice = None\<rparr> () [] it []"
proof -
  have "serializer_ok sampleSerializer \<and> list_all transition_fits (Transitions sampleBlock)"
    using sampleBlock_ok by (simp add: block_ok_def)
  then obtain raw data where ser: "SerializeRollupBlock sampleSerializer sampleBlock = Ok (raw, data)"
    using block_roundtrip_lemma by blast
  have n: "uint (BlockNumber sampleBlock) = 4" "goInt (BlockNumber sampleBlock) = 4"
    by (simp_all add: sampleBlock_def goInt_def)
  have "1 < length (Transitions sampleBlock)" "GetTransitionType (Transitions sampleBlock ! 1) = TransitionTypeWithdraw"
    by (simp_all add: sampleBlock_def)
  from committed_withdrawal_reaches_contract [OF sampleBlock_ok ser this, unfolded n, of NewDB "\<lambda>c _ _ _ _. (Err ErrNotFound, c)"
      None "\<lparr>From = [], GasLimit = 0, GasPrice = None\<rparr>" "()" "[]" "[]"]
  show ?thesis by auto
qed

end
