(* ===== verification/Fraud_Properties.thy ===== *)
theory Fraud_Properties
  imports Node_Properties Replay_Properties
begin

text \<open>From a detected fraud to the call of the contract.\<close>

text \<open>The storage slots of a fraud proof, one for each snapshot.\<close>

definition slotOf :: "StateSnapshot \<Rightarrow> IncludedStorageSlot" where
  "slotOf s = \<lparr>iss_SlotIndex = snap_SlotIndex s, iss_Value = snap_AccountInfo s, iss_Siblings = snap_InclusionProof s\<rparr>"

lemma storageSlots_ok:
  assumes "None \<notin> set inputs"
  shows "mapO storageSlot inputs = Ok (map (slotOf \<circ> the) inputs)"
proof (rule mapO_all_Ok)
  fix x assume "x \<in> set inputs"
  with assms obtain s where "x = Some s" by (cases x) auto
  then show "storageSlot x = Ok ((slotOf \<circ> the) x)" by (simp add: storageSlot_def slotOf_def)
qed

lemma goInt_index: "i < 2 ^ 63 \<Longrightarrow> goInt (word_of_nat i) = int i"
  by (subst goInt_small) (simp_all add: unat_of_nat take_bit_nat_eq_self_iff)

lemma goInt_pred:
  assumes "0 < i" and "i < 2 ^ 63"
  shows "(word_of_nat i :: u64) \<noteq> 0" and "goInt (word_of_nat i - 1) = int (i - 1)"
proof -
  have "unat (word_of_nat i :: u64) = i" using assms(2) by (simp add: unat_of_nat take_bit_nat_eq_self_iff)
  then show "(word_of_nat i :: u64) \<noteq> 0" using assms(1) by (metis neq0_conv unat_0)
  have "word_of_nat i - 1 = (word_of_nat (i - 1) :: u64)" using assms(1) by (simp add: of_nat_diff)
  then show "goInt (word_of_nat i - 1) = int (i - 1)" using goInt_index [of "i - 1"] assms(2) by simp
qed

lemma validateTransition_fraud:
  assumes "validateTransition I H ser sm pos t = (Ok (Some fp), sm')"
  shows "fp_Position fp = pos" and "fp_Transition fp = t"
  using assms
  by (auto simp: validateTransition_def bindS_def Let_def split: prod.splits outcome.splits if_splits)

text \<open>
  The transition before transition \<open>i\<close> of a block: of the same block, or the last one of the
  block with the number before, which the validator has stored when it came.
\<close>

definition predecessor :: "serializer \<Rightarrow> memdb \<Rightarrow> RollupBlock \<Rightarrow> nat \<Rightarrow> RollupBlock \<Rightarrow> nat \<Rightarrow> bool" where
  "predecessor ser d b i b0 j \<longleftrightarrow>
     (if i = 0
      then (\<exists>raw data. SerializeRollupBlock ser b0 = Ok (raw, data) \<and>
          db_Get mem_iface d (Some NamespaceRollupBlockNumber) (bigBytes (goInt (BlockNumber b - 1))) = Ok (Some data)) \<and>
        Suc j = length (Transitions b0)
      else b0 = b \<and> Suc j = i)"

lemma NewRollupBlockInfo_transitions:
  assumes "block_ok ser H b" and "NewRollupBlockInfo H ser b = Ok info"
  shows "length (encodedTransitions info) = length (Transitions b)"
proof -
  have A: "hasher_ok H" "Size H \<le> 32" "serializer_ok ser" "list_all transition_fits (Transitions b)"
    "1 \<le> length (Transitions b)" "length (Transitions b) \<le> 8 * Size H" "blockInfoFresh H ser (Transitions b)"
    using assms(1) by (simp_all add: block_ok_def)
  show ?thesis using NewRollupBlockInfo_ok [OF A] assms(2) by (auto simp: mapO_eq_Ok list_all2_lengthD)
qed

lemma preStateTransition_ok:
  assumes "predecessor ser (smDb sm) b i b0 j" and "block_ok ser H b0" and "i < 2 ^ 63"
    and "NewRollupBlockInfo H ser b = Ok info" and "NewRollupBlockInfo H ser b0 = Ok info0"
    and "GetIncludedTransition H info0 (int j) = Ok pre"
  shows "preStateTransition mem_iface H ser sm info \<lparr>pos_BlockNumber = BlockNumber b, pos_TransitionIndex = word_of_nat i\<rparr> =
    Ok pre"
proof (cases "i = 0")
  case True
  then obtain raw data where D: "SerializeRollupBlock ser b0 = Ok (raw, data)" "Suc j = length (Transitions b0)"
    "db_Get mem_iface (smDb sm) (Some NamespaceRollupBlockNumber) (bigBytes (goInt (BlockNumber b - 1))) = Ok (Some data)"
    using assms(1) by (auto simp: predecessor_def)
  have "serializer_ok ser" "list_all transition_fits (Transitions b0)" using assms(2) by (simp_all add: block_ok_def)
  from block_roundtrip_lemma [OF this] D(1) have "DeserializeRollupBlockFromData ser data = Ok b0" by simp
  moreover have "GetNumTransitions info0 - 1 = int j"
    using NewRollupBlockInfo_transitions [OF assms(2,5)] D(2) by (simp add: GetNumTransitions_def)
  ultimately show ?thesis using True D(3) assms(5,6) by (simp add: preStateTransition_def)
next
  case False
  then have "b0 = b" "j = i - 1" using assms(1) by (auto simp: predecessor_def)
  then show ?thesis
    using False goInt_pred [of i] assms(3-6) by (simp add: preStateTransition_def)
qed

text \<open>Submitting, as one expression: nothing is sent to oneself, and otherwise the contract is called.\<close>

definition sentProof ::
  "'c rollupChain \<Rightarrow> ethclient option \<Rightarrow> transactOpts \<Rightarrow> 'c \<Rightarrow> IncludedTransition \<Rightarrow> IncludedTransition \<Rightarrow>
     IncludedStorageSlot list \<Rightarrow> unit outcome option \<times> 'c" where
  "sentProof R client auth c pre bad slots =
     (case ProveTransitionInvalid R c auth pre bad slots of
        (Ok tx, c') \<Rightarrow> (map_option (\<lambda>r. bindO r (\<lambda>_. Ok ())) (minedOr client tx ''Failed to submit fraud proof''), c')
      | (Err e, c') \<Rightarrow> (Some (Err e), c')
      | (Panic p, c') \<Rightarrow> (Some (Panic p), c'))"

text \<open>
  C5: a detected fraud reaches the contract with its evidence. When a transition of a block is
  found fraudulent and its accounts existed before, the validator assembles the transition and
  the one before it, from the same block or from the block stored before it, each with a
  proof that leads to the root of its block, and the snapshots of the accounts. If it is the
  committer itself nothing is sent. Otherwise the contract is called with exactly these, and
  nothing else is done to the chain; then the validator goes on with the next transition,
  also when the call fails or the proof is not mined successfully, unless it waits for a
  receipt for ever or panics in the call.
\<close>

theorem detected_fraud_reaches_contract:
  assumes "block_ok ser H b" and "i < length (Transitions b)"
    and "validateTransition mem_iface H ser (v_sm v) \<lparr>pos_BlockNumber = BlockNumber b, pos_TransitionIndex = word_of_nat i\<rparr>
      (Transitions b ! i) = (Ok (Some fp), sm')"
    and "predecessor ser (smDb sm') b i b0 j" and "block_ok ser H b0" and "None \<notin> set (fp_Inputs fp)"
    and "CommitterAddress R (v_chain v) = Ok committer"
  defines "auth \<equiv> (v_auth v)\<lparr>GasLimit := 8000000, GasPrice := Some (10 ^ 10)\<rparr>"
    and "slots \<equiv> map (slotOf \<circ> the) (fp_Inputs fp)"
  shows "\<exists>info info0 pre bad. NewRollupBlockInfo H ser b = Ok info \<and> NewRollupBlockInfo H ser b0 = Ok info0 \<and>
    SerializeTransition ser (Transitions b0 ! j) = Ok (it_Transition pre) \<and>
    SerializeTransition ser (Transitions b ! i) = Ok (it_Transition bad) \<and>
    proofRoot H (int (length (Transitions b0))) (padPath H (natBytes j)) (tip_Siblings (it_InclusionProof pre))
      (it_Transition pre) = root (info_smt info0) \<and>
    proofRoot H (int (length (Transitions b))) (padPath H (natBytes i)) (tip_Siblings (it_InclusionProof bad))
      (it_Transition bad) = root (info_smt info) \<and>
    validateLoop mem_iface H ser R client b (Transitions b ! i # ts) i v =
      (if From (v_auth v) = committer
       then validateLoop mem_iface H ser R client b ts (Suc i) (v\<lparr>v_sm := sm', v_auth := auth\<rparr>)
       else case sentProof R client auth (v_chain v) pre bad slots of
           (None, c) \<Rightarrow> None
         | (Some (Panic p), c) \<Rightarrow> Some (Panic p, v\<lparr>v_sm := sm', v_auth := auth, v_chain := c\<rparr>)
         | (Some _, c) \<Rightarrow> validateLoop mem_iface H ser R client b ts (Suc i) (v\<lparr>v_sm := sm', v_auth := auth, v_chain := c\<rparr>))"
proof -
  have "8 * Size H \<le> 256" "length (Transitions b) \<le> 8 * Size H" using assms(1) by (simp_all add: block_ok_def)
  then have i: "i < 2 ^ 63" using assms(2) by simp
  have j: "j < length (Transitions b0)" using assms(2,4) by (auto simp: predecessor_def split: if_splits)
  from included_ok [OF assms(5) j] obtain info0 pre where P: "NewRollupBlockInfo H ser b0 = Ok info0"
    "GetIncludedTransition H info0 (int j) = Ok pre" "SerializeTransition ser (Transitions b0 ! j) = Ok (it_Transition pre)"
    "proofRoot H (int (length (Transitions b0))) (padPath H (natBytes j)) (tip_Siblings (it_InclusionProof pre))
      (it_Transition pre) = root (info_smt info0)" by blast
  from included_ok [OF assms(1,2)] obtain info bad where Q: "NewRollupBlockInfo H ser b = Ok info"
    "GetIncludedTransition H info (int i) = Ok bad" "SerializeTransition ser (Transitions b ! i) = Ok (it_Transition bad)"
    "proofRoot H (int (length (Transitions b))) (padPath H (natBytes i)) (tip_Siblings (it_InclusionProof bad))
      (it_Transition bad) = root (info_smt info)" by blast
  have gen: "generateContractFraudProof mem_iface H ser sm' b fp =
      Ok \<lparr>PreStateIncludedTransition = pre, InvalidIncludedTransition = bad, TransitionStorageSlots = slots\<rparr>"
    using preStateTransition_ok [OF assms(4,5) i Q(1) P(1,2)] Q(1,2) goInt_index [OF i]
      storageSlots_ok [OF assms(6)] validateTransition_fraud(1) [OF assms(3)]
    by (simp add: generateContractFraudProof_def slots_def)
  have "validateLoop mem_iface H ser R client b (Transitions b ! i # ts) i v =
      (if From (v_auth v) = committer
       then validateLoop mem_iface H ser R client b ts (Suc i) (v\<lparr>v_sm := sm', v_auth := auth\<rparr>)
       else case sentProof R client auth (v_chain v) pre bad slots of
           (None, c) \<Rightarrow> None
         | (Some (Panic p), c) \<Rightarrow> Some (Panic p, v\<lparr>v_sm := sm', v_auth := auth, v_chain := c\<rparr>)
         | (Some _, c) \<Rightarrow> validateLoop mem_iface H ser R client b ts (Suc i) (v\<lparr>v_sm := sm', v_auth := auth, v_chain := c\<rparr>))"
    using assms(3,7) gen
    by (auto simp: submitContractFraudProof_def sentProof_def auth_def Let_def option.map_comp comp_def
        split: prod.splits outcome.splits option.splits)
  with P Q show ?thesis by blast
qed

text \<open>
  A block whose first transition pays into an account, with a wrong root. The block
  before it is stored, and the contract records what it is called with.
\<close>

definition sampleFraudBlock :: RollupBlock where
  "sampleFraudBlock = \<lparr>BlockNumber = 5, Transitions =
     [DepositTransition 1 (replicate 32 4) 0 0 2 [8], DepositTransition 1 (replicate 32 3) 0 0 5 [9]]\<rparr>"

definition recordingChain :: "(IncludedTransition \<times> IncludedTransition \<times> IncludedStorageSlot list) list rollupChain" where
  "recordingChain = \<lparr>CommitterAddress = \<lambda>_. Ok (sampleAddress 5), Blocks = \<lambda>_ _. Ok ([], 0),
     CommitBlock = \<lambda>c _ _ _ _. (Err ErrNotFound, c),
     ProveTransitionInvalid = \<lambda>c _ pre bad slots. (Ok \<lparr>tx_Hash = []\<rparr>, c @ [(pre, bad, slots)])\<rparr>"

definition sampleMiner :: ethclient where
  "sampleMiner = \<lparr>TransactionReceipt = \<lambda>_ _. Ok \<lparr>Status = 1, GasUsed = 0\<rparr>, HeaderByNumber = \<lambda>_. Ok 0\<rparr>"

definition tinyStart :: "memdb sm" where
  "tinyStart =
     (let leaf = Digest tinyHasher DefaultValue; top = Digest tinyHasher (leaf @ leaf)
      in \<lparr>smDb = \<lparr>db =
           [(dbKey (Some NamespaceTokenAddressToTokenIndex) sampleToken, natBytes 0),
            (dbKey (Some NamespaceTokenIndexToTokenAddress) (natBytes 0), sampleToken),
            (dbKey (Some NamespaceStateTrie) top, leaf @ leaf),
            (dbKey (Some NamespaceStateTrie) leaf, DefaultValue)]\<rparr>,
          smTree = \<lparr>dbNamespace = Some NamespaceStateTrie, root = top, height = 2, hashKey = False\<rparr>\<rparr>)"

definition tinyOpened :: "memdb sm" where
  "tinyOpened = snd (ApplyTransaction mem_iface tinyHasher sampleSerializer tinyStart sampleDeposit)"

definition sampleWatcher :: "(memdb, (IncludedTransition \<times> IncludedTransition \<times> IncludedStorageSlot list) list) validator" where
  "sampleWatcher = \<lparr>v_sm = tinyOpened\<lparr>smDb := snd (storeBlock mem_iface sampleSerializer (smDb tinyOpened) sampleBlock)\<rparr>,
     v_auth = \<lparr>From = sampleAddress 6, GasLimit = 0, GasPrice = None\<rparr>, v_chain = []\<rparr>"

lemma sampleFraudBlock_ok: "block_ok sampleSerializer tinyHasher sampleFraudBlock"
proof -
  have "blockInfoFresh tinyHasher sampleSerializer (Transitions sampleFraudBlock)" by code_simp
  then show ?thesis by (simp add: block_ok_def) (simp add: sampleFraudBlock_def uint256_def)
qed

abbreviation sampleValidation :: "LocalFraudProof option outcome \<times> memdb sm" where
  "sampleValidation \<equiv> validateTransition mem_iface tinyHasher sampleSerializer (v_sm sampleWatcher)
     \<lparr>pos_BlockNumber = BlockNumber sampleFraudBlock, pos_TransitionIndex = word_of_nat 0\<rparr> (Transitions sampleFraudBlock ! 0)"

lemma sampleFraudBlock_detected:
  "case fst sampleValidation of
     Ok (Some fp) \<Rightarrow> map (map_option (\<lambda>s. Account (snap_AccountInfo s))) (fp_Inputs fp) = [Some (sampleAddress 1)]
   | _ \<Rightarrow> False"
  by code_simp

lemma sampleFraudBlock_predecessor:
  "predecessor sampleSerializer (smDb (snd sampleValidation)) sampleFraudBlock 0 sampleBlock 1"
proof -
  have "(case SerializeRollupBlock sampleSerializer sampleBlock of
      Ok (raw, data) \<Rightarrow> db_Get mem_iface (smDb (snd sampleValidation)) (Some NamespaceRollupBlockNumber)
        (bigBytes (goInt (BlockNumber sampleFraudBlock - 1))) = Ok (Some data)
    | _ \<Rightarrow> False)" by code_simp
  then show ?thesis by (auto simp: predecessor_def sampleBlock_def split: outcome.splits)
qed

theorem detected_fraud_reaches_contract_witness:
  "\<exists>v' pre bad slots. validateLoop mem_iface tinyHasher sampleSerializer recordingChain (Some sampleMiner) sampleFraudBlock
       [Transitions sampleFraudBlock ! 0] 0 sampleWatcher = Some (Ok (), v') \<and>
     v_chain v' = [(pre, bad, slots)] \<and> map (\<lambda>s. Account (iss_Value s)) slots = [sampleAddress 1] \<and>
     SerializeTransition sampleSerializer (Transitions sampleBlock ! 1) = Ok (it_Transition pre)"
proof -
  obtain fp where V: "sampleValidation = (Ok (Some fp), snd sampleValidation)"
    "map (map_option (\<lambda>s. Account (snap_AccountInfo s))) (fp_Inputs fp) = [Some (sampleAddress 1)]"
    using sampleFraudBlock_detected by (cases sampleValidation) (auto split: outcome.splits option.splits)
  then obtain s where s: "fp_Inputs fp = [Some s]" "Account (snap_AccountInfo s) = sampleAddress 1" by auto
  have "0 < length (Transitions sampleFraudBlock)" "CommitterAddress recordingChain (v_chain sampleWatcher) = Ok (sampleAddress 5)"
    "None \<notin> set (fp_Inputs fp)"
    by (simp_all add: s sampleFraudBlock_def recordingChain_def)
  from detected_fraud_reaches_contract [OF sampleFraudBlock_ok this(1) V(1) sampleFraudBlock_predecessor sampleBlock_ok
      this(3,2), of "Some sampleMiner" "[]"]
  show ?thesis
    by (auto simp: s slotOf_def sampleFraudBlock_def sampleWatcher_def sampleAddress_def sentProof_def recordingChain_def
        minedOr_def WaitMined_def WaitMinedWithTxHash_def sampleMiner_def waitReceipt.simps)
qed

end
