(* ===== verification/Token_Pipeline.thy ===== *)
theory Token_Pipeline
  imports Aggregator
begin

text \<open>
  The goroutines between the events of the token contracts and the aggregator:
  \<^verbatim>\<open>watchToken\<close> of \<^verbatim>\<open>aggregator/transaction_generator.go\<close>, one for each token, the bounded
  channel \<^verbatim>\<open>txQueue\<close>, and \<^verbatim>\<open>processTransactions\<close> of \<^verbatim>\<open>aggregator/aggregator.go\<close>.
\<close>

section \<open>Watching a token\<close>

datatype tokenEvent =
    SidechainERC20Transfer bytes bytes bytes int int bytes
  | SidechainERC20Deposit bytes bytes int bytes
  | SidechainERC20Withdraw bytes bytes int int bytes

text \<open>The channel an event comes on, named by the kind of its transaction.\<close>

fun eventKind :: "tokenEvent \<Rightarrow> TransactionType" where
  "eventKind (SidechainERC20Transfer _ _ _ _ _ _) = TransactionTypeTransfer"
| "eventKind (SidechainERC20Deposit _ _ _ _) = TransactionTypeDeposit"
| "eventKind (SidechainERC20Withdraw _ _ _ _ _) = TransactionTypeWithdraw"

text \<open>What \<^verbatim>\<open>watchToken\<close> sends to the queue for an event.\<close>

fun tokenTransaction :: "tokenEvent \<Rightarrow> Transaction" where
  "tokenTransaction (SidechainERC20Transfer sndr rcpt token amount nonce signature) =
     TransferTransaction sndr rcpt token amount nonce signature"
| "tokenTransaction (SidechainERC20Deposit account token amount signature) =
     DepositTransaction account token amount signature"
| "tokenTransaction (SidechainERC20Withdraw account token amount nonce signature) =
     WithdrawTransaction account token amount nonce signature"

text \<open>
  A watcher that runs: the events the subscription holds for each of its three unbuffered
  channels, and the transaction it is sending to the queue, if it has received an event.
  \<open>emitted\<close> is not in the code; it records all events the subscriptions have produced.
\<close>

record watcher =
  emitted :: "TransactionType \<Rightarrow> tokenEvent list"
  incoming :: "TransactionType \<Rightarrow> tokenEvent list"
  outgoing :: "Transaction option"

record tokenContract =
  WatchTransfer :: "unit outcome"
  WatchDeposit :: "unit outcome"
  WatchWithdraw :: "unit outcome"

text \<open>\<^verbatim>\<open>watchToken\<close> up to its loop; the loop is in the steps below.\<close>

definition watchToken :: "tokenContract \<Rightarrow> watcher outcome" where
  "watchToken contract =
     bindO (WatchTransfer contract) (\<lambda>_.
     bindO (WatchDeposit contract) (\<lambda>_.
     bindO (WatchWithdraw contract) (\<lambda>_.
     Ok \<lparr>emitted = \<lambda>_. [], incoming = \<lambda>_. [], outgoing = None\<rparr>)))"

section \<open>The steps\<close>

text \<open>
  The processor waits for a transaction, or it is in a call of \<^verbatim>\<open>applyTransaction\<close>, or that
  call has panicked, which ends the whole process.
\<close>

datatype activity = Idle | Applying nat Transaction | Crashed panic

text \<open>
  A transaction in the queue carries the number of its watcher, which is not in the code, and
  \<open>applied\<close> records the transactions whose call has ended. \<open>processor\<close> is the aggregator, with the
  token tables as they are: the goroutine that registers tokens is not among the steps.
\<close>

record ('d, 'c, 's) pipeline =
  watchers :: "watcher list"
  txQueue :: "(nat \<times> Transaction) list"
  activity :: activity
  applied :: "(nat \<times> Transaction) list"
  processor :: "('d, 'c, 's) aggregator"

text \<open>
  What the goroutines do by themselves. A watcher takes an event of any of its channels and
  then sends its transaction, for which it waits while the queue is full; meanwhile it takes
  nothing else. The processor receives the oldest transaction and calls \<^verbatim>\<open>applyTransaction\<close>;
  an error is ignored and a panic is the end. There is no step out of a call that does not
  return.
\<close>

inductive deliveryStep ::
  "('d, 't, 'b) DB \<Rightarrow> hasher \<Rightarrow> serializer \<Rightarrow> ('c, 's, 'pk, 'sk) chainEnv \<Rightarrow> int \<Rightarrow> bool \<Rightarrow>
     ('d, 'c, 's) pipeline \<Rightarrow> ('d, 'c, 's) pipeline \<Rightarrow> bool"
  for I H ser E num fraud where
  take_event: "(\<forall>e. activity p \<noteq> Crashed e) \<Longrightarrow> i < length (watchers p) \<Longrightarrow> w = watchers p ! i \<Longrightarrow>
    outgoing w = None \<Longrightarrow> incoming w kind = e # es \<Longrightarrow>
    deliveryStep I H ser E num fraud p (p\<lparr>watchers := (watchers p)[i :=
      w\<lparr>incoming := (incoming w)(kind := es), outgoing := Some (tokenTransaction e)\<rparr>]\<rparr>)"
| send: "(\<forall>e. activity p \<noteq> Crashed e) \<Longrightarrow> i < length (watchers p) \<Longrightarrow> w = watchers p ! i \<Longrightarrow>
    outgoing w = Some tx \<Longrightarrow> length (txQueue p) < txQueueSize \<Longrightarrow>
    deliveryStep I H ser E num fraud p
      (p\<lparr>watchers := (watchers p)[i := w\<lparr>outgoing := None\<rparr>], txQueue := txQueue p @ [(i, tx)]\<rparr>)"
| receive: "activity p = Idle \<Longrightarrow> txQueue p = (i, tx) # txs \<Longrightarrow>
    deliveryStep I H ser E num fraud p (p\<lparr>txQueue := txs, activity := Applying i tx\<rparr>)"
| finish: "activity p = Applying i tx \<Longrightarrow> applyTransaction I H ser E num fraud (processor p) tx = Some (r, a) \<Longrightarrow>
    (\<forall>e. r \<noteq> Panic e) \<Longrightarrow>
    deliveryStep I H ser E num fraud p (p\<lparr>activity := Idle, applied := applied p @ [(i, tx)], processor := a\<rparr>)"
| crash: "activity p = Applying i tx \<Longrightarrow> applyTransaction I H ser E num fraud (processor p) tx = Some (Panic e, a) \<Longrightarrow>
    deliveryStep I H ser E num fraud p (p\<lparr>activity := Crashed e, applied := applied p @ [(i, tx)], processor := a\<rparr>)"

text \<open>
  What happens to them. A mapped token gets a watcher, if it can subscribe; a subscription produces an
  event, which it holds for the channel of its kind; and a subscription that has
  failed or ended wakes its watcher, which goes on without doing anything: the error channel of
  an ended subscription is closed and so always ready, and the watcher may spin on it.
\<close>

inductive worldStep :: "('d, 'c, 's) pipeline \<Rightarrow> ('d, 'c, 's) pipeline \<Rightarrow> bool" where
  watch: "(\<forall>e. activity p \<noteq> Crashed e) \<Longrightarrow> watchToken contract = Ok w \<Longrightarrow>
    worldStep p (p\<lparr>watchers := watchers p @ [w]\<rparr>)"
| emit: "(\<forall>e. activity p \<noteq> Crashed e) \<Longrightarrow> i < length (watchers p) \<Longrightarrow> w = watchers p ! i \<Longrightarrow>
    worldStep p (p\<lparr>watchers := (watchers p)[i :=
      w\<lparr>emitted := (emitted w)(eventKind e := emitted w (eventKind e) @ [e]),
        incoming := (incoming w)(eventKind e := incoming w (eventKind e) @ [e])\<rparr>]\<rparr>)"
| spin: "(\<forall>e. activity p \<noteq> Crashed e) \<Longrightarrow> i < length (watchers p) \<Longrightarrow> outgoing (watchers p ! i) = None \<Longrightarrow>
    worldStep p p"

definition pipelineStep ::
  "('d, 't, 'b) DB \<Rightarrow> hasher \<Rightarrow> serializer \<Rightarrow> ('c, 's, 'pk, 'sk) chainEnv \<Rightarrow> int \<Rightarrow> bool \<Rightarrow>
     ('d, 'c, 's) pipeline \<Rightarrow> ('d, 'c, 's) pipeline \<Rightarrow> bool" where
  "pipelineStep I H ser E num fraud p q \<longleftrightarrow> deliveryStep I H ser E num fraud p q \<or> worldStep p q"

definition pipelineStart :: "('d, 'c, 's) aggregator \<Rightarrow> ('d, 'c, 's) pipeline" where
  "pipelineStart a = \<lparr>watchers = [], txQueue = [], activity = Idle, applied = [], processor = a\<rparr>"

inductive_cases deliveryStepE: "deliveryStep I H ser E num fraud p q"
inductive_cases worldStepE: "worldStep p q"

end
