(* ===== verification/Queue_Properties.thy ===== *)
theory Queue_Properties
  imports Token_Pipeline Chain_Properties
begin

text \<open>
  What the goroutines between token events and aggregator guarantee: nothing is lost, invented
  or reordered on the way, and what stops them.
\<close>

section \<open>What a transaction owes to its event\<close>

text \<open>The transaction of an event, field by field.\<close>

fun carries :: "tokenEvent \<Rightarrow> Transaction \<Rightarrow> bool" where
  "carries (SidechainERC20Transfer sndr rcpt token amount nonce signature) tx \<longleftrightarrow>
     GetTransactionType tx = TransactionTypeTransfer \<and> tx_Sender tx = sndr \<and> tx_Recipient tx = rcpt \<and>
     tx_Token tx = token \<and> tx_Amount tx = amount \<and> tx_Nonce tx = nonce \<and> tx_Signature tx = signature"
| "carries (SidechainERC20Deposit account token amount signature) tx \<longleftrightarrow>
     GetTransactionType tx = TransactionTypeDeposit \<and> tx_Account tx = account \<and>
     tx_Token tx = token \<and> tx_Amount tx = amount \<and> tx_Signature tx = signature"
| "carries (SidechainERC20Withdraw account token amount nonce signature) tx \<longleftrightarrow>
     GetTransactionType tx = TransactionTypeWithdraw \<and> tx_Account tx = account \<and>
     tx_Token tx = token \<and> tx_Amount tx = amount \<and> tx_Nonce tx = nonce \<and> tx_Signature tx = signature"

lemma carries_tokenTransaction: "carries e (tokenTransaction e)"
  by (cases e) simp_all

lemma tokenTransaction_kind: "GetTransactionType (tokenTransaction e) = eventKind e"
  by (cases e) simp_all

text \<open>The transactions a watcher has sent, of one kind: in order of arrival at the aggregator.\<close>

definition inFlight :: "('d, 'c, 's) pipeline \<Rightarrow> (nat \<times> Transaction) list" where
  "inFlight p = applied p @ (case activity p of Applying i tx \<Rightarrow> [(i, tx)] | _ \<Rightarrow> []) @ txQueue p"

definition ofKind :: "nat \<Rightarrow> TransactionType \<Rightarrow> (nat \<times> Transaction) list \<Rightarrow> Transaction list" where
  "ofKind i kind hist = filter (\<lambda>tx. GetTransactionType tx = kind) (map snd (filter (\<lambda>x. fst x = i) hist))"

definition pendingSend :: "TransactionType \<Rightarrow> watcher \<Rightarrow> Transaction list" where
  "pendingSend kind w = (case outgoing w of None \<Rightarrow> [] | Some tx \<Rightarrow> if GetTransactionType tx = kind then [tx] else [])"

lemma ofKind_append [simp]: "ofKind i kind (xs @ ys) = ofKind i kind xs @ ofKind i kind ys"
  by (simp add: ofKind_def)

lemma ofKind_simps [simp]:
  "ofKind i kind [] = []"
  "ofKind i kind ((j, tx) # xs) = (if j = i \<and> GetTransactionType tx = kind then tx # ofKind i kind xs else ofKind i kind xs)"
  by (simp_all add: ofKind_def)

section \<open>The invariant\<close>

text \<open>A watcher's events of one kind: first those whose transactions are under way, then the others.\<close>

definition kind_inv :: "(nat \<times> Transaction) list \<Rightarrow> nat \<Rightarrow> watcher \<Rightarrow> TransactionType \<Rightarrow> bool" where
  "kind_inv hist i w kind \<longleftrightarrow> list_all (\<lambda>e. eventKind e = kind) (emitted w kind) \<and>
     (\<exists>received. emitted w kind = received @ incoming w kind \<and>
       list_all2 carries received (ofKind i kind hist @ pendingSend kind w))"

definition outcomeOf :: "activity \<Rightarrow> unit outcome" where
  "outcomeOf act = (case act of Crashed e \<Rightarrow> Panic e | _ \<Rightarrow> Ok ())"

definition pipeline_inv ::
  "('d, 't, 'b) DB \<Rightarrow> hasher \<Rightarrow> serializer \<Rightarrow> ('c, 's, 'pk, 'sk) chainEnv \<Rightarrow> int \<Rightarrow> bool \<Rightarrow>
     ('d, 'c, 's) aggregator \<Rightarrow> ('d, 'c, 's) pipeline \<Rightarrow> bool" where
  "pipeline_inv I H ser E num fraud a p \<longleftrightarrow>
     length (txQueue p) \<le> txQueueSize \<and> list_all (\<lambda>x. fst x < length (watchers p)) (inFlight p) \<and>
     (\<forall>i<length (watchers p). \<forall>kind. kind_inv (inFlight p) i (watchers p ! i) kind) \<and>
     processTransactions I H ser E num fraud a (map snd (applied p)) = Some (outcomeOf (activity p), processor p)"

lemma kind_inv_take:
  assumes "kind_inv hist i w kind" and "kind_inv hist i w k" and "outgoing w = None" and "incoming w kind = e # es"
  shows "kind_inv hist i (w\<lparr>incoming := (incoming w)(kind := es), outgoing := Some (tokenTransaction e)\<rparr>) k"
proof -
  obtain received where R: "emitted w kind = received @ e # es" "list_all2 carries received (ofKind i kind hist)"
    using assms(1,3,4) by (auto simp: kind_inv_def pendingSend_def)
  have e: "eventKind e = kind" using assms(1) R(1) by (simp add: kind_inv_def)
  show ?thesis
  proof (cases "k = kind")
    case True
    have "list_all2 carries (received @ [e]) (ofKind i kind hist @ [tokenTransaction e])"
      using R(2) by (simp add: carries_tokenTransaction list_all2_appendI)
    then show ?thesis
      using True R(1) e assms(1) by (auto simp: kind_inv_def pendingSend_def tokenTransaction_kind intro!: exI [of _ "received @ [e]"])
  next
    case False
    then show ?thesis using assms(2,3) e by (simp add: kind_inv_def pendingSend_def tokenTransaction_kind)
  qed
qed

lemma kind_inv_send:
  "kind_inv hist i w kind \<Longrightarrow> outgoing w = Some tx \<Longrightarrow> kind_inv (hist @ [(i, tx)]) i (w\<lparr>outgoing := None\<rparr>) kind"
  by (simp add: kind_inv_def pendingSend_def split: if_splits)

lemma kind_inv_other: "kind_inv hist i w kind \<Longrightarrow> j \<noteq> i \<Longrightarrow> kind_inv (hist @ [(j, tx)]) i w kind"
  by (simp add: kind_inv_def)

lemma kind_inv_emit:
  assumes "kind_inv hist i w kind"
  shows "kind_inv hist i (w\<lparr>emitted := (emitted w)(eventKind e := emitted w (eventKind e) @ [e]),
    incoming := (incoming w)(eventKind e := incoming w (eventKind e) @ [e])\<rparr>) kind"
  using assms by (auto simp: kind_inv_def pendingSend_def)

lemma kind_inv_new:
  assumes "watchToken contract = Ok w" and "list_all (\<lambda>x. fst x < i) hist"
  shows "kind_inv hist i w kind"
proof -
  have "ofKind i kind hist = []" using assms(2) by (auto simp: ofKind_def list_all_iff filter_empty_conv)
  then show ?thesis using assms(1) by (auto simp: kind_inv_def watchToken_def pendingSend_def bindO_eq_Ok)
qed

text \<open>A step that changes one watcher.\<close>

lemma kind_inv_update:
  assumes "\<forall>i<length ws. \<forall>kind. kind_inv hist i (ws ! i) kind" and "i < length ws"
    and "\<And>kind. kind_inv hist' i w kind"
    and "\<And>j kind. j \<noteq> i \<Longrightarrow> kind_inv hist j (ws ! j) kind \<Longrightarrow> kind_inv hist' j (ws ! j) kind"
  shows "\<forall>j<length (ws[i := w]). \<forall>kind. kind_inv hist' j (ws[i := w] ! j) kind"
  using assms by (auto simp: nth_list_update)

lemma pipeline_inv_delivery:
  assumes inv: "pipeline_inv I H ser E num fraud a p" and step: "deliveryStep I H ser E num fraud p q"
  shows "pipeline_inv I H ser E num fraud a q"
  using step
proof (rule deliveryStepE)
  fix i kind e es
  assume S: "\<forall>e. activity p \<noteq> Crashed e" "i < length (watchers p)" "outgoing (watchers p ! i) = None"
    "incoming (watchers p ! i) kind = e # es"
    "q = p\<lparr>watchers := (watchers p)[i := (watchers p ! i)\<lparr>incoming := (incoming (watchers p ! i))(kind := es), outgoing := Some (tokenTransaction e)\<rparr>]\<rparr>"
  have fl: "inFlight q = inFlight p" by (simp add: inFlight_def S(5))
  have ws: "\<forall>i<length (watchers p). \<forall>kind. kind_inv (inFlight p) i (watchers p ! i) kind"
    using inv by (simp add: pipeline_inv_def)
  with S(2) have "\<And>k. kind_inv (inFlight p) i (watchers p ! i) k" by simp
  from kind_inv_update [OF ws S(2) kind_inv_take [OF this this S(3,4)]] inv show ?thesis
    unfolding pipeline_inv_def fl by (simp add: S(5))
next
  fix i tx
  assume S: "\<forall>e. activity p \<noteq> Crashed e" "i < length (watchers p)" "outgoing (watchers p ! i) = Some tx"
    "length (txQueue p) < txQueueSize"
    "q = p\<lparr>watchers := (watchers p)[i := (watchers p ! i)\<lparr>outgoing := None\<rparr>], txQueue := txQueue p @ [(i, tx)]\<rparr>"
  have fl: "inFlight q = inFlight p @ [(i, tx)]" by (simp add: inFlight_def S(5))
  have ws: "\<forall>i<length (watchers p). \<forall>kind. kind_inv (inFlight p) i (watchers p ! i) kind"
    using inv by (simp add: pipeline_inv_def)
  with S(2) have "\<And>k. kind_inv (inFlight p) i (watchers p ! i) k" by simp
  from kind_inv_update [OF ws S(2) kind_inv_send [OF this S(3)] kind_inv_other] inv S(2,4) show ?thesis
    unfolding pipeline_inv_def fl by (simp add: S(5))
next
  fix i tx txs
  assume S: "activity p = Idle" "txQueue p = (i, tx) # txs" "q = p\<lparr>txQueue := txs, activity := Applying i tx\<rparr>"
  then have "inFlight q = inFlight p" by (simp add: inFlight_def)
  then show ?thesis using inv by (simp add: pipeline_inv_def S outcomeOf_def)
next
  fix i tx r a'
  assume S: "activity p = Applying i tx" "applyTransaction I H ser E num fraud (processor p) tx = Some (r, a')" "\<forall>e. r \<noteq> Panic e"
    "q = p\<lparr>activity := Idle, applied := applied p @ [(i, tx)], processor := a'\<rparr>"
  then have "inFlight q = inFlight p" by (simp add: inFlight_def)
  then show ?thesis
    using inv S processTransactions_append [of I H ser E num fraud a "map snd (applied p)" "processor p" "[tx]"]
    by (auto simp: pipeline_inv_def outcomeOf_def split: outcome.splits)
next
  fix i tx e a'
  assume S: "activity p = Applying i tx" "applyTransaction I H ser E num fraud (processor p) tx = Some (Panic e, a')"
    "q = p\<lparr>activity := Crashed e, applied := applied p @ [(i, tx)], processor := a'\<rparr>"
  then have "inFlight q = inFlight p" by (simp add: inFlight_def)
  then show ?thesis
    using inv S processTransactions_append [of I H ser E num fraud a "map snd (applied p)" "processor p" "[tx]"]
    by (auto simp: pipeline_inv_def outcomeOf_def)
qed

lemma pipeline_inv_world:
  assumes inv: "pipeline_inv I H ser E num fraud a p" and step: "worldStep p q"
  shows "pipeline_inv I H ser E num fraud a q"
  using step
proof (rule worldStepE)
  fix contract w
  assume S: "watchToken contract = Ok w" "q = p\<lparr>watchers := watchers p @ [w]\<rparr>"
  have fl: "inFlight q = inFlight p" by (simp add: inFlight_def S(2))
  have bound: "list_all (\<lambda>x. fst x < length (watchers p)) (inFlight p)" using inv by (simp add: pipeline_inv_def)
  then have "list_all (\<lambda>x. fst x < Suc (length (watchers p))) (inFlight p)" by (auto simp: list_all_iff)
  then show ?thesis
    using inv kind_inv_new [OF S(1) bound] unfolding pipeline_inv_def fl by (auto simp: S(2) nth_append less_Suc_eq)
next
  fix i e
  assume S: "i < length (watchers p)" 
    "q = p\<lparr>watchers := (watchers p)[i :=
      (watchers p ! i)\<lparr>emitted := (emitted (watchers p ! i))(eventKind e := emitted (watchers p ! i) (eventKind e) @ [e]),
        incoming := (incoming (watchers p ! i))(eventKind e := incoming (watchers p ! i) (eventKind e) @ [e])\<rparr>]\<rparr>"
  have fl: "inFlight q = inFlight p" by (simp add: inFlight_def S(2))
  have ws: "\<forall>i<length (watchers p). \<forall>kind. kind_inv (inFlight p) i (watchers p ! i) kind"
    using inv by (simp add: pipeline_inv_def)
  with S(1) have "\<And>k. kind_inv (inFlight p) i (watchers p ! i) k" by simp
  from kind_inv_update [OF ws S(1) kind_inv_emit [OF this]] inv show ?thesis
    unfolding pipeline_inv_def fl by (simp add: S(2))
next
  assume "q = p"
  with inv show ?thesis by simp
qed

lemma pipeline_inv_reachable:
  assumes "(pipelineStep I H ser E num fraud)\<^sup>*\<^sup>* (pipelineStart a) p"
  shows "pipeline_inv I H ser E num fraud a p"
  using assms
proof (induction rule: rtranclp_induct)
  case base
  show ?case by (simp add: pipeline_inv_def pipelineStart_def inFlight_def outcomeOf_def)
next
  case (step p q)
  then show ?case using pipeline_inv_delivery pipeline_inv_world by (auto simp: pipelineStep_def)
qed

text \<open>
  C35: nothing is lost, invented or reordered between a token contract and the aggregator.
  However the goroutines interleave, the events of one kind of one token are first those
  received, one transaction for each, with the fields of the event and in the same order, among
  those applied, being applied, queued or just being sent, and then those that still wait for
  their watcher. Every transaction comes from a watcher, at most ten are queued, and the
  aggregator is in the state in which \<^verbatim>\<open>processTransactions\<close> leaves it after the applied ones.
\<close>

theorem queue_keeps_order:
  assumes "(pipelineStep I H ser E num fraud)\<^sup>*\<^sup>* (pipelineStart a) p"
  shows "length (txQueue p) \<le> txQueueSize \<and> (\<forall>x\<in>set (inFlight p). fst x < length (watchers p)) \<and>
    (\<forall>i<length (watchers p). \<forall>kind. \<exists>received.
      emitted (watchers p ! i) kind = received @ incoming (watchers p ! i) kind \<and>
      list_all2 carries received (ofKind i kind (inFlight p) @ pendingSend kind (watchers p ! i))) \<and>
    processTransactions I H ser E num fraud a (map snd (applied p)) = Some (outcomeOf (activity p), processor p)"
  using pipeline_inv_reachable [OF assms] by (auto simp: pipeline_inv_def kind_inv_def list_all_iff)

text \<open>One token; a withdrawal of more than there is comes, is sent, and is refused by the aggregator.\<close>

definition sampleEvent :: tokenEvent where
  "sampleEvent = SidechainERC20Withdraw (sampleAddress 1) sampleToken 9 0 []"

definition sampleEmitted :: "(memdb, unit, (int \<times> bytes list) list) pipeline" where
  "sampleEmitted = (pipelineStart sampleProducer)\<lparr>watchers :=
     [\<lparr>emitted = (\<lambda>_. [])(TransactionTypeWithdraw := [sampleEvent]),
       incoming = (\<lambda>_. [])(TransactionTypeWithdraw := [sampleEvent]), outgoing = None\<rparr>]\<rparr>"

definition sampleHandled :: "(memdb, unit, (int \<times> bytes list) list) pipeline" where
  "sampleHandled = (pipelineStart sampleProducer)\<lparr>watchers :=
     [\<lparr>emitted = (\<lambda>_. [])(TransactionTypeWithdraw := [sampleEvent]), incoming = \<lambda>_. [], outgoing = None\<rparr>],
     applied := [(0, sampleRefused)],
     processor := sampleProducer\<lparr>stateMachine := snd (ApplyTransaction mem_iface sampleHasher sampleSerializer sampleStart sampleRefused)\<rparr>\<rparr>"

abbreviation sampleStep ::
  "(memdb, unit, (int \<times> bytes list) list) pipeline \<Rightarrow> (memdb, unit, (int \<times> bytes list) list) pipeline \<Rightarrow> bool" where
  "sampleStep \<equiv> pipelineStep mem_iface sampleHasher sampleSerializer recordingEnv 1 False"

lemma sampleEmitted_reachable: "sampleStep\<^sup>*\<^sup>* (pipelineStart sampleProducer) sampleEmitted"
proof -
  let ?w = "\<lparr>emitted = \<lambda>_. [], incoming = \<lambda>_. [], outgoing = None\<rparr>"
  let ?p = "(pipelineStart sampleProducer)\<lparr>watchers := [?w]\<rparr> :: (memdb, unit, (int \<times> bytes list) list) pipeline"
  have "worldStep (pipelineStart sampleProducer) ?p"
    using worldStep.watch [of "pipelineStart sampleProducer" "\<lparr>WatchTransfer = Ok (), WatchDeposit = Ok (), WatchWithdraw = Ok ()\<rparr>" ?w]
    by (simp add: pipelineStart_def watchToken_def)
  moreover have "worldStep ?p sampleEmitted"
    using worldStep.emit [of ?p 0 ?w sampleEvent] by (simp add: pipelineStart_def sampleEmitted_def sampleEvent_def)
  ultimately show ?thesis
    by (intro converse_rtranclp_into_rtranclp [OF _ r_into_rtranclp]) (auto simp: pipelineStep_def)
qed

lemma sampleRefused_error:
  "case fst (ApplyTransaction mem_iface sampleHasher sampleSerializer sampleStart sampleRefused) of Err _ \<Rightarrow> True | _ \<Rightarrow> False"
  by code_simp

lemma sampleHandled_reachable: "sampleStep\<^sup>*\<^sup>* (pipelineStart sampleProducer) sampleHandled"
proof -
  let ?step = "deliveryStep mem_iface sampleHasher sampleSerializer recordingEnv 1 False"
  let ?w = "\<lparr>emitted = (\<lambda>_. [])(TransactionTypeWithdraw := [sampleEvent]), incoming = \<lambda>_. [], outgoing = Some sampleRefused\<rparr>"
  let ?p1 = "(pipelineStart sampleProducer)\<lparr>watchers := [?w]\<rparr> :: (memdb, unit, (int \<times> bytes list) list) pipeline"
  let ?p2 = "?p1\<lparr>watchers := [?w\<lparr>outgoing := None\<rparr>], txQueue := [(0, sampleRefused)]\<rparr>"
  let ?p3 = "?p2\<lparr>txQueue := [], activity := Applying 0 sampleRefused\<rparr>"
  have "?step sampleEmitted ?p1"
    using deliveryStep.take_event [of sampleEmitted 0 "watchers sampleEmitted ! 0" TransactionTypeWithdraw sampleEvent "[]"]
    by (simp add: sampleEmitted_def pipelineStart_def sampleEvent_def sampleRefused_def fun_upd_idem)
  moreover have "?step ?p1 ?p2"
    using deliveryStep.send [of ?p1 0 ?w sampleRefused] by (simp add: pipelineStart_def txQueueSize_def)
  moreover have "?step ?p2 ?p3"
    using deliveryStep.receive [of ?p2 0 sampleRefused "[]"] by (simp add: pipelineStart_def)
  moreover have "?step ?p3 sampleHandled"
  proof -
    have "\<exists>e. applyTransaction mem_iface sampleHasher sampleSerializer recordingEnv 1 False (processor ?p3) sampleRefused =
        Some (Err e, processor sampleHandled)"
      using sampleRefused_error
      by (auto simp: applyTransaction_def pipelineStart_def sampleHandled_def sampleProducer_def split: outcome.splits prod.splits)
    then obtain e where "applyTransaction mem_iface sampleHasher sampleSerializer recordingEnv 1 False (processor ?p3) sampleRefused =
        Some (Err e, processor sampleHandled)" by blast
    from deliveryStep.finish [of ?p3 0 sampleRefused, OF _ this] show ?thesis
      by (simp add: sampleHandled_def pipelineStart_def)
  qed
  ultimately have "?step\<^sup>*\<^sup>* sampleEmitted sampleHandled"
    by (meson converse_rtranclp_into_rtranclp rtranclp.rtrancl_refl)
  then have "sampleStep\<^sup>*\<^sup>* sampleEmitted sampleHandled"
    by (rule rtranclp_mono [THEN predicate2D, rotated]) (auto simp: pipelineStep_def)
  with sampleEmitted_reachable show ?thesis by simp
qed

theorem queue_keeps_order_witness:
  "list_all2 carries [sampleEvent] (ofKind 0 TransactionTypeWithdraw (inFlight sampleHandled)) \<and>
   processTransactions mem_iface sampleHasher sampleSerializer recordingEnv 1 False sampleProducer [sampleRefused] =
     Some (Ok (), processor sampleHandled)"
  using queue_keeps_order [OF sampleHandled_reachable]
  by (auto simp: sampleHandled_def pipelineStart_def inFlight_def pendingSend_def outcomeOf_def sampleRefused_def
      simp del: processTransactions.simps split: if_splits)

text \<open>
  The three channels of a token are not ordered among each other: a watcher with events on
  several takes any of them, so a transfer can be sent before the deposit that funds it.
\<close>

lemma any_channel_first:
  assumes "\<forall>e. activity p \<noteq> Crashed e" and "i < length (watchers p)" and "outgoing (watchers p ! i) = None"
    and "incoming (watchers p ! i) TransactionTypeDeposit = d # ds"
    and "incoming (watchers p ! i) TransactionTypeTransfer = t # ts"
  shows "\<exists>q r. deliveryStep I H ser E num fraud p q \<and> outgoing (watchers q ! i) = Some (tokenTransaction d) \<and>
    deliveryStep I H ser E num fraud p r \<and> outgoing (watchers r ! i) = Some (tokenTransaction t)"
  using deliveryStep.take_event [OF assms(1,2) refl assms(3,4), of I H ser E num fraud]
    deliveryStep.take_event [OF assms(1,2) refl assms(3,5), of I H ser E num fraud] assms(2)
  by (intro exI conjI) (assumption | simp)+

section \<open>Progress\<close>

text \<open>Work left: an event is to be taken, sent, received and applied.\<close>

definition watcherWork :: "watcher \<Rightarrow> nat" where
  "watcherWork w = 4 * (length (incoming w TransactionTypeTransfer) + length (incoming w TransactionTypeDeposit) +
     length (incoming w TransactionTypeWithdraw)) + (case outgoing w of None \<Rightarrow> 0 | Some _ \<Rightarrow> 3)"

definition pipelineWork :: "('d, 'c, 's) pipeline \<Rightarrow> nat" where
  "pipelineWork p = sum_list (map watcherWork (watchers p)) + 2 * length (txQueue p) +
     (case activity p of Applying _ _ \<Rightarrow> 1 | _ \<Rightarrow> 0)"

lemma sum_watcherWork:
  assumes "i < length ws"
  shows "sum_list (map watcherWork (ws[i := w])) + watcherWork (ws ! i) = sum_list (map watcherWork ws) + watcherWork w"
  using assms by (induction ws arbitrary: i) (auto simp: nth_Cons split: nat.splits)

lemma watcherWork_take:
  assumes "outgoing w = None" and "incoming w kind = e # es"
  shows "watcherWork (w\<lparr>incoming := (incoming w)(kind := es), outgoing := Some tx\<rparr>) < watcherWork w"
  using assms by (cases kind) (simp_all add: watcherWork_def)

lemma pipelineWork_decreases:
  assumes "deliveryStep I H ser E num fraud p q"
  shows "pipelineWork q < pipelineWork p"
  using assms
proof (rule deliveryStepE)
  fix i kind e es
  assume "i < length (watchers p)" "outgoing (watchers p ! i) = None" "incoming (watchers p ! i) kind = e # es"
    "q = p\<lparr>watchers := (watchers p)[i := (watchers p ! i)\<lparr>incoming := (incoming (watchers p ! i))(kind := es), outgoing := Some (tokenTransaction e)\<rparr>]\<rparr>"
  then show ?thesis
    using watcherWork_take [of "watchers p ! i" kind e es "tokenTransaction e"] sum_watcherWork [of i "watchers p"]
    by (simp add: pipelineWork_def) (metis add_less_cancel_right add_less_mono1 nat_add_left_cancel_less)
next
  fix i tx
  assume S: "i < length (watchers p)" "outgoing (watchers p ! i) = Some tx"
    "q = p\<lparr>watchers := (watchers p)[i := (watchers p ! i)\<lparr>outgoing := None\<rparr>], txQueue := txQueue p @ [(i, tx)]\<rparr>"
  have "watcherWork (watchers p ! i) = watcherWork ((watchers p ! i)\<lparr>outgoing := None\<rparr>) + 3"
    using S(2) by (simp add: watcherWork_def)
  then show ?thesis
    using S(3) sum_watcherWork [OF S(1), of "(watchers p ! i)\<lparr>outgoing := None\<rparr>"] by (simp add: pipelineWork_def)
qed (simp_all add: pipelineWork_def)

lemma delivery_terminates: "wfP (\<lambda>q p. deliveryStep I H ser E num fraud p q)"
  by (rule wfp_subset [OF wfp_if_convertible_to_nat [of "\<lambda>q p. pipelineWork q < pipelineWork p" pipelineWork]])
    (auto intro: pipelineWork_decreases)

text \<open>A watcher with nothing to do, and one that waits for room in the queue.\<close>

definition idleWatcher :: "watcher \<Rightarrow> bool" where
  "idleWatcher w \<longleftrightarrow> outgoing w = None \<and> (\<forall>kind. incoming w kind = [])"

text \<open>
  The ends: all events applied, each kind of each token in its order; or the processor is in a
  call that never returns, and a watcher with work left waits at the full queue; or a
  call has panicked.
\<close>

definition allApplied :: "('d, 'c, 's) pipeline \<Rightarrow> bool" where
  "allApplied p \<longleftrightarrow> activity p = Idle \<and> txQueue p = [] \<and> list_all idleWatcher (watchers p) \<and>
     (\<forall>i<length (watchers p). \<forall>kind. list_all2 carries (emitted (watchers p ! i) kind) (ofKind i kind (applied p)))"

definition hanging ::
  "('d, 't, 'b) DB \<Rightarrow> hasher \<Rightarrow> serializer \<Rightarrow> ('c, 's, 'pk, 'sk) chainEnv \<Rightarrow> int \<Rightarrow> bool \<Rightarrow> ('d, 'c, 's) pipeline \<Rightarrow> bool" where
  "hanging I H ser E num fraud p \<longleftrightarrow>
     (\<exists>i tx. activity p = Applying i tx \<and> applyTransaction I H ser E num fraud (processor p) tx = None) \<and>
     (\<forall>w\<in>set (watchers p). idleWatcher w \<or> outgoing w \<noteq> None \<and> length (txQueue p) = txQueueSize)"

definition settled ::
  "('d, 't, 'b) DB \<Rightarrow> hasher \<Rightarrow> serializer \<Rightarrow> ('c, 's, 'pk, 'sk) chainEnv \<Rightarrow> int \<Rightarrow> bool \<Rightarrow> ('d, 'c, 's) pipeline \<Rightarrow> bool" where
  "settled I H ser E num fraud p \<longleftrightarrow> allApplied p \<or> hanging I H ser E num fraud p \<or> (\<exists>e. activity p = Crashed e)"

lemma stuck_watcher:
  assumes "\<nexists>q. deliveryStep I H ser E num fraud p q" and "\<forall>e. activity p \<noteq> Crashed e"
    and "i < length (watchers p)" and "length (txQueue p) \<le> txQueueSize"
  shows "idleWatcher (watchers p ! i) \<or> outgoing (watchers p ! i) \<noteq> None \<and> length (txQueue p) = txQueueSize"
proof (cases "outgoing (watchers p ! i)")
  case None
  have "incoming (watchers p ! i) kind = []" for kind
    using deliveryStep.take_event [OF assms(2,3) refl None, of kind] assms(1) by (metis neq_Nil_conv)
  then show ?thesis using None by (simp add: idleWatcher_def)
next
  case (Some tx)
  then show ?thesis using deliveryStep.send [OF assms(2,3) refl Some] assms(1,4) by force
qed

lemma stuck_activity:
  assumes "\<nexists>q. deliveryStep I H ser E num fraud p q"
  shows "activity p = Idle \<and> txQueue p = [] \<or>
    (\<exists>i tx. activity p = Applying i tx \<and> applyTransaction I H ser E num fraud (processor p) tx = None) \<or> (\<exists>e. activity p = Crashed e)"
proof (cases "activity p")
  case Idle
  then show ?thesis using deliveryStep.receive [OF Idle] assms by (cases "txQueue p") (auto, blast)
next
  case (Applying i tx)
  have "applyTransaction I H ser E num fraud (processor p) tx = None"
  proof (rule ccontr)
    assume "applyTransaction I H ser E num fraud (processor p) tx \<noteq> None"
    then obtain r a where R: "applyTransaction I H ser E num fraud (processor p) tx = Some (r, a)" by auto
    show False
    proof (cases r)
      case (Panic e)
      then show ?thesis using deliveryStep.crash [OF Applying, of I H ser E num fraud e a] R assms by blast
    qed (use deliveryStep.finish [OF Applying R] assms in auto)
  qed
  with Applying show ?thesis by blast
qed auto

lemma stuck_settled:
  assumes "pipeline_inv I H ser E num fraud a p" and "\<nexists>q. deliveryStep I H ser E num fraud p q"
  shows "settled I H ser E num fraud p"
proof (cases "\<exists>e. activity p = Crashed e")
  case False
  have bound: "length (txQueue p) \<le> txQueueSize" using assms(1) by (simp add: pipeline_inv_def)
  have ws: "\<forall>w\<in>set (watchers p). idleWatcher w \<or> outgoing w \<noteq> None \<and> length (txQueue p) = txQueueSize"
    using stuck_watcher [OF assms(2) _ _ bound] False by (metis in_set_conv_nth)
  from stuck_activity [OF assms(2)] False consider "activity p = Idle" "txQueue p = []"
    | "\<exists>i tx. activity p = Applying i tx \<and> applyTransaction I H ser E num fraud (processor p) tx = None" by blast
  then show ?thesis
  proof cases
    case 1
    with ws have idle: "\<forall>w\<in>set (watchers p). idleWatcher w" by (simp add: txQueueSize_def)
    then have "list_all2 carries (emitted (watchers p ! i) kind) (ofKind i kind (applied p))"
      if "i < length (watchers p)" for i kind
      using assms(1) 1 that nth_mem [OF that] by (auto simp: pipeline_inv_def kind_inv_def inFlight_def idleWatcher_def pendingSend_def)
    with 1 idle show ?thesis by (simp add: settled_def allApplied_def list_all_iff)
  next
    case 2
    with ws show ?thesis by (simp add: settled_def hanging_def)
  qed
qed (simp add: settled_def)

lemma delivery_emitted:
  "deliveryStep I H ser E num fraud p q \<Longrightarrow> map emitted (watchers q) = map emitted (watchers p)"
  by (erule deliveryStepE) (simp_all add: map_update list_update_same_conv)

text \<open>
  C36: the goroutines do not deadlock on the bounded queue. What they do by themselves
  always comes to an end, however it is scheduled, and from every state they reach it can only
  end in one of three ways: all events that have been emitted are applied, each kind of each
  token in its order; or the processor hangs in a call that never returns, which is the wait
  for a proposed block to be mined, and watchers with work left wait at a full queue; or a
  call has panicked and the process is gone. The spinning of a watcher on an ended subscription
  is no such step: it changes nothing, so it can delay the others but not stop them.
\<close>

theorem queue_drains:
  assumes "(pipelineStep I H ser E num fraud)\<^sup>*\<^sup>* (pipelineStart a) p"
  shows "wfP (\<lambda>q p. deliveryStep I H ser E num fraud p q) \<and>
    (\<forall>q. (deliveryStep I H ser E num fraud)\<^sup>*\<^sup>* p q \<and> (\<nexists>r. deliveryStep I H ser E num fraud q r) \<longrightarrow>
      map emitted (watchers q) = map emitted (watchers p) \<and> settled I H ser E num fraud q) \<and>
    (\<exists>q. (deliveryStep I H ser E num fraud)\<^sup>*\<^sup>* p q \<and> settled I H ser E num fraud q)"
proof -
  have inv: "pipeline_inv I H ser E num fraud a q \<and> map emitted (watchers q) = map emitted (watchers p)"
    if "(deliveryStep I H ser E num fraud)\<^sup>*\<^sup>* p q" for q
    using that
  proof (induction rule: rtranclp_induct)
    case base
    show ?case using pipeline_inv_reachable [OF assms] by simp
  qed (use pipeline_inv_delivery delivery_emitted in metis)
  have "\<exists>q. (deliveryStep I H ser E num fraud)\<^sup>*\<^sup>* p q \<and> (\<nexists>r. deliveryStep I H ser E num fraud q r)"
    using delivery_terminates [of I H ser E num fraud]
  proof (induction p rule: wfp_induct_rule)
    case (less p)
    then show ?case by (metis converse_rtranclp_into_rtranclp rtranclp.rtrancl_refl)
  qed
  with inv stuck_settled delivery_terminates show ?thesis by metis
qed

theorem queue_drains_witness:
  "\<exists>q. (deliveryStep mem_iface sampleHasher sampleSerializer recordingEnv 1 False)\<^sup>*\<^sup>* sampleEmitted q \<and>
     settled mem_iface sampleHasher sampleSerializer recordingEnv 1 False q"
  using queue_drains [OF sampleEmitted_reachable] by blast

end
