(* ===== verification/Node_Start.thy ===== *)
theory Node_Start
  imports Aggregator Relayer Badger_DB
begin

text \<open>
  How a node is put together: \<^verbatim>\<open>NewAggregator\<close> and \<^verbatim>\<open>Start\<close> of
  \<^verbatim>\<open>aggregator/aggregator.go\<close>, with the constructors of the transaction generator, the
  bridge and the withdraw manager. The configuration, the clients and the generated contract
  bindings are library calls, fields of \<open>nodeLib\<close>; a pointer that may be nil is an option.
\<close>

section \<open>The library\<close>

record ('c, 's, 'v, 'dw, 'tr, 'tm) nodeLib =
  GetString :: "string \<Rightarrow> string"
  GetInt :: "string \<Rightarrow> int"
  HexToAddress :: "string \<Rightarrow> bytes"
  Dial :: "string \<Rightarrow> ethclient outcome"
  NewRollupChain :: "bytes \<Rightarrow> ethclient option \<Rightarrow> 'c rollupChain outcome"
  NewValidatorRegistry :: "bytes \<Rightarrow> ethclient option \<Rightarrow> 'v outcome"
  NewBlockCommittee :: "bytes \<Rightarrow> ethclient option \<Rightarrow> 's blockCommittee outcome"
  NewDepositWithdrawManager :: "bytes \<Rightarrow> ethclient option \<Rightarrow> 'dw outcome"
  NewTokenRegistry :: "bytes \<Rightarrow> ethclient option \<Rightarrow> 'tr outcome"
  NewTokenMapper :: "bytes \<Rightarrow> ethclient option \<Rightarrow> 'tm outcome"
  Listen :: "int \<Rightarrow> unit outcome"

text \<open>An error that is logged, or overwritten, and a nil result that is used all the same.\<close>

definition orNil :: "'a outcome \<Rightarrow> 'a option outcome" where
  "orNil r = (case r of Ok x \<Rightarrow> Ok (Some x) | Err e \<Rightarrow> Ok None | Panic p \<Rightarrow> Panic p)"

lemma orNil_eq_Ok: "orNil r = Ok x \<longleftrightarrow> (\<exists>y. r = Ok y \<and> x = Some y) \<or> (\<exists>e. r = Err e \<and> x = None)"
  by (cases r) (auto simp: orNil_def)

definition badger_NewDB :: "('d, 'x, 'w, 'm, 'i) badger \<Rightarrow> string \<Rightarrow> 'd badgerDB outcome" where
  "badger_NewDB B dir = bindO (newBadgerDB B dir) (\<lambda>db. Ok db)"

section \<open>The parts\<close>

text \<open>The databases, the rollup chain and the mainchain client are those of the node.\<close>

record ('tr, 'tm) transactionGenerator =
  tg_sidechainClient :: "ethclient option"
  tg_tokenRegistry :: "'tr option"
  tg_tokenMapper :: "'tm option"

definition NewTransactionGenerator ::
  "('c, 's, 'v, 'dw, 'tr, 'tm) nodeLib \<Rightarrow> ethclient option \<Rightarrow> ('tr, 'tm) transactionGenerator outcome" where
  "NewTransactionGenerator N mclient =
     bindO (orNil (Dial N (GetString N ''sideChainEndpoint''))) (\<lambda>sclient.
     let tokenRegistryAddress = GetString N ''tokenRegistry''
     in bindO (orNil (NewTokenRegistry N (HexToAddress N tokenRegistryAddress) mclient)) (\<lambda>tokenRegistry.
     let tokenMapperAddress = GetString N ''tokenMapper''
     in bindO (orNil (NewTokenMapper N (HexToAddress N tokenMapperAddress) sclient)) (\<lambda>tokenMapper.
     Ok \<lparr>tg_sidechainClient = sclient, tg_tokenRegistry = tokenRegistry, tg_tokenMapper = tokenMapper\<rparr>)))"

record ('sk, 'dw, 'tm) bridge =
  br_mainchainClient :: "ethclient option"
  br_sidechainClient :: "ethclient option"
  br_sidechainAuth :: transactOpts
  br_sidechainAuthPrivateKey :: 'sk
  br_depositWithdrawManager :: 'dw
  br_tokenMapper :: "'tm option"

definition NewBridge ::
  "('c, 's, 'v, 'dw, 'tr, 'tm) nodeLib \<Rightarrow> ethclient option \<Rightarrow> ethclient option \<Rightarrow> transactOpts \<Rightarrow> 'sk \<Rightarrow>
     ('sk, 'dw, 'tm) bridge outcome" where
  "NewBridge N mclient sclient sauth sk =
     (let depositWithdrawManagerAddress = HexToAddress N (GetString N ''depositWithdrawManager'')
      in bindO (NewDepositWithdrawManager N depositWithdrawManagerAddress mclient) (\<lambda>depositWithdrawManager.
      let tokenMapperAddress = HexToAddress N (GetString N ''tokenMapper'')
      in bindO (orNil (NewTokenMapper N tokenMapperAddress sclient)) (\<lambda>tokenMapper.
      Ok \<lparr>br_mainchainClient = mclient, br_sidechainClient = sclient,
          br_sidechainAuth = sauth, br_sidechainAuthPrivateKey = sk,
          br_depositWithdrawManager = depositWithdrawManager, br_tokenMapper = tokenMapper\<rparr>)))"

record 'dw withdrawManager =
  wm_grpcPort :: int
  wm_mainchainClient :: "ethclient option"
  wm_mainchainAuth :: transactOpts
  wm_depositWithdrawManager :: 'dw

definition NewWithdrawManager ::
  "int \<Rightarrow> ethclient option \<Rightarrow> transactOpts \<Rightarrow> 'dw \<Rightarrow> 'dw withdrawManager" where
  "NewWithdrawManager grpcPort mclient mauth depositWithdrawManager =
     \<lparr>wm_grpcPort = grpcPort, wm_mainchainClient = mclient, wm_mainchainAuth = mauth,
      wm_depositWithdrawManager = depositWithdrawManager\<rparr>"

section \<open>The node\<close>

text \<open>
  The aggregator's database is the one of its state machine. The validator's state machine
  is nil when its creation failed; then so is the validator here, whose every use would
  dereference it, and the bridge is nil when its creation failed.
\<close>

record ('d, 'c, 's, 'pk, 'sk, 'dw, 'tr, 'tm) node =
  nd_aggregator :: "('d, 'c, 's) aggregator"
  nd_serializer :: serializer
  nd_env :: "('c, 's, 'pk, 'sk) chainEnv"
  nd_validatorDb :: 'd
  nd_validator :: "('d, 'c) validator option"
  nd_txGenerator :: "('tr, 'tm) transactionGenerator"
  nd_bridge :: "('sk, 'dw, 'tm) bridge option"
  nd_withdrawManager :: "'dw withdrawManager"
  nd_numTransitionsInBlock :: int
  nd_fraudTransfer :: bool
  nd_validatorMode :: bool

text \<open>
  The last arguments are the two chains, which exist before the node, the cryptography of
  go-ethereum and its ABI codec. An error of the validator's state machine or of the bridge
  is overwritten.
\<close>

definition NewAggregator ::
  "('d, 'x, 'w, 'm, 'i) badger \<Rightarrow> hasher \<Rightarrow> ('c, 's, 'v, 'dw, 'tr, 'tm) nodeLib \<Rightarrow> 'sk keystore \<Rightarrow>
     string \<Rightarrow> string \<Rightarrow> string \<Rightarrow> string \<Rightarrow> int \<Rightarrow> bool \<Rightarrow> bool \<Rightarrow> 'c \<Rightarrow> 's \<Rightarrow> ('pk, 'sk) crypto \<Rightarrow> abi \<Rightarrow>
     ('d badgerDB, 'c, 's, 'pk, 'sk, 'dw, 'tr, 'tm) node outcome" where
  "NewAggregator B H N K aggregatorDbDir validatorDbDir mainchainKeystore sidechainKeystore relayerGrpcPort
       fraud validating mc sc C A =
     bindO (badger_NewDB B aggregatorDbDir) (\<lambda>aggregatorDb.
     bindO (badger_NewDB B validatorDbDir) (\<lambda>validatorDb.
     bindO (NewSerializer A) (\<lambda>ser.
     let numTransitionsInBlock = GetInt N ''numTransitionsInBlock''
     in bindO (ReadFile K mainchainKeystore) (\<lambda>mainchainKeystoreBytes.
     bindO (DecryptKey K mainchainKeystoreBytes '''') (\<lambda>mainchainPrivateKey.
     let mauth = NewKeyedTransactor K mainchainPrivateKey
     in bindO (ReadFile K sidechainKeystore) (\<lambda>sidechainKeystoreBytes.
     bindO (DecryptKey K sidechainKeystoreBytes '''') (\<lambda>sidechainPrivateKey.
     let sauth = NewKeyedTransactor K sidechainPrivateKey
     in bindO (Dial N (GetString N ''mainchainEndpoint'')) (\<lambda>mclient.
     bindO (Dial N (GetString N ''sidechainEndpoint'')) (\<lambda>sclient.
     bindO (NewRollupChain N (HexToAddress N (GetString N ''rollupChain'')) (Some mclient)) (\<lambda>rollupChainBinding.
     bindO (NewValidatorRegistry N (HexToAddress N (GetString N ''validatorRegistry'')) (Some mclient)) (\<lambda>validatorRegistry.
     bindO (NewBlockCommittee N (HexToAddress N (GetString N ''blockCommittee'')) (Some sclient)) (\<lambda>blockCommitteeBinding.
     bindO (NewDepositWithdrawManager N (HexToAddress N (GetString N ''depositWithdrawManager'')) (Some mclient)) (\<lambda>dwm.
     bindO (fst (NewStateMachine (badger_iface B) H aggregatorDb)) (\<lambda>aggregatorStateMachine.
     bindO (NewTransactionGenerator N (Some mclient)) (\<lambda>txGenerator.
     let submitter = NewBlockSubmitter mauth sauth mc sc;
         env = \<lparr>rollupContract = rollupChainBinding, committee = blockCommitteeBinding,
           mainchainClient = Some mclient, sidechainClient = Some sclient, cryptography = C,
           sidechainKey = sidechainPrivateKey\<rparr>
     in bindO (orNil (fst (NewStateMachine (badger_iface B) H validatorDb))) (\<lambda>validatorStateMachine.
     let validator = map_option (\<lambda>sm. NewValidator sm mauth mc) validatorStateMachine
     in bindO (orNil (NewBridge N (Some mclient) (Some sclient) sauth sidechainPrivateKey)) (\<lambda>bridge.
     let withdrawManager = NewWithdrawManager relayerGrpcPort (Some mclient) mauth dwm
     in Ok \<lparr>nd_aggregator = \<lparr>stateMachine = aggregatorStateMachine, pendingBlock = NewRollupBlock 0,
            blockSubmitter = submitter\<rparr>,
          nd_serializer = ser, nd_env = env,
          nd_validatorDb = snd (NewStateMachine (badger_iface B) H validatorDb), nd_validator = validator,
          nd_txGenerator = txGenerator, nd_bridge = bridge, nd_withdrawManager = withdrawManager,
          nd_numTransitionsInBlock = numTransitionsInBlock, nd_fraudTransfer = fraud,
          nd_validatorMode = validating\<rparr>)))))))))))))))))"

section \<open>Starting\<close>

text \<open>
  What \<^verbatim>\<open>Start\<close> launches, in order. A goroutine of a nil bridge panics as soon as it runs.
\<close>

datatype goroutine =
    ProcessTransactions | ValidatorWatchRollupBlockCommitted
  | WatchBlockCommittee | SubmitterWatchRollupBlockCommitted
  | WatchNewHead | WatchTokenRegistry | WatchTokenMapper | WatchTransition
  | WatchMainchainDeposit | GrpcServe int

definition validator_Start :: "goroutine list" where
  "validator_Start = [ValidatorWatchRollupBlockCommitted]"

definition submitter_Start :: "goroutine list" where
  "submitter_Start = [WatchBlockCommittee, SubmitterWatchRollupBlockCommitted]"

definition generator_Start :: "goroutine list" where
  "generator_Start = [WatchNewHead, WatchTokenRegistry, WatchTokenMapper, WatchTransition]"

definition bridge_Start :: "goroutine list" where
  "bridge_Start = [WatchMainchainDeposit]"

text \<open>\<^verbatim>\<open>log.Fatal\<close> ends the process, here with the error it reports.\<close>

definition withdrawManager_Start ::
  "('c, 's, 'v, 'dw, 'tr, 'tm) nodeLib \<Rightarrow> 'dw withdrawManager \<Rightarrow> goroutine list outcome" where
  "withdrawManager_Start N m = bindO (Listen N (wm_grpcPort m)) (\<lambda>_. Ok [GrpcServe (wm_grpcPort m)])"

definition Start ::
  "('c, 's, 'v, 'dw, 'tr, 'tm) nodeLib \<Rightarrow> ('d, 'c, 's, 'pk, 'sk, 'dw, 'tr, 'tm) node \<Rightarrow> goroutine list outcome" where
  "Start N a =
     (let launched = [ProcessTransactions] @
            (if nd_validatorMode a then validator_Start else submitter_Start) @
            generator_Start @ bridge_Start
      in bindO (withdrawManager_Start N (nd_withdrawManager a)) (\<lambda>served. Ok (launched @ served)))"

section \<open>The command\<close>

text \<open>
  \<^verbatim>\<open>cmd/aggregator/main.go\<close>: the flags with their defaults, and the program, which ends
  with an error or launches the node and waits for ever. \<open>merged\<close> is viper after it has
  merged the named files of a directory, whose errors are ignored.
\<close>

record flags =
  fl_config :: string
  fl_aggregatorDbDir :: string
  fl_validatorDbDir :: string
  fl_mainchainKeystore :: string
  fl_sidechainKeystore :: string
  fl_relayerGrpcPort :: int
  fl_fraudTransfer :: bool
  fl_validatorMode :: bool

definition defaultFlags :: flags where
  "defaultFlags =
     \<lparr>fl_config = ''/tmp/celer-rollup-test/config'',
      fl_aggregatorDbDir = ''/tmp/celer-rollup-test/node0_aggregator_db'',
      fl_validatorDbDir = ''/tmp/celer-rollup-test/node0_validator_db'',
      fl_mainchainKeystore = ''env/keystore/node0.json'', fl_sidechainKeystore = ''env/keystore/node0.json'',
      fl_relayerGrpcPort = 6666, fl_fraudTransfer = False, fl_validatorMode = False\<rparr>"

definition aggregator_main ::
  "(string \<Rightarrow> string list \<Rightarrow> ('c, 's, 'v, 'dw, 'tr, 'tm) nodeLib) \<Rightarrow> ('d, 'x, 'w, 'm, 'i) badger \<Rightarrow> hasher \<Rightarrow>
     'sk keystore \<Rightarrow> flags \<Rightarrow> 'c \<Rightarrow> 's \<Rightarrow> ('pk, 'sk) crypto \<Rightarrow> abi \<Rightarrow> goroutine list outcome" where
  "aggregator_main merged B H K fl mc sc C A =
     (let N = merged (fl_config fl) [''parameters'', ''ethereum_networks'', ''mainchain_contract_addresses'',
          ''sidechain_contract_addresses'']
      in bindO (NewAggregator B H N K (fl_aggregatorDbDir fl) (fl_validatorDbDir fl) (fl_mainchainKeystore fl)
           (fl_sidechainKeystore fl) (fl_relayerGrpcPort fl) (fl_fraudTransfer fl) (fl_validatorMode fl) mc sc C A)
         (Start N))"

end
