(* ===== verification/Start_Properties.thy ===== *)
theory Start_Properties
  imports Node_Start State_Properties Badger_Properties
begin

text \<open>What a node starts from, on a fresh database and on one it has used before.\<close>

lemma NewStateMachine_root:
  assumes "NewStateMachine I H d = (Ok sm, d')"
  shows "GetStateRoot sm = defaultNodes H ! nat (int (Size H * 8) - 160)"
  using assms
  by (auto simp: NewStateMachine_def NewSparseMerkleTree_def bindS_eq_Ok Let_def defaultNode_def idx_def SetRoot_def
      GetStateRoot_def stateTreeHeight_def split: if_splits)

lemma getAccountInfo_db:
  "getAccountInfo I ser \<lparr>smDb = d, smTree = t\<rparr> a = getAccountInfo I ser \<lparr>smDb = d, smTree = t'\<rparr> a"
  unfolding getAccountInfo_def sm.simps ..

text \<open>
  C17: a restart forgets the state tree. On a database that a state machine has used, a new one
  changes nothing and finds every account as before, but its root is that of a tree that has
  never been written, the root it would have on an empty database.
\<close>

theorem restart_forgets_tree:
  assumes "160 \<le> 8 * Size H" and "db_Get mem_iface d (Some NamespaceStateTrie) initMarker = Ok (Some marker)"
  shows "\<exists>sm. NewStateMachine mem_iface H d = (Ok sm, d) \<and>
    getAccountInfo mem_iface ser sm a = getAccountInfo mem_iface ser \<lparr>smDb = d, smTree = tr\<rparr> a \<and>
    (\<forall>sm0 d0. NewStateMachine mem_iface H NewDB = (Ok sm0, d0) \<longrightarrow> GetStateRoot sm = GetStateRoot sm0)"
proof -
  have "nat (int (Size H * 8) - 160) < length (defaultNodes H)"
    using assms(1) by (simp add: length_defaultNodes)
  then obtain tree where "NewStateMachine mem_iface H d = (Ok \<lparr>smDb = d, smTree = tree\<rparr>, d)"
    using assms by (simp add: NewStateMachine_def NewSparseMerkleTree_def Let_def defaultNode_def stateTreeHeight_def)
  moreover from NewStateMachine_root [OF this] NewStateMachine_root [of mem_iface H NewDB]
  have "NewStateMachine mem_iface H NewDB = (Ok sm0, d0) \<longrightarrow> GetStateRoot \<lparr>smDb = d, smTree = tree\<rparr> = GetStateRoot sm0" for sm0 d0
    by simp
  ultimately show ?thesis by (intro exI [of _ "\<lparr>smDb = d, smTree = tree\<rparr>"]) (simp add: getAccountInfo_db [of mem_iface ser d tree a tr])
qed

definition sampleUsedDb :: memdb where
  "sampleUsedDb = \<lparr>db = (dbKey (Some NamespaceStateTrie) initMarker, []) # db (smDb sampleOpened)\<rparr>"

lemma sampleUsedDb_account:
  "getAccountInfo mem_iface sampleSerializer \<lparr>smDb = sampleUsedDb, smTree = tr\<rparr> (sampleAddress 1) = Ok sampleAccount"
proof -
  have "getAccountInfo mem_iface sampleSerializer \<lparr>smDb = sampleUsedDb, smTree = tr\<rparr> (sampleAddress 1) =
      getAccountInfo mem_iface sampleSerializer sampleOpened (sampleAddress 1)"
    by (simp add: getAccountInfo_def mem_iface_def mem_Get_def sampleUsedDb_def split: option.splits)
  also have "\<dots> = Ok sampleAccount"
    by (simp add: getAccountInfo_ledger [OF sampleOpened_implements])
  finally show ?thesis .
qed

theorem restart_forgets_tree_witness:
  "\<exists>sm. NewStateMachine mem_iface sampleHasher sampleUsedDb = (Ok sm, sampleUsedDb) \<and>
     getAccountInfo mem_iface sampleSerializer sm (sampleAddress 1) = Ok sampleAccount"
proof -
  have "db_Get mem_iface sampleUsedDb (Some NamespaceStateTrie) initMarker = Ok (Some [])"
    by (simp add: mem_iface_def mem_Get_def sampleUsedDb_def)
  from restart_forgets_tree [OF _ this, of sampleHasher sampleSerializer "sampleAddress 1" "smTree sampleOpened"]
  show ?thesis by (auto simp: sampleUsedDb_account)
qed

text \<open>
  A node that starts, starts at the beginning, whatever its databases hold: both state
  machines have the root of the tree that has never been written, the pending block is an
  empty block 0, and the validator signs with the account of the aggregator. A validator is
  there unless its state machine could not be created.
\<close>

theorem node_starts_at_beginning:
  assumes "NewAggregator B H N K adir vdir mks sks port fraud validating mc sc C A = Ok a"
  shows "GetStateRoot (stateMachine (nd_aggregator a)) = defaultNodes H ! nat (int (Size H * 8) - 160) \<and>
    pendingBlock (nd_aggregator a) = NewRollupBlock 0 \<and>
    (\<forall>v. nd_validator a = Some v \<longrightarrow>
      GetStateRoot (v_sm v) = GetStateRoot (stateMachine (nd_aggregator a)) \<and>
      v_auth v = mainchainAuth (blockSubmitter (nd_aggregator a))) \<and>
    GetAuthFromKeystore K sks '''' = Ok (sidechainAuth (blockSubmitter (nd_aggregator a))) \<and>
    GetPrivateKayFromKeystore K sks '''' = Ok (sidechainKey (nd_env a))"
proof -
  have root: "fst (NewStateMachine (badger_iface B) H d) = Ok sm \<Longrightarrow>
      GetStateRoot sm = defaultNodes H ! nat (int (Size H * 8) - 160)" for d sm
    by (rule NewStateMachine_root [of "badger_iface B" H d sm "snd (NewStateMachine (badger_iface B) H d)"])
      (simp add: prod_eq_iff)
  show ?thesis
    using assms
    by (auto simp: NewAggregator_def Let_def bindO_eq_Ok orNil_eq_Ok NewBlockSubmitter_def NewValidator_def root
        GetAuthFromKeystore_def GetPrivateKayFromKeystore_def)
qed

text \<open>A node over the list-backed store, whose chains and bindings do nothing.\<close>

definition sampleReceipts :: ethclient where
  "sampleReceipts = \<lparr>TransactionReceipt = \<lambda>_ _. Ok \<lparr>Status = 1, GasUsed = 0\<rparr>, HeaderByNumber = \<lambda>_. Ok 0\<rparr>"

definition sampleNodeLib :: "(unit, unit, unit, unit, unit, unit) nodeLib" where
  "sampleNodeLib = \<lparr>GetString = \<lambda>key. key, GetInt = \<lambda>_. 10, HexToAddress = \<lambda>_. replicate 20 0,
     Dial = \<lambda>_. Ok sampleReceipts,
     NewRollupChain = \<lambda>_ _. Ok \<lparr>CommitterAddress = \<lambda>_. Ok (replicate 20 0), Blocks = \<lambda>_ _. Ok ([], 0),
       CommitBlock = \<lambda>c _ _ _ _. (Ok \<lparr>tx_Hash = []\<rparr>, c), ProveTransitionInvalid = \<lambda>c _ _ _ _. (Ok \<lparr>tx_Hash = []\<rparr>, c)\<rparr>,
     NewValidatorRegistry = \<lambda>_ _. Ok (),
     NewBlockCommittee = \<lambda>_ _. Ok \<lparr>CurrentProposer = \<lambda>_. Ok (replicate 20 0),
       ProposeBlock = \<lambda>s _ _ _ _. (Ok \<lparr>tx_Hash = []\<rparr>, s), SignBlock = \<lambda>s _ _ _. (Ok \<lparr>tx_Hash = []\<rparr>, s)\<rparr>,
     NewDepositWithdrawManager = \<lambda>_ _. Ok (), NewTokenRegistry = \<lambda>_ _. Ok (), NewTokenMapper = \<lambda>_ _. Err ErrNotFound,
     Listen = \<lambda>_. Ok ()\<rparr>"

definition sampleKeystore :: "unit keystore" where
  "sampleKeystore = \<lparr>ReadFile = \<lambda>_. Ok [], DecryptKey = \<lambda>_ _. Ok (),
     NewKeyedTransactor = \<lambda>_. \<lparr>From = replicate 20 1, GasLimit = 0, GasPrice = None\<rparr>\<rparr>"

abbreviation usedBadger ::
  "(sampleStore, sampleStore \<times> txOp list, txOp list, bytes \<times> bytes, sampleStore \<times> bool) badger" where
  "usedBadger \<equiv> sampleBadger\<lparr>Open := \<lambda>_. Ok [(dbKey (Some NamespaceStateTrie) initMarker, [])]\<rparr>"

lemma usedBadger_start:
  "\<exists>sm d'. NewStateMachine (badger_iface usedBadger) sampleHasher
     \<lparr>bdg_db = [(dbKey (Some NamespaceStateTrie) initMarker, [])], bdg_cancelled = False, bdg_name = dir\<rparr> = (Ok sm, d')"
  by (simp add: NewStateMachine_def NewSparseMerkleTree_def Let_def defaultNode_def stateTreeHeight_def
      badger_iface_def badger_Get_def sampleBadger_def length_defaultNodes)

theorem node_starts_at_beginning_witness:
  "\<exists>a. NewAggregator usedBadger sampleHasher sampleNodeLib sampleKeystore ''a'' ''v'' ''m'' ''s'' 6666 False False
       () () (\<lparr>Keccak256 = \<lambda>_. [], SigToPub = \<lambda>_ _. Ok (), PubkeyToAddress = \<lambda>_. [], Sign = \<lambda>_ _. Ok [],
         SoliditySHA3 = \<lambda>_ _. [], SoliditySHA3WithPrefix = \<lambda>_. []\<rparr> :: (unit, unit) crypto) sampleAbi = Ok a \<and>
     (\<exists>v. nd_validator a = Some v \<and> GetStateRoot (v_sm v) = GetStateRoot (stateMachine (nd_aggregator a)))"
proof -
  let ?run = "NewAggregator usedBadger sampleHasher sampleNodeLib sampleKeystore ''a'' ''v'' ''m'' ''s'' 6666 False False
       () () (\<lparr>Keccak256 = \<lambda>_. [], SigToPub = \<lambda>_ _. Ok (), PubkeyToAddress = \<lambda>_. [], Sign = \<lambda>_ _. Ok [],
         SoliditySHA3 = \<lambda>_ _. [], SoliditySHA3WithPrefix = \<lambda>_. []\<rparr> :: (unit, unit) crypto) sampleAbi"
  obtain ser where ser: "NewSerializer sampleAbi = Ok ser" using NewSerializer_ok [OF sampleAbi_ok] by blast
  have opened: "badger_NewDB usedBadger dir =
      Ok \<lparr>bdg_db = [(dbKey (Some NamespaceStateTrie) initMarker, [])], bdg_cancelled = False, bdg_name = dir\<rparr>" for dir
    by (simp add: badger_NewDB_def newBadgerDB_def Let_def)
  obtain sma da where sma: "NewStateMachine (badger_iface usedBadger) sampleHasher
      \<lparr>bdg_db = [(dbKey (Some NamespaceStateTrie) initMarker, [])], bdg_cancelled = False, bdg_name = ''a''\<rparr> = (Ok sma, da)"
    using usedBadger_start by blast
  obtain smv dv where smv: "NewStateMachine (badger_iface usedBadger) sampleHasher
      \<lparr>bdg_db = [(dbKey (Some NamespaceStateTrie) initMarker, [])], bdg_cancelled = False, bdg_name = ''v''\<rparr> = (Ok smv, dv)"
    using usedBadger_start by blast
  have "\<exists>a v. ?run = Ok a \<and> nd_validator a = Some v"
    by (simp add: NewAggregator_def Let_def ser opened sma smv sampleNodeLib_def sampleKeystore_def orNil_def
        NewTransactionGenerator_def NewBridge_def)
  then obtain a v where "?run = Ok a" "nd_validator a = Some v" by blast
  with node_starts_at_beginning [OF this(1)] show ?thesis by blast
qed

end
