(* ===== verification/Logging.thy ===== *)
theory Logging
  imports Prelude Go_Bytes "HOL-Library.Sublist"
begin

text \<open>
  \<^verbatim>\<open>log/log.go\<close> and \<^verbatim>\<open>log/util.go\<close>: the package's variables are the record
  \<open>logState\<close>, set up by the first call of \<^verbatim>\<open>NewLogger\<close> or \<^verbatim>\<open>Default\<close>; the mutex
  makes each of them one step. The configuration reader viper, zerolog's level names and
  \<^verbatim>\<open>os.OpenFile\<close> are parameters. A zerolog logger is the list of the settings applied to
  it, in order.
\<close>

section \<open>The libraries\<close>

datatype readError = ConfigFileNotFoundError | OtherReadError string

record 'v viper =
  SetEnvKeyReplacer :: "'v \<Rightarrow> (string \<times> string) list \<Rightarrow> 'v"
  SetEnvPrefix :: "'v \<Rightarrow> string \<Rightarrow> 'v"
  AutomaticEnv :: "'v \<Rightarrow> 'v"
  SetConfigType :: "'v \<Rightarrow> string \<Rightarrow> 'v"
  SetConfigName :: "'v \<Rightarrow> string \<Rightarrow> 'v"
  AddConfigPath :: "'v \<Rightarrow> string \<Rightarrow> 'v"
  SetConfigFile :: "'v \<Rightarrow> string \<Rightarrow> 'v"
  ReadInConfig :: "'v \<Rightarrow> readError option \<times> 'v"
  ReadConfig :: "'v \<Rightarrow> string \<Rightarrow> 'v"
  viper_GetString :: "'v \<Rightarrow> string \<Rightarrow> string"
  viper_GetBool :: "'v \<Rightarrow> string \<Rightarrow> bool"
  viper_Sub :: "'v \<Rightarrow> string \<Rightarrow> 'v option"

record ('f, 'l) logLib =
  ParseLevel :: "string \<Rightarrow> 'l option"
  levelString :: "'l \<Rightarrow> string"
  DebugLevel :: 'l
  InfoLevel :: 'l
  OpenFile :: "string \<Rightarrow> 'f outcome"

datatype 'f logOut = Stderr | Stdout | LogFile 'f

datatype 'f logWriter =
    JsonWriter "'f logOut"
  | ConsoleWriter (console_out: "'f logOut") (console_colorable: bool) (console_noColor: bool) (console_timeFormat: string)

datatype ('f, 'l) logOp =
    OutputOp "'f logWriter" | CallerOp | TimestampOp | StrOp string string | LevelOp 'l

text \<open>What the package itself logs while it reads its configuration.\<close>

datatype logMessage =
    InitUsingFile string | FailToReadConfig readError | FailedToOpenOutput string
  | InvalidFormatter string | FailToParseLevel string | FailedToOpenModuleOutput string string

section \<open>State\<close>

record ('v, 'f, 'l) logState =
  baseLogger :: "('f, 'l) logOp list"
  baseLevel :: 'l
  isLogInit :: bool
  viperConf :: 'v
  TimeFieldFormat :: string
  logMessages :: "logMessage list"

text \<open>The values the variables have when the program starts; \<open>tf\<close> is zerolog's default format.\<close>

definition initialLog :: "('f, 'l) logLib \<Rightarrow> 'v \<Rightarrow> string \<Rightarrow> ('v, 'f, 'l) logState" where
  "initialLog Z v tf =
     \<lparr>baseLogger = [OutputOp (JsonWriter Stderr)], baseLevel = InfoLevel Z, isLogInit = False, viperConf = v,
      TimeFieldFormat = tf, logMessages = []\<rparr>"

definition confFilePathKey :: string where "confFilePathKey = ''LOGCONFIG''"
definition confEnvPrefix :: string where "confEnvPrefix = ''ARGLIB''"
definition defaultConfFileName :: string where "defaultConfFileName = ''arglog''"
definition defaultConfStr :: string where "defaultConfStr = ''''"

record ('f, 'l) Logger =
  lg_Logger :: "('f, 'l) logOp list"
  lg_name :: string
  lg_level :: 'l

definition logMsg :: "logMessage \<Rightarrow> ('v, 'f, 'l) logState \<Rightarrow> ('v, 'f, 'l) logState" where
  "logMsg msg st = st\<lparr>logMessages := logMessages st @ [msg]\<rparr>"

section \<open>Reading the configuration\<close>

definition loadConfigFile :: "'v viper \<Rightarrow> ('v, 'f, 'l) logState \<Rightarrow> ('v, 'f, 'l) logState" where
  "loadConfigFile V st =
     (let v = SetEnvKeyReplacer V (viperConf st) [(''.'', ''_'')];
          v = SetEnvPrefix V v confEnvPrefix;
          v = AutomaticEnv V v;
          v = SetConfigType V v ''toml'';
          v = SetConfigName V v defaultConfFileName;
          v = AddConfigPath V v ''.'';
          confFilePath = viper_GetString V v confFilePathKey;
          (v, st) = (if confFilePath \<noteq> '''' then (SetConfigFile V v confFilePath, logMsg (InitUsingFile confFilePath) st)
            else (v, st));
          (err, v) = ReadInConfig V v
      in case err of
           None \<Rightarrow> st\<lparr>viperConf := v\<rparr>
         | Some ConfigFileNotFoundError \<Rightarrow>
             st\<lparr>viperConf := (if defaultConfStr \<noteq> '''' then ReadConfig V v defaultConfStr else v)\<rparr>
         | Some e \<Rightarrow> logMsg (FailToReadConfig e) (st\<lparr>viperConf := v\<rparr>))"

definition errEmptyName :: error where
  "errEmptyName = ErrExternal ''not really error. just placeholder''"

definition getOutput :: "('f, 'l) logLib \<Rightarrow> string \<Rightarrow> 'f logOut outcome" where
  "getOutput Z outName =
     (if outName = '''' then Err errEmptyName
      else if outName = ''stdout'' then Ok Stdout
      else if outName = ''stderr'' then Ok Stderr
      else bindO (OpenFile Z outName) (\<lambda>out. Ok (LogFile out)))"

text \<open>\<^verbatim>\<open>strings.ToLower\<close>; only ASCII letters can make one of the formatters' names.\<close>

definition toLower :: "string \<Rightarrow> string" where
  "toLower s = map (\<lambda>c. if of_char c \<in> {65..90 :: nat} then char_of (of_char c + 32 :: nat) else c) s"

definition initLog :: "'v viper \<Rightarrow> ('f, 'l) logLib \<Rightarrow> ('v, 'f, 'l) logState \<Rightarrow> ('v, 'f, 'l) logState" where
  "initLog V Z st =
     (let conf = viperConf st;
          st = (if viper_GetString V conf ''timefieldformat'' \<noteq> ''''
            then st\<lparr>TimeFieldFormat := viper_GetString V conf ''timefieldformat''\<rparr> else st);
          outputName = viper_GetString V conf ''out'';
          (out, st) = (if outputName \<noteq> '''' then (case getOutput Z outputName of
               Ok out \<Rightarrow> (out, st\<lparr>baseLogger := baseLogger st @ [OutputOp (JsonWriter out)]\<rparr>)
             | _ \<Rightarrow> (Stderr, logMsg (FailedToOpenOutput outputName) st))
            else (Stderr, st));
          formatter = viper_GetString V conf ''formatter'';
          st = (if formatter \<noteq> '''' then
              (let lower = toLower formatter
               in if lower = ''json'' then st\<lparr>baseLogger := baseLogger st @ [OutputOp (JsonWriter out)]\<rparr>
                  else if lower = ''console''
                  then st\<lparr>baseLogger := baseLogger st @ [OutputOp (ConsoleWriter out True False (TimeFieldFormat st))]\<rparr>
                  else if lower = ''console_no_color''
                  then st\<lparr>baseLogger := baseLogger st @ [OutputOp (ConsoleWriter out False True (TimeFieldFormat st))]\<rparr>
                  else (logMsg (InvalidFormatter formatter) st)\<lparr>baseLogger := baseLogger st @ [OutputOp (JsonWriter out)]\<rparr>)
            else st);
          st = (if viper_GetBool V conf ''caller'' then st\<lparr>baseLogger := baseLogger st @ [CallerOp]\<rparr> else st);
          level = viper_GetString V conf ''level'';
          (zLevel, st) = (if level = '''' then (InfoLevel Z, st) else (case ParseLevel Z level of
               Some l \<Rightarrow> (l, st)
             | None \<Rightarrow> (InfoLevel Z, logMsg (FailToParseLevel level) st)))
      in st\<lparr>baseLogger := baseLogger st @ [TimestampOp, LevelOp zLevel], baseLevel := zLevel\<rparr>)"

section \<open>Loggers\<close>

definition NewLogger ::
  "'v viper \<Rightarrow> ('f, 'l) logLib \<Rightarrow> string \<Rightarrow> ('v, 'f, 'l) logState \<Rightarrow> ('f, 'l) Logger \<times> ('v, 'f, 'l) logState" where
  "NewLogger V Z moduleName st =
     (let st = (if isLogInit st then st else (initLog V Z (loadConfigFile V st))\<lparr>isLogInit := True\<rparr>);
          zLogger = baseLogger st @ [StrOp ''module'' moduleName]
      in case viper_Sub V (viperConf st) moduleName of
           None \<Rightarrow> (\<lparr>lg_Logger = zLogger, lg_name = moduleName, lg_level = baseLevel st\<rparr>, st)
         | Some sub \<Rightarrow>
             (let outputName = viper_GetString V sub ''out'';
                  (zLogger, st) = (if outputName \<noteq> '''' then (case getOutput Z outputName of
                       Ok out \<Rightarrow> (zLogger @ [OutputOp (JsonWriter out)], st)
                     | _ \<Rightarrow> (zLogger, logMsg (FailedToOpenModuleOutput outputName moduleName) st))
                    else (zLogger, st));
                  level = viper_GetString V sub ''level'';
                  (zLogger, zLevel) = (if level \<noteq> '''' then
                      (let l = (case ParseLevel Z level of Some l \<Rightarrow> l | None \<Rightarrow> InfoLevel Z)
                       in (zLogger @ [LevelOp l], l))
                    else (zLogger, baseLevel st))
              in (\<lparr>lg_Logger = zLogger, lg_name = moduleName, lg_level = zLevel\<rparr>, st)))"

definition Default ::
  "'v viper \<Rightarrow> ('f, 'l) logLib \<Rightarrow> ('v, 'f, 'l) logState \<Rightarrow> ('f, 'l) Logger \<times> ('v, 'f, 'l) logState" where
  "Default V Z st =
     (let st = (if isLogInit st then st else (initLog V Z st)\<lparr>isLogInit := True\<rparr>)
      in (\<lparr>lg_Logger = baseLogger st, lg_name = '''', lg_level = baseLevel st\<rparr>, st))"

definition IsDebugEnabled :: "('f, 'l) logLib \<Rightarrow> ('f, 'l) Logger \<Rightarrow> bool" where
  "IsDebugEnabled Z logger \<longleftrightarrow> lg_level logger = DebugLevel Z"

definition Level :: "('f, 'l) logLib \<Rightarrow> ('f, 'l) Logger \<Rightarrow> string" where
  "Level Z logger = levelString Z (lg_level logger)"

text \<open>
  The adapter that badger logs through, \<^verbatim>\<open>db/badgerdb/logger.go\<close>: the level an entry of
  badger's is logged with.
\<close>

datatype badgerSeverity = Errorf | Warningf | Infof | Debugf
datatype zerologSeverity = ZError | ZWarn | ZDebug

fun extendedLog :: "badgerSeverity \<Rightarrow> zerologSeverity" where
  "extendedLog Errorf = ZError"
| "extendedLog Warningf = ZWarn"
| "extendedLog Infof = ZDebug"
| "extendedLog Debugf = ZDebug"

section \<open>Callers\<close>

text \<open>\<^verbatim>\<open>runtime.Caller\<close> on a call stack, innermost frame first; \<^verbatim>\<open>strconv.Itoa\<close>.\<close>

type_synonym frames = "(string \<times> nat) list"

definition Caller :: "frames \<Rightarrow> nat \<Rightarrow> (string \<times> nat) option" where
  "Caller stack skip = (if skip < length stack then Some (stack ! skip) else None)"

fun Itoa :: "nat \<Rightarrow> string" where
  "Itoa n = (if n < 10 then [char_of (48 + n)] else Itoa (n div 10) @ [char_of (48 + n mod 10)])"

declare Itoa.simps [simp del]

definition SkipCaller :: "frames \<Rightarrow> nat \<Rightarrow> string" where
  "SkipCaller stack skip = (case Caller stack skip of
      None \<Rightarrow> ''?''
    | Some (path, line) \<Rightarrow> path @ '':'' @ Itoa line)"

function PanicInvoker :: "frames \<Rightarrow> nat \<Rightarrow> string" where
  "PanicInvoker stack skipTip = (case Caller stack skipTip of
      None \<Rightarrow> ''?''
    | Some (path, line) \<Rightarrow>
        if suffix ''runtime/panic.go'' path then PanicInvoker stack (skipTip + 1)
        else path @ '':'' @ Itoa line)"
  by pat_completeness auto
termination
  by (relation "measure (\<lambda>(stack, skipTip). length stack - skipTip)") (auto simp: Caller_def split: if_splits)

declare PanicInvoker.simps [simp del]

end
