(* ===== verification/Logging_Properties.thy ===== *)
theory Logging_Properties
  imports Logging
begin

text \<open>
  Which configuration a logger gets its level from, over any sequence of calls of
  \<^verbatim>\<open>NewLogger\<close> and \<^verbatim>\<open>Default\<close>, and where \<^verbatim>\<open>PanicInvoker\<close> stops.
\<close>

section \<open>Levels\<close>

definition parsedLevel :: "('f, 'l) logLib \<Rightarrow> string \<Rightarrow> 'l" where
  "parsedLevel Z level = (case ParseLevel Z level of Some l \<Rightarrow> l | None \<Rightarrow> InfoLevel Z)"

definition configuredBase :: "'v viper \<Rightarrow> ('f, 'l) logLib \<Rightarrow> 'v \<Rightarrow> 'l" where
  "configuredBase V Z conf =
     (let level = viper_GetString V conf ''level'' in if level = '''' then InfoLevel Z else parsedLevel Z level)"

text \<open>A module's own level counts, then the general one, then info.\<close>

definition configuredLevel :: "'v viper \<Rightarrow> ('f, 'l) logLib \<Rightarrow> 'v \<Rightarrow> string \<Rightarrow> 'l" where
  "configuredLevel V Z conf name = (case viper_Sub V conf name of
      Some sub \<Rightarrow>
        (let level = viper_GetString V sub ''level''
         in if level = '''' then configuredBase V Z conf else parsedLevel Z level)
    | None \<Rightarrow> configuredBase V Z conf)"

text \<open>The level a zerolog logger filters by is the one set last.\<close>

fun effectiveLevel :: "('f, 'l) logOp list \<Rightarrow> 'l option" where
  "effectiveLevel [] = None"
| "effectiveLevel (op # ops) = (case effectiveLevel ops of
      Some l \<Rightarrow> Some l
    | None \<Rightarrow> (case op of LevelOp l \<Rightarrow> Some l | _ \<Rightarrow> None))"

lemma effectiveLevel_append [simp]:
  "effectiveLevel (ops @ ops') = (case effectiveLevel ops' of Some l \<Rightarrow> Some l | None \<Rightarrow> effectiveLevel ops)"
  by (induction ops) (auto split: option.splits)

text \<open>A logging package that has read \<open>conf\<close>.\<close>

definition logReady :: "'v viper \<Rightarrow> ('f, 'l) logLib \<Rightarrow> 'v \<Rightarrow> ('v, 'f, 'l) logState \<Rightarrow> bool" where
  "logReady V Z conf st \<longleftrightarrow> isLogInit st \<and> viperConf st = conf \<and> baseLevel st = configuredBase V Z conf \<and>
     effectiveLevel (baseLogger st) = Some (configuredBase V Z conf)"

lemma logMsg_simps [simp]:
  "viperConf (logMsg msg st) = viperConf st" "baseLogger (logMsg msg st) = baseLogger st"
  "baseLevel (logMsg msg st) = baseLevel st" "isLogInit (logMsg msg st) = isLogInit st"
  by (simp_all add: logMsg_def)

lemma initLog_ready: "logReady V Z (viperConf st) ((initLog V Z st)\<lparr>isLogInit := True\<rparr>)"
  by (simp add: logReady_def initLog_def Let_def configuredBase_def parsedLevel_def split: option.split outcome.split)

lemma NewLogger_ready:
  assumes "logReady V Z conf st"
  shows "logReady V Z conf (snd (NewLogger V Z name st))"
    and "lg_level (fst (NewLogger V Z name st)) = configuredLevel V Z conf name"
    and "effectiveLevel (lg_Logger (fst (NewLogger V Z name st))) = Some (configuredLevel V Z conf name)"
    and "lg_name (fst (NewLogger V Z name st)) = name"
  using assms
  by (auto simp: logReady_def NewLogger_def configuredLevel_def parsedLevel_def Let_def split: option.split outcome.split)

lemma NewLogger_first:
  "\<not> isLogInit st \<Longrightarrow> NewLogger V Z name st =
     NewLogger V Z name ((initLog V Z (loadConfigFile V st))\<lparr>isLogInit := True\<rparr>)"
  by (simp add: NewLogger_def)

lemma Default_ready:
  assumes "logReady V Z conf st"
  shows "Default V Z st = (\<lparr>lg_Logger = baseLogger st, lg_name = '''', lg_level = configuredBase V Z conf\<rparr>, st)"
  using assms by (simp add: logReady_def Default_def Let_def)

lemma Default_first:
  "\<not> isLogInit st \<Longrightarrow> Default V Z st = Default V Z ((initLog V Z st)\<lparr>isLogInit := True\<rparr>)"
  by (simp add: Default_def)

section \<open>Sequences of calls\<close>

datatype logCall = CallNewLogger string | CallDefault

fun logCalls ::
  "'v viper \<Rightarrow> ('f, 'l) logLib \<Rightarrow> logCall list \<Rightarrow> ('v, 'f, 'l) logState \<Rightarrow> ('f, 'l) Logger list" where
  "logCalls V Z [] st = []"
| "logCalls V Z (CallNewLogger name # cs) st =
     (let (lg, st) = NewLogger V Z name st in lg # logCalls V Z cs st)"
| "logCalls V Z (CallDefault # cs) st = (let (lg, st) = Default V Z st in lg # logCalls V Z cs st)"

fun callLevel :: "'v viper \<Rightarrow> ('f, 'l) logLib \<Rightarrow> 'v \<Rightarrow> logCall \<Rightarrow> 'l" where
  "callLevel V Z conf (CallNewLogger name) = configuredLevel V Z conf name"
| "callLevel V Z conf CallDefault = configuredBase V Z conf"

definition levelled :: "'l \<Rightarrow> ('f, 'l) Logger \<Rightarrow> bool" where
  "levelled l lg \<longleftrightarrow> lg_level lg = l \<and> effectiveLevel (lg_Logger lg) = Some l"

lemma logCalls_ready:
  "logReady V Z conf st \<Longrightarrow> list_all2 (\<lambda>c lg. levelled (callLevel V Z conf c) lg) cs (logCalls V Z cs st)"
proof (induction cs arbitrary: st)
  case (Cons c cs)
  show ?case
  proof (cases c)
    case (CallNewLogger name)
    obtain lg st' where run: "NewLogger V Z name st = (lg, st')" by fastforce
    with NewLogger_ready [OF Cons.prems, of name] Cons.IH [of st'] CallNewLogger
    show ?thesis by (simp add: levelled_def)
  next
    case CallDefault
    then show ?thesis
      using Cons.IH [OF Cons.prems] Cons.prems by (simp add: Default_ready levelled_def logReady_def)
  qed
qed simp

text \<open>
  C39: the first call decides which configuration the whole program logs with. If it is
  \<^verbatim>\<open>NewLogger\<close>, every logger handed out from then on has the level that the loaded
  configuration gives its module; if it is \<^verbatim>\<open>Default\<close>, the configuration file is never
  read, also by later calls of \<^verbatim>\<open>NewLogger\<close>. The level a logger reports is always the
  one its zerolog logger filters by.
\<close>

theorem first_call_decides_configuration:
  "list_all2
     (\<lambda>c lg. levelled (callLevel V Z (viperConf (loadConfigFile V (initialLog Z v tf))) c) lg)
     (CallNewLogger name # cs) (logCalls V Z (CallNewLogger name # cs) (initialLog Z v tf)) \<and>
   list_all2 (\<lambda>c lg. levelled (callLevel V Z v c) lg)
     (CallDefault # cs) (logCalls V Z (CallDefault # cs) (initialLog Z v tf))"
proof -
  let ?st = "initialLog Z v tf"
  have init: "\<not> isLogInit ?st" "viperConf ?st = v" by (simp_all add: initialLog_def)
  have eq: "logCalls V Z (CallNewLogger name # cs) ?st =
      logCalls V Z (CallNewLogger name # cs) ((initLog V Z (loadConfigFile V ?st))\<lparr>isLogInit := True\<rparr>)"
    "logCalls V Z (CallDefault # cs) ?st = logCalls V Z (CallDefault # cs) ((initLog V Z ?st)\<lparr>isLogInit := True\<rparr>)"
    using NewLogger_first [OF init(1), of V Z name] Default_first [OF init(1), of V Z] by simp_all
  show ?thesis
    unfolding eq
    using logCalls_ready [OF initLog_ready [of V Z "loadConfigFile V ?st"], of "CallNewLogger name # cs"]
      logCalls_ready [OF initLog_ready [of V Z ?st], of "CallDefault # cs"]
    unfolding init(2) by blast
qed

section \<open>Callers\<close>

text \<open>The frame reported is the first one from \<open>skip\<close> on that is not in \<^verbatim>\<open>runtime/panic.go\<close>.\<close>

lemma PanicInvoker_first:
  "PanicInvoker stack skip =
     (case dropWhile (\<lambda>(path, line). suffix ''runtime/panic.go'' path) (drop skip stack) of
        [] \<Rightarrow> ''?''
      | (path, line) # _ \<Rightarrow> path @ '':'' @ Itoa line)"
proof (induction stack skip rule: PanicInvoker.induct)
  case (1 stack skip)
  show ?case
  proof (cases "skip < length stack")
    case True
    then have "drop skip stack = stack ! skip # drop (skip + 1) stack" by (simp add: Cons_nth_drop_Suc)
    moreover obtain path line where "stack ! skip = (path, line)" by fastforce
    ultimately show ?thesis
      using True 1 by (subst PanicInvoker.simps) (simp add: Caller_def)
  qed (subst PanicInvoker.simps, simp add: Caller_def)
qed

end
