(* ===== verification/Revert_Reason.thy ===== *)
theory Revert_Reason
  imports Go_Bytes "HOL-Library.Sublist"
begin

text \<open>
  \<^verbatim>\<open>tools/revertreason/main.go\<close>: asks an Ethereum node for a transaction, replays it
  with \<^verbatim>\<open>eth_call\<close> and prints the reason it was reverted with. The HTTP client and the
  JSON codec are parameters; a decoded JSON value is the datatype \<open>json\<close>, and an unchecked
  type assertion that fails is a panic. \<^verbatim>\<open>log.Fatal\<close> ends the program with its error.
\<close>

section \<open>Requests\<close>

datatype json = JNull | JString string | JObject "(string \<times> json) list" | JOther string

record Request =
  JSONRPC :: string
  Method :: string
  Params :: "json list"
  ID :: nat

definition getReqJSON :: "string \<Rightarrow> json list \<Rightarrow> Request" where
  "getReqJSON method paramsIn = \<lparr>JSONRPC = ''2.0'', Method = method, Params = paramsIn, ID = 1\<rparr>"

record httpResponse =
  StatusCode :: nat
  Status :: string
  Body :: "bytes outcome"

record httpLib =
  Post :: "Request \<Rightarrow> httpResponse outcome"
  Unmarshal :: "bytes \<Rightarrow> (string \<times> json) list outcome"

definition postToSvr :: "httpLib \<Rightarrow> Request \<Rightarrow> (string \<times> json) list outcome" where
  "postToSvr W req =
     (case Post W req of
        Err e \<Rightarrow> Err (ErrWrap ''post to svr err: '' e)
      | Panic p \<Rightarrow> Panic p
      | Ok resp \<Rightarrow>
          if StatusCode resp \<noteq> 200 then Err (ErrExternal (''svr http err: '' @ Status resp))
          else (case Body resp of
              Err e \<Rightarrow> Err (ErrWrap ''read resp.Body err: '' e)
            | Panic p \<Rightarrow> Panic p
            | Ok respBytes \<Rightarrow> Unmarshal W respBytes))"

section \<open>The reason\<close>

definition fromHexChar :: "char \<Rightarrow> nat option" where
  "fromHexChar c =
     (let n = of_char c :: nat
      in if 48 \<le> n \<and> n \<le> 57 then Some (n - 48)
         else if 97 \<le> n \<and> n \<le> 102 then Some (n - 87)
         else if 65 \<le> n \<and> n \<le> 70 then Some (n - 55)
         else None)"

text \<open>\<^verbatim>\<open>hex.DecodeString\<close>, whose error the code drops: the bytes before the first bad digit.\<close>

fun decodeHex :: "string \<Rightarrow> bytes" where
  "decodeHex (a # b # cs) = (case (fromHexChar a, fromHexChar b) of
      (Some x, Some y) \<Rightarrow> word_of_nat (16 * x + y) # decodeHex cs
    | _ \<Rightarrow> [])"
| "decodeHex _ = []"

definition hex2Bytes :: "string \<Rightarrow> bytes" where
  "hex2Bytes s =
     (let s = (if 2 \<le> length s \<and> s ! 0 = CHR ''0'' \<and> (s ! 1 = CHR ''x'' \<or> s ! 1 = CHR ''X'') then drop 2 s else s);
          s = (if odd (length s) then CHR ''0'' # s else s)
      in decodeHex s)"

text \<open>\<^verbatim>\<open>bytes.Trim(b, "\x00")\<close>.\<close>

definition trimZeros :: "bytes \<Rightarrow> bytes" where
  "trimZeros b = rev (dropWhile (\<lambda>x. x = 0) (rev (dropWhile (\<lambda>x. x = 0) b)))"

text \<open>The reason that is logged, if any.\<close>

definition printReason :: "string \<Rightarrow> bytes option outcome" where
  "printReason txt =
     (let b = hex2Bytes txt
      in if length b > 68
         then (let b = trimZeros b
               in if length b < 68 then Panic SliceBoundsOutOfRange else Ok (Some (drop 68 b)))
         else Ok None)"

section \<open>The program\<close>

definition jget :: "(string \<times> json) list \<Rightarrow> string \<Rightarrow> json" where
  "jget obj k = (case map_of obj k of None \<Rightarrow> JNull | Some v \<Rightarrow> v)"

fun asString :: "json \<Rightarrow> string outcome" where
  "asString (JString s) = Ok s"
| "asString _ = Panic TypeAssertion"

fun asObject :: "json \<Rightarrow> (string \<times> json) list outcome" where
  "asObject (JObject obj) = Ok obj"
| "asObject _ = Panic TypeAssertion"

definition trimPrefix :: "string \<Rightarrow> string \<Rightarrow> string" where
  "trimPrefix s p = (if prefix p s then drop (length p) s else s)"

definition cpKeys :: "string list" where
  "cpKeys = [''from'', ''to'', ''gas'', ''gasPrice'', ''value'']"

definition revertText :: "(string \<times> json) list \<Rightarrow> string outcome" where
  "revertText resp2 = (case jget resp2 ''error'' of
      JObject errObj \<Rightarrow> bindO (asString (jget errObj ''data'')) (\<lambda>s. Ok (trimPrefix s ''Reverted ''))
    | _ \<Rightarrow> asString (jget resp2 ''result''))"

definition revertreason_main :: "httpLib \<Rightarrow> string \<Rightarrow> bytes option outcome" where
  "revertreason_main W txHash =
     bindO (postToSvr W (getReqJSON ''eth_getTransactionByHash'' [JString txHash])) (\<lambda>resp.
     if jget resp ''error'' \<noteq> JNull
     then bindO (asObject (jget resp ''error'')) (\<lambda>e. bindO (asString (jget e ''message'')) (\<lambda>m. Err (ErrExternal m)))
     else if jget resp ''result'' = JNull then Err (ErrExternal ''No result'')
     else bindO (asObject (jget resp ''result'')) (\<lambda>result.
       bindO (mapO (\<lambda>k. bindO (asString (jget result k)) (\<lambda>v. Ok (k, JString v))) cpKeys) (\<lambda>ethCall.
       bindO (asString (jget result ''input'')) (\<lambda>input.
       bindO (postToSvr W (getReqJSON ''eth_call''
           [JObject (ethCall @ [(''data'', JString input)]), jget result ''blockNumber''])) (\<lambda>resp2.
       bindO (revertText resp2) printReason)))))"

section \<open>Solidity's encoding of a reason\<close>

text \<open>
  What a contract returns when \<^verbatim>\<open>require(false, m)\<close> fails: the selector of
  \<^verbatim>\<open>Error(string)\<close>, the offset of the string, its length, its bytes, padded with zeros.
\<close>

definition abiWord :: "nat \<Rightarrow> bytes" where
  "abiWord n = replicate (32 - length (natBytes n)) 0 @ natBytes n"

definition encodeReason :: "bytes \<Rightarrow> bytes" where
  "encodeReason m =
     [0x08, 0xc3, 0x79, 0xa0] @ abiWord 32 @ abiWord (length m) @ m @ replicate ((32 - length m mod 32) mod 32) 0"

definition hexDigit :: "nat \<Rightarrow> char" where
  "hexDigit n = (if n < 10 then char_of (48 + n) else char_of (87 + n))"

definition hexOf :: "bytes \<Rightarrow> string" where
  "hexOf bs = concat (map (\<lambda>b. [hexDigit (unat b div 16), hexDigit (unat b mod 16)]) bs)"

lemma fromHexChar_hexDigit: "n < 16 \<Longrightarrow> fromHexChar (hexDigit n) = Some n"
  by (auto simp: fromHexChar_def hexDigit_def Let_def)

lemma decodeHex_hexOf [simp]: "decodeHex (hexOf bs) = bs"
proof (induction bs)
  case (Cons b bs)
  have "unat b div 16 < 16" using unsigned_less [of b, where 'a = nat] by (simp add: less_mult_imp_div_less)
  then show ?case using Cons by (simp add: hexOf_def fromHexChar_hexDigit)
qed (simp add: hexOf_def)

lemma even_hexOf [simp]: "even (length (hexOf bs))"
  by (induction bs) (simp_all add: hexOf_def)

lemma hex2Bytes_hexOf [simp]: "hex2Bytes (CHR ''0'' # CHR ''x'' # hexOf bs) = bs"
  by (simp add: hex2Bytes_def)

lemma length_abiWord: "n < 256 ^ 32 \<Longrightarrow> length (abiWord n) = 32"
  using length_natBytes [of n 32] by (simp add: abiWord_def)

lemma dropWhile_zeros: "dropWhile (\<lambda>x. x = 0) (replicate n 0 @ xs) = dropWhile (\<lambda>x. x = 0) xs"
  by (induction n) simp_all

lemma trimZeros_message:
  assumes "b \<noteq> 0" and "m \<noteq> []" and "last m \<noteq> 0"
  shows "trimZeros (b # xs @ m @ replicate n 0) = b # xs @ m"
proof -
  obtain ys y where "m = ys @ [y]" using assms(2) by (cases m rule: rev_exhaust) auto
  then show ?thesis using assms(1,3) by (simp add: trimZeros_def dropWhile_zeros)
qed

text \<open>
  C40: the tool prints the reason. Whatever message a contract was reverted with, as long as it
  is not empty and does not end in a zero byte, its encoding is decoded to it; the empty
  message is reported as no reason.
\<close>

theorem revert_reason_roundtrip:
  assumes "length m < 256 ^ 32" and "m = [] \<or> last m \<noteq> 0"
  shows "printReason (''0x'' @ hexOf (encodeReason m)) = Ok (if m = [] then None else Some m)"
proof (cases "m = []")
  case True
  then have "\<not> 68 < length (encodeReason m)" by (simp add: encodeReason_def length_abiWord)
  then show ?thesis using True by (simp add: printReason_def)
next
  case False
  let ?h = "[0xc3, 0x79, 0xa0] @ abiWord 32 @ abiWord (length m)"
  have len: "length ?h = 67" using assms(1) by (simp add: length_abiWord)
  have e: "encodeReason m = 0x08 # ?h @ m @ replicate ((32 - length m mod 32) mod 32) 0"
    by (simp add: encodeReason_def)
  have "trimZeros (encodeReason m) = 0x08 # ?h @ m"
    unfolding e using False assms(2) by (intro trimZeros_message) auto
  moreover have "68 < length (encodeReason m)" using len False unfolding e by (cases m) auto
  moreover have "drop 68 (0x08 # ?h @ m) = m" "\<not> length (0x08 # ?h @ m) < 68" using len by simp_all
  ultimately show ?thesis using False by (simp only: printReason_def append.simps hex2Bytes_hexOf Let_def if_True if_False)
qed

theorem revert_reason_roundtrip_witness:
  "printReason (''0x'' @ hexOf (encodeReason [0x6e, 0x6f])) = Ok (Some [0x6e, 0x6f])"
  using revert_reason_roundtrip [of "[0x6e, 0x6f]"] by simp

text \<open>Output of more than 68 bytes that are mostly zeros makes the tool panic.\<close>

lemma print_reason_zeros_panics: "printReason (hexOf (replicate 69 0)) = Panic SliceBoundsOutOfRange"
  by code_simp

end
