(* ===== verification/Spec2Isabelle.thy ===== *)
theory Spec2Isabelle
  imports State_Properties Run_Properties Tree_Properties Compact_Properties Store_Properties
    Badger_Properties Replay_Properties Root_Properties Chain_Properties Fraud_Properties Queue_Properties
    Node_Properties Start_Properties Relayer Logging_Properties Revert_Reason
begin

text \<open>
  The go-rollup node: an optimistic rollup. Accounts with balances per token live off chain, in
  a state machine whose state root is the root of a sparse Merkle tree. An aggregator applies
  transactions, writes each one with the root it led to into a block, and commits the block on
  the mainchain; validators replay committed blocks and answer a wrong root with a fraud proof.
  This library models the Go code of the repository (paths are relative to its root) and proves
  what its parts promise, and what they promise together.

  \<^bold>\<open>The program and how its parts interact.\<close>
  \<^verbatim>\<open>aggregator/transaction_generator.go\<close> turns contract events into transactions on a channel of
  ten places; \<^verbatim>\<open>aggregator/aggregator.go\<close> takes them off, lets \<^verbatim>\<open>statemachine/state_machine.go\<close>
  apply them, makes transitions of the results (\<^verbatim>\<open>types/transitions.go\<close>) and hands a full block to
  \<^verbatim>\<open>aggregator/block_submitter.go\<close>, which proposes, signs and commits it. The state machine keeps
  every account twice: serialised in the database (\<^verbatim>\<open>db/\<close>), and as a leaf of the state tree
  (\<^verbatim>\<open>smt/\<close>), whose nodes are in the same database. \<^verbatim>\<open>validator/validator.go\<close> has a state machine of
  its own. \<^verbatim>\<open>relayer/\<close> signs deposits for the sidechain and proves withdrawals of committed blocks.

  \<^bold>\<open>Theories, bottom up.\<close>

  \<^item> \<open>Prelude\<close>, \<open>Go_Bytes\<close>, \<open>Runs\<close>: outcomes of Go calls (a value, an error, a
    panic) and their sequencing, checked indexing, the two collections of simplification rules;
    byte slices, \<^verbatim>\<open>math/big\<close> and \<^verbatim>\<open>copy\<close>; runs of step relations with the locales \<open>invariant_run\<close>
    and \<open>counted_run\<close>.
  \<^item> \<open>DB_Interface\<close> (\<^verbatim>\<open>db/types.go\<close>, \<^verbatim>\<open>db/utils.go\<close>): the interface as a table of methods, namespaced
    keys, and the contract \<open>kv_db\<close> of a provider in terms of the finite map it stands for.
    \<open>Store_Contract\<close>: the weaker contract \<open>kv_store\<close> of a provider with limits, which every
    \<open>kv_db\<close> meets (a sublocale), and client programs over it. \<open>Memory_DB\<close> (\<^verbatim>\<open>db/memorydb/\<close>)
    interprets \<open>kv_db\<close>; \<open>Badger_DB\<close>, \<open>Badger_Contract\<close> (\<^verbatim>\<open>db/badgerdb/\<close>) meet \<open>kv_store\<close>
    relative to the store badger; \<open>Store_Properties\<close> and \<open>Badger_Properties\<close> show what clients
    see of them, and that they agree.
  \<^item> \<open>Merkle_Spec\<close>, \<open>Sparse_Merkle\<close>, \<open>Merkle_Refinement\<close>, \<open>Merkle_Proofs\<close>,
    \<open>Tree_Properties\<close>, \<open>Compact_Properties\<close> (\<^verbatim>\<open>smt/\<close>): abstract perfect trees; the tree in the
    database, with the record \<open>smt\<close> for the struct; \<open>represents\<close>, the refinement relation;
    proofs, compact proofs and partial trees.
  \<^item> \<open>Rollup_Types\<close>, \<open>Block_Info\<close> (\<^verbatim>\<open>types/\<close>): accounts, transactions, the five transitions,
    blocks, fraud proofs and their ABI serialisation; the Merkle tree of a block.
  \<^item> \<open>State_Machine\<close> (\<^verbatim>\<open>statemachine/state_machine.go\<close>): one definition per method, over the record
    \<open>sm\<close> of database and tree, every error path with the state it leaves. \<open>Ledger\<close> has the
    invariant \<open>sm_wf\<close>, \<open>Ledger_Writes\<close> its preservation by the two writes, \<open>Ledger_Spec\<close>
    and \<open>Ledger_Facts\<close> the specification on plain maps, \<open>Ledger_Refinement\<close> the refinement of
    that specification on any \<open>kv_db\<close>; \<open>State_Proofs\<close> the inclusion proofs handed out,
    \<open>Root_Determinism\<close> that a ledger determines the root. \<open>State_Contract\<close> and
    \<open>State_Properties\<close> state this for the in-memory database; \<open>Ledger_Runs\<close>, \<open>Ledger_Bounds\<close>
    and \<open>Run_Properties\<close> carry it to sequences of transactions: supply, bounds, types, nonces;
    \<open>Root_Properties\<close> computes the state root from the list of accounts alone.
  \<^item> \<open>Eth_Client\<close> (\<^verbatim>\<open>utils/\<close>), \<open>Validator\<close>, \<open>Block_Submitter\<close>, \<open>Aggregator\<close>, \<open>Token_Pipeline\<close>,
    \<open>Relayer\<close>, \<open>Node_Start\<close> (with \<^verbatim>\<open>cmd/aggregator/main.go\<close>): the parts around the state machine, with the
    two chains as states behind the contract bindings, and how a node is put together.
    \<open>Replay\<close>, \<open>Replay_Properties\<close>, \<open>Chain_Sync\<close>, \<open>Chain_Properties\<close>, \<open>Fraud_Properties\<close>:
    aggregator and validator together, for one transition, for a rejected transaction, and from
    a common start over the blocks that are proposed, committed and watched, up to the call of
    the contract. \<open>Queue_Properties\<close>: token watchers, bounded queue and processor as goroutines
    in any interleaving (\<open>pipelineStep\<close>), with full queues, spinning subscriptions, calls that
    hang and panics. \<open>Node_Properties\<close> and \<open>Start_Properties\<close>: waiting for receipts, signatures,
    tokens, withdrawals, restarts.
  \<^item> \<open>Logging\<close>, \<open>Logging_Properties\<close> (\<^verbatim>\<open>log/\<close>, \<^verbatim>\<open>db/badgerdb/logger.go\<close>), \<open>Revert_Reason\<close>
    (\<^verbatim>\<open>tools/revertreason/main.go\<close>): the auxiliary packages.
  \<^item> \<open>Sample_Parameters\<close>, \<open>Sample_States\<close>: concrete parameters and states for the witnesses.

  \<^bold>\<open>What the groups of lemmas show.\<close> The refinement \<open>ApplyTransaction_refines\<close> is the centre: from a
  well-formed state the handler and the abstract ledger return the same, error for error, and
  the state reached stands for the ledger's. Effects, rejections, conservation of supply, bounds
  and replay protection follow on plain maps. Root determinism and the proofs of entries give the
  agreement of aggregator and validator, on which the chain and fraud theorems rest. The store
  lemmas give the database contract, the tree lemmas reading, proving and updating under every
  earlier root.

  \<^bold>\<open>Parameters and what is assumed of them.\<close> The hash function (\<open>hasher_ok\<close>: digests have the
  size, inputs have digests); no theorem assumes that it is injective. Where two inputs could
  collide, the condition is about the nodes that are written (\<open>updateFresh\<close>, \<open>applyFresh\<close>), or the
  conclusion exhibits the collision. The ABI codec (\<open>abi_ok\<close>: what fits is packed and unpacked
  again, and unpacking fills the field of a struct that has the capitalised name of the argument), the signature scheme (\<open>crypto_ok\<close>), badger (\<open>badger_ok\<close>: documented behaviour of
  its transactions and iterators), the RPC clients, the contract bindings, configuration readers,
  the HTTP client and the JSON codec. The witnesses instantiate them with concrete functions.

  \<^bold>\<open>Bounds and termination.\<close> No definition runs on fuel. Loops over a tree recurse on the remaining
  height, scans on the remaining cursor; the polling loops of \<^verbatim>\<open>utils/transactions.go\<close>, the
  validator's loop above them and a badger scan may run forever, so they are
  \<open>partial_function (option)\<close>, \<open>None\<close> is a call that never returns, and returning is proved where
  it is claimed. Slots are 64-bit words where the code has \<^verbatim>\<open>uint64\<close>, amounts and nonces are
  unbounded as \<^verbatim>\<open>big.Int\<close> is, and fit into 256 bits where they are serialised. The state tree has
  the height 160 of the code (\<open>stateTreeHeight\<close>); theorems hold for every height, the
  witnesses use small trees so that they can be evaluated.

  \<^bold>\<open>Limits of the model.\<close> Go slices are values here. The code relies on fresh slices except in two
  places: \<^verbatim>\<open>PrependNamespace\<close> appends to a package-level namespace slice, and the in-memory
  database keeps the value slice it is given; both are modelled without sharing. Methods that
  hold a mutex for their whole body are one step. The transactor options, shared by pointer, are
  part of the state of each component that changes them. The state-machine theorems rest on
  \<open>kv_db\<close>, which badger meets within its limits on keys and transaction sizes only. Of the
  concurrency, the goroutines between token events and aggregator are interleaved; the others,
  which share the databases with them, are modelled one at a time.

  \<^bold>\<open>Not modelled.\<close> \<^verbatim>\<open>relayer/relayer.pb.go\<close> is generated by protoc; of it only the request message has
  a record. \<^verbatim>\<open>cmd/rollupdemo/main.go\<close> registers commands of \<^verbatim>\<open>test/\<close> with cobra; \<^verbatim>\<open>test/\<close> is a test
  environment with its deployment scripts. \<^verbatim>\<open>watchNewHead\<close> and \<^verbatim>\<open>watchTransition\<close> receive events
  and drop them. The accessors of \<^verbatim>\<open>smt/smt.go\<close> and the getters of the
  transition structs are record fields here. \<^verbatim>\<open>LazyEval\<close> of \<^verbatim>\<open>log/util.go\<close> is a closure with a
  \<^verbatim>\<open>String\<close> method. Log output is left out except for what the logging package reports
  about its own configuration.
\<close>

end
